(* ===== verification/Prelude.thy ===== *)
theory Prelude
  imports Main "HOL-Library.Word" "HOL-Library.AList"
begin

text \<open>
  Shared vocabulary of the development: the names of the model's basic types
  (keys, 64-bit signed integers as Redis and Go hold them), the collections of
  equations that the component theories register for evaluation, and generic
  facts on lists, sums over lists and signed 64-bit words that several
  components use.
\<close>

named_theorems redis_simps "equations that evaluate the Redis server model"
named_theorems client_simps "equations that evaluate the client-side helpers and benchmarks"

type_synonym key = string
type_synonym i64 = "64 word"

abbreviation LLONG_MAX :: int where
  "LLONG_MAX \<equiv> 2 ^ 63 - 1"

abbreviation LLONG_MIN :: int where
  "LLONG_MIN \<equiv> - (2 ^ 63)"

subsection \<open>Signed 64-bit words\<close>

lemma sint_i64_bounds [simp]:
  "LLONG_MIN \<le> sint (x :: i64)" "sint (x :: i64) \<le> LLONG_MAX"
  using sint_ge [of x] sint_lt [of x] by simp_all

lemma sint_of_int_i64:
  assumes "LLONG_MIN \<le> i" and "i \<le> LLONG_MAX"
  shows "sint (word_of_int i :: i64) = i"
proof -
  have "signed_take_bit 63 i = i"
    using assms by (intro signed_take_bit_int_eq_self) simp_all
  then show ?thesis by (simp only: sint_sbintrunc') simp
qed

lemma sint_add_i64:
  assumes "LLONG_MIN \<le> sint a + sint b" and "sint a + sint b \<le> LLONG_MAX"
  shows "sint (a + b :: i64) = sint a + sint b"
proof -
  have "a + b = word_of_int (sint a + sint b)"
    by (simp only: of_int_add of_int_sint scast_id)
  then have "sint (a + b) = sint (word_of_int (sint a + sint b) :: i64)"
    by simp
  also have "\<dots> = sint a + sint b"
    using assms by (rule sint_of_int_i64)
  finally show ?thesis .
qed

lemma sint_plus_one_i64:
  assumes "sint v < LLONG_MAX"
  shows "sint (v + 1 :: i64) = sint v + 1"
proof -
  have "LLONG_MIN \<le> sint v + sint (1 :: i64)"
    using sint_i64_bounds(1) [of v] by simp
  moreover have "sint v + sint (1 :: i64) \<le> LLONG_MAX"
    using assms by simp
  ultimately have "sint (v + 1) = sint v + sint (1 :: i64)"
    by (rule sint_add_i64)
  then show ?thesis by simp
qed

lemma sint_add_nat_i64:
  "sint v + int n \<le> LLONG_MAX \<Longrightarrow> sint (v + word_of_nat n :: i64) = sint v + int n"
proof (induction n)
  case 0
  then show ?case by simp
next
  case (Suc n)
  then have ih: "sint (v + word_of_nat n) = sint v + int n" by simp
  have eq: "v + word_of_nat (Suc n) = v + word_of_nat n + 1" by simp
  have "sint (v + word_of_nat n + 1) = sint (v + word_of_nat n) + 1"
    using ih Suc.prems by (intro sint_plus_one_i64) simp
  then show ?case by (simp only: eq ih)
qed

subsection \<open>Sums over lists of per-worker quantities\<close>

lemma sum_list_map_update_nat:
  fixes f :: "'a \<Rightarrow> nat"
  assumes "i < length xs"
  shows "sum_list (map f (xs[i := x])) + f (xs ! i) = sum_list (map f xs) + f x"
  using assms
proof (induction xs arbitrary: i)
  case Nil
  then show ?case by simp
next
  case (Cons y ys)
  then show ?case by (cases i) auto
qed

lemma elem_le_sum_list_nat:
  fixes f :: "'a \<Rightarrow> nat"
  assumes "i < length xs"
  shows "f (xs ! i) \<le> sum_list (map f xs)"
  using assms by (simp add: member_le_sum_list)

subsection \<open>Lists of workers updated at one index\<close>

lemma concat_map_update:
  "i < length xs \<Longrightarrow>
   concat (map f (xs[i := x])) = concat (map f (take i xs)) @ f x @ concat (map f (drop (Suc i) xs)) \<and>
   concat (map f xs) = concat (map f (take i xs)) @ f (xs ! i) @ concat (map f (drop (Suc i) xs))"
  by (simp add: upd_conv_take_nth_drop) (metis concat_append concat.simps(2) id_take_nth_drop map_append list.map(2))

lemma set_update_keep:
  assumes "wk \<in> set xs" and "wk \<noteq> xs ! i"
  shows "wk \<in> set (xs[i := x])"
proof -
  obtain j where j: "j < length xs" "xs ! j = wk" using assms(1) by (auto simp: in_set_conv_nth)
  with assms(2) have "j \<noteq> i" by auto
  with j show ?thesis by (metis length_list_update nth_list_update_neq nth_mem)
qed

lemma length_concat_le: "(\<And>x. length (f x) \<le> 1) \<Longrightarrow> length (concat (map f xs)) \<le> length xs"
proof (induction xs)
  case Nil
  then show ?case by simp
next
  case (Cons a xs)
  have "length (f a) \<le> 1" using Cons.prems .
  then show ?case using Cons.IH [OF Cons.prems] by simp
qed

lemma witness_update:
  "i < length xs \<Longrightarrow> P x \<Longrightarrow> \<exists>wk \<in> set (xs[i := x]). P wk"
  by (blast intro: set_update_memI)

lemma replicate_set_single: "set xs \<subseteq> {x} \<Longrightarrow> xs = replicate (length xs) x"
  by (induction xs) auto

end
