(* ===== verification/Int64Text.thy ===== *)
theory Int64Text
  imports Prelude
begin

text \<open>
  Decimal text of signed 64-bit integers, as the Redis server reads and
  writes it (\<open>string2ll\<close> and \<open>ll2string\<close> of Redis's util.c) and as Go's
  \<open>strconv.FormatInt\<close> prints it when the radix client decodes an integer
  reply into a Go string.  This is code outside the repository; it is modelled
  from its documented behaviour.  The parser is strict: no sign other than a
  leading minus, no leading zeros, no \<open>-0\<close>, at most 20 characters, and the
  value must fit in a signed 64-bit integer.  The main results are the two
  round trips: printing then parsing gives the integer back, and a string that
  parses is exactly the printed form of its value.
\<close>

subsection \<open>Digits\<close>

definition is_digit :: "char \<Rightarrow> bool" where
  "is_digit c \<longleftrightarrow> 48 \<le> (of_char c :: nat) \<and> (of_char c :: nat) \<le> 57"

definition digit_char :: "nat \<Rightarrow> char" where
  "digit_char d = char_of (48 + d)"

definition digit_val :: "char \<Rightarrow> nat" where
  "digit_val c = of_char c - 48"

fun nat_digits :: "nat \<Rightarrow> string" where
  "nat_digits n =
     (if n < 10 then [digit_char n] else nat_digits (n div 10) @ [digit_char (n mod 10)])"

declare nat_digits.simps [simp del]

text \<open>The accumulating loop of \<open>string2ll\<close>: \<open>v = v * 10 + (p[0] - '0')\<close>.\<close>

fun digits_value :: "nat \<Rightarrow> string \<Rightarrow> nat" where
  "digits_value acc [] = acc"
| "digits_value acc (c # cs) = digits_value (10 * acc + digit_val c) cs"

subsection \<open>Printing and parsing\<close>

definition ll2string :: "i64 \<Rightarrow> string" where
  "ll2string v =
     (if sint v < 0 then CHR ''-'' # nat_digits (nat (- sint v))
      else nat_digits (nat (sint v)))"

text \<open>
  The digits after an optional minus sign: the first one in \<open>1..9\<close>, the rest
  in \<open>0..9\<close>, and the magnitude at most \<open>2^63\<close> for a negative number and
  \<open>2^63 - 1\<close> for a positive one.
\<close>

definition string2ll_digits :: "bool \<Rightarrow> string \<Rightarrow> i64 option" where
  "string2ll_digits neg ds =
     (case ds of
        [] \<Rightarrow> None
      | d # rest \<Rightarrow>
          if \<not> is_digit d \<or> d = CHR ''0'' \<or> \<not> list_all is_digit rest then None
          else (let v = digits_value 0 ds in
                if neg then (if 2 ^ 63 < v then None else Some (- word_of_nat v))
                else if 2 ^ 63 - 1 < v then None else Some (word_of_nat v)))"

definition string2ll :: "string \<Rightarrow> i64 option" where
  "string2ll s =
     (if s = [] \<or> 21 \<le> length s then None
      else if s = ''0'' then Some 0
      else (case s of
              [] \<Rightarrow> None
            | c # ds \<Rightarrow> if c = CHR ''-'' then string2ll_digits True ds
                        else string2ll_digits False s))"


subsection \<open>Facts on digits\<close>

lemma digit_char_simps [redis_simps]:
  "digit_char 0 = CHR ''0''" "digit_char 1 = CHR ''1''" "digit_char 2 = CHR ''2''"
  "digit_char 3 = CHR ''3''" "digit_char 4 = CHR ''4''" "digit_char 5 = CHR ''5''"
  "digit_char 6 = CHR ''6''" "digit_char 7 = CHR ''7''" "digit_char 8 = CHR ''8''"
  "digit_char 9 = CHR ''9''" "digit_char (Suc 0) = CHR ''1''"
  by (simp_all add: digit_char_def char_of_def bit_simps)

lemma of_char_digit_char:
  "d < 10 \<Longrightarrow> (of_char (digit_char d) :: nat) = 48 + d"
  by (simp add: digit_char_def)

lemma is_digit_digit_char [simp]: "d < 10 \<Longrightarrow> is_digit (digit_char d)"
  by (simp add: is_digit_def of_char_digit_char)

lemma digit_val_digit_char [simp]: "d < 10 \<Longrightarrow> digit_val (digit_char d) = d"
  by (simp add: digit_val_def of_char_digit_char)

lemma digit_char_digit_val [simp]: "is_digit c \<Longrightarrow> digit_char (digit_val c) = c"
  by (simp add: is_digit_def digit_val_def digit_char_def)

lemma digit_val_less: "is_digit c \<Longrightarrow> digit_val c < 10"
  unfolding is_digit_def digit_val_def by linarith

lemma digit_char_eq_zero_iff: "d < 10 \<Longrightarrow> digit_char d = CHR ''0'' \<longleftrightarrow> d = 0"
  by (metis digit_char_simps(1) digit_val_digit_char zero_less_numeral)

lemma digit_char_not_minus: "d < 10 \<Longrightarrow> digit_char d \<noteq> CHR ''-''"
proof
  assume "d < 10" and "digit_char d = CHR ''-''"
  then have "(of_char (digit_char d) :: nat) = 45" by simp
  with \<open>d < 10\<close> show False by (simp add: of_char_digit_char)
qed

lemma nat_digits_small [simp]: "n < 10 \<Longrightarrow> nat_digits n = [digit_char n]"
  by (simp add: nat_digits.simps)

lemma nat_digits_big: "\<not> n < 10 \<Longrightarrow> nat_digits n = nat_digits (n div 10) @ [digit_char (n mod 10)]"
  by (simp add: nat_digits.simps [of n])

lemma nat_digits_all_digits: "list_all is_digit (nat_digits n)"
proof (induction n rule: nat_digits.induct)
  case (1 n)
  then show ?case by (cases "n < 10") (simp_all add: nat_digits_big)
qed

lemma nat_digits_ne: "nat_digits n \<noteq> []"
  by (simp add: nat_digits.simps [of n])

lemma nat_digits_head:
  "nat_digits n = d # ds \<Longrightarrow> 0 < n \<Longrightarrow> d \<noteq> CHR ''0'' \<and> d \<noteq> CHR ''-''"
proof (induction n arbitrary: ds rule: nat_digits.induct)
  case (1 n)
  show ?case
  proof (cases "n < 10")
    case True
    with "1.prems" show ?thesis
      by (auto simp: digit_char_eq_zero_iff digit_char_not_minus)
  next
    case False
    then have "0 < n div 10" by simp
    moreover obtain ds' where "nat_digits (n div 10) = d # ds'"
      using "1.prems"(1) False nat_digits_ne [of "n div 10"]
      by (cases "nat_digits (n div 10)") (auto simp: nat_digits_big)
    ultimately show ?thesis using "1.IH" False by blast
  qed
qed

lemma digits_value_append:
  "digits_value acc (xs @ ys) = digits_value (digits_value acc xs) ys"
  by (induction xs arbitrary: acc) simp_all

lemma digits_value_ge: "acc \<le> digits_value acc xs"
proof (induction xs arbitrary: acc)
  case Nil
  then show ?case by simp
next
  case (Cons c cs)
  have "acc \<le> 10 * acc + digit_val c" by simp
  also have "\<dots> \<le> digits_value (10 * acc + digit_val c) cs" by (rule Cons.IH)
  finally show ?case by simp
qed


lemma digits_value_nat_digits0 [simp]: "digits_value 0 (nat_digits n) = n"
proof (induction n rule: nat_digits.induct)
  case (1 n)
  show ?case
  proof (cases "n < 10")
    case True
    then show ?thesis by simp
  next
    case False
    with "1.IH" show ?thesis
      by (simp add: nat_digits_big digits_value_append)
  qed
qed

lemma nat_digits_length: "n < 10 ^ k \<Longrightarrow> 0 < k \<Longrightarrow> length (nat_digits n) \<le> k"
proof (induction n arbitrary: k rule: nat_digits.induct)
  case (1 n)
  show ?case
  proof (cases "n < 10")
    case True
    with "1.prems" show ?thesis by simp
  next
    case False
    with "1.prems" obtain k' where k: "k = Suc k'" and "0 < k'"
      by (cases k; cases "k - 1") auto
    with "1.prems" have "n div 10 < 10 ^ k'"
      by (simp add: less_mult_imp_div_less mult.commute)
    with "1.IH" False \<open>0 < k'\<close> have "length (nat_digits (n div 10)) \<le> k'" by blast
    with False k show ?thesis by (simp add: nat_digits_big)
  qed
qed

subsection \<open>Printing then parsing\<close>

lemma string2ll_digits_nat_digits:
  assumes "0 < n"
  shows "string2ll_digits neg (nat_digits n) =
           (if neg then (if 2 ^ 63 < n then None else Some (- word_of_nat n))
            else if 2 ^ 63 - 1 < n then None else Some (word_of_nat n))"
proof -
  obtain d ds where nd: "nat_digits n = d # ds"
    using nat_digits_ne [of n] by (cases "nat_digits n") auto
  with assms have "d \<noteq> CHR ''0''" by (blast dest: nat_digits_head)
  moreover from nd have "is_digit d" and "list_all is_digit ds"
    using nat_digits_all_digits [of n] by simp_all
  ultimately show ?thesis
    using nd digits_value_nat_digits0 [of n] by (simp add: string2ll_digits_def)
qed

lemma nat_digits_i64_length:
  assumes "n \<le> 2 ^ 63"
  shows "length (nat_digits n) \<le> 19"
proof -
  have "n < 10 ^ 19" using assms by simp
  then show ?thesis by (rule nat_digits_length) simp
qed

lemma word_of_nat_nat_sint:
  "0 \<le> sint x \<Longrightarrow> (word_of_nat (nat (sint x)) :: i64) = x"
proof -
  assume "0 \<le> sint x"
  then have "(word_of_nat (nat (sint x)) :: i64) = word_of_int (sint x)"
    by (metis int_nat_eq of_int_of_nat_eq)
  then show ?thesis by (simp only: of_int_sint scast_id)
qed

lemma neg_word_of_nat_nat_sint:
  "sint x < 0 \<Longrightarrow> - (word_of_nat (nat (- sint x)) :: i64) = x"
proof -
  assume "sint x < 0"
  then have "(word_of_nat (nat (- sint x)) :: i64) = word_of_int (- sint x)"
    by (metis int_nat_eq of_int_of_nat_eq less_le neg_0_less_iff_less)
  then have "- (word_of_nat (nat (- sint x)) :: i64) = word_of_int (sint x)"
    by (simp only: of_int_minus minus_minus)
  then show ?thesis by (simp only: of_int_sint scast_id)
qed

theorem string2ll_ll2string: "string2ll (ll2string x) = Some x"
proof (cases "sint x < 0")
  case True
  let ?n = "nat (- sint x)"
  have pos: "0 < ?n" using True by simp
  have le: "?n \<le> 2 ^ 63" using sint_i64_bounds(1) [of x] by (simp add: nat_le_iff)
  then have "length (nat_digits ?n) \<le> 19" by (rule nat_digits_i64_length)
  with True pos le show ?thesis
    by (simp add: ll2string_def string2ll_def string2ll_digits_nat_digits neg_word_of_nat_nat_sint)
next
  case False
  let ?n = "nat (sint x)"
  show ?thesis
  proof (cases "?n = 0")
    case True
    with False have "sint x = 0" by simp
    then have "x = word_of_int 0" by (metis of_int_sint scast_id)
    then have "x = 0" by simp
    then show ?thesis by (simp add: ll2string_def string2ll_def digit_char_simps)
  next
    case pos: False
    have le: "?n \<le> 2 ^ 63 - 1" using sint_i64_bounds(2) [of x] by (simp add: nat_le_iff)
    then have "length (nat_digits ?n) \<le> 19" by (intro nat_digits_i64_length) simp
    moreover obtain d ds where nd: "nat_digits ?n = d # ds"
      using nat_digits_ne [of ?n] by (cases "nat_digits ?n") auto
    moreover have "0 < ?n" using pos by simp
    with nd have "d \<noteq> CHR ''0'' \<and> d \<noteq> CHR ''-''"
      by (rule nat_digits_head)
    ultimately show ?thesis
      using False pos le string2ll_digits_nat_digits [of ?n False]
      by (simp add: ll2string_def string2ll_def word_of_nat_nat_sint)
  qed
qed

subsection \<open>Parsing then printing\<close>

lemma digit_val_pos: "is_digit d \<Longrightarrow> d \<noteq> CHR ''0'' \<Longrightarrow> 0 < digit_val d"
  by (metis digit_char_digit_val digit_char_simps(1) gr0I)

lemma digits_value_pos:
  "is_digit d \<Longrightarrow> d \<noteq> CHR ''0'' \<Longrightarrow> 0 < digits_value 0 (d # ds)"
  using digit_val_pos [of d] digits_value_ge [of "digit_val d" ds] by simp

lemma nat_digits_digits_value:
  "ds \<noteq> [] \<Longrightarrow> list_all is_digit ds \<Longrightarrow> hd ds \<noteq> CHR ''0'' \<Longrightarrow>
   nat_digits (digits_value 0 ds) = ds"
proof (induction ds rule: rev_induct)
  case Nil
  then show ?case by simp
next
  case (snoc c ys)
  have c: "is_digit c" using snoc.prems(2) by simp
  show ?case
  proof (cases "ys = []")
    case True
    with c show ?thesis by (simp add: digit_val_less)
  next
    case False
    let ?v = "digits_value 0 ys"
    obtain d rest where ys: "ys = d # rest" using False by (cases ys) auto
    with snoc.prems have "is_digit d" "d \<noteq> CHR ''0''" by simp_all
    then have "0 < digits_value 0 (d # rest)" by (rule digits_value_pos)
    with ys have "0 < ?v" by simp
    moreover have "digits_value 0 (ys @ [c]) = 10 * ?v + digit_val c"
      by (simp add: digits_value_append)
    moreover have "nat_digits ?v = ys"
      using snoc.IH False snoc.prems by simp
    ultimately show ?thesis
      using c digit_val_less [OF c] by (simp add: nat_digits_big)
  qed
qed

lemma sint_word_of_nat_i64:
  "v \<le> 2 ^ 63 - 1 \<Longrightarrow> sint (word_of_nat v :: i64) = int v"
  using sint_of_int_i64 [of "int v"] by (simp add: of_int_of_nat_eq)

lemma sint_neg_word_of_nat_i64:
  "v \<le> 2 ^ 63 \<Longrightarrow> sint (- word_of_nat v :: i64) = - int v"
proof -
  assume "v \<le> 2 ^ 63"
  then have "LLONG_MIN \<le> - int v" by simp
  moreover have "(- word_of_nat v :: i64) = word_of_int (- int v)"
    by (simp add: of_int_of_nat_eq)
  moreover have "sint (word_of_int (- int v) :: i64) = - int v"
    using \<open>LLONG_MIN \<le> - int v\<close> by (intro sint_of_int_i64) simp_all
  ultimately show ?thesis by simp
qed

lemma string2ll_digits_Some:
  assumes "string2ll_digits neg ds = Some x"
  shows "ds \<noteq> [] \<and> list_all is_digit ds \<and> hd ds \<noteq> CHR ''0'' \<and> 0 < digits_value 0 ds \<and>
         (if neg then digits_value 0 ds \<le> 2 ^ 63 \<and> x = - word_of_nat (digits_value 0 ds)
          else digits_value 0 ds \<le> 2 ^ 63 - 1 \<and> x = word_of_nat (digits_value 0 ds))"
proof -
  obtain d rest where ds: "ds = d # rest"
    using assms by (cases ds) (simp_all add: string2ll_digits_def)
  with assms have d: "is_digit d" "d \<noteq> CHR ''0''" "list_all is_digit rest"
    by (simp_all add: string2ll_digits_def split: if_splits)
  then have "0 < digits_value 0 (d # rest)" by (intro digits_value_pos)
  with ds have "0 < digits_value 0 ds" by simp
  with assms ds d show ?thesis
    by (auto simp: string2ll_digits_def Let_def split: if_splits)
qed

theorem ll2string_string2ll:
  assumes "string2ll s = Some x"
  shows "ll2string x = s"
proof (cases "s = ''0''")
  case True
  with assms show ?thesis by (simp add: string2ll_def ll2string_def digit_char_simps)
next
  case False
  with assms obtain c ds where s: "s = c # ds"
    by (cases s) (simp_all add: string2ll_def)
  show ?thesis
  proof (cases "c = CHR ''-''")
    case True
    with assms False s have "string2ll_digits True ds = Some x"
      by (simp add: string2ll_def split: if_splits)
    then have h: "ds \<noteq> [] \<and> list_all is_digit ds \<and> hd ds \<noteq> CHR ''0''"
      and v: "0 < digits_value 0 ds" "digits_value 0 ds \<le> 2 ^ 63"
      and x: "x = - word_of_nat (digits_value 0 ds)"
      by (auto dest: string2ll_digits_Some)
    from v x have "sint x = - int (digits_value 0 ds)"
      by (simp add: sint_neg_word_of_nat_i64)
    with v h True s show ?thesis
      by (simp add: ll2string_def nat_digits_digits_value)
  next
    case nm: False
    with assms False s have "string2ll_digits False s = Some x"
      by (simp add: string2ll_def split: if_splits)
    then have h: "s \<noteq> [] \<and> list_all is_digit s \<and> hd s \<noteq> CHR ''0''"
      and v: "0 < digits_value 0 s" "digits_value 0 s \<le> 2 ^ 63 - 1"
      and x: "x = word_of_nat (digits_value 0 s)"
      by (auto dest: string2ll_digits_Some)
    from v x have "sint x = int (digits_value 0 s)"
      by (simp add: sint_word_of_nat_i64)
    with h show ?thesis
      by (simp add: ll2string_def nat_digits_digits_value)
  qed
qed

subsection \<open>The largest value\<close>

lemma max_i64_eq: "sint (x :: i64) = LLONG_MAX \<Longrightarrow> x = word_of_int LLONG_MAX"
proof -
  assume a: "sint x = LLONG_MAX"
  have "x = word_of_int (sint x)" by (simp only: of_int_sint scast_id)
  then show ?thesis by (simp only: a)
qed

lemma ll2string_max: "ll2string (9223372036854775807 :: i64) = ''9223372036854775807''"
  by (simp add: ll2string_def nat_digits.simps digit_char_simps)


end
