(* ===== verification/RadixClient.thy ===== *)
theory RadixClient
  imports RedisServer
begin

text \<open>
  The client library the repository calls (github.com/mediocregopher/radix,
  version 3) and the Go runtime facts it rests on, modelled from their
  documented behaviour since none of it is in the repository:
  \<^item> \<open>radix.NewPool\<close> dials one connection synchronously and fails with the
    dial error; Go's \<open>net.Dial\<close> on \<open>tcp\<close> rejects an address without a port
    (\<open>go_dial\<close>);
  \<^item> \<open>radix.NewCluster\<close> dials the seed addresses in order and keeps the
    first that answers.  If none answers it returns the last dial error.
    With no address at all, its first \<open>Sync\<close> fails with "no pools
    available".  A node that answers but does not run in cluster mode
    refuses \<open>CLUSTER SLOTS\<close>;
  \<^item> \<open>Pool.Do(radix.Cmd(&rcv, ...))\<close> sends one command, the server executes it
    atomically, and the reply is decoded into the receiver's Go type
    (\<open>decode_str\<close> for a \<open>string\<close> receiver, \<open>decode_int\<close> for an \<open>int\<close>),
    an error reply becoming the returned \<open>error\<close>.
  The world the client acts on is the server's keyspace, the endpoints that
  accept connections, and the trace of what a run has observably done
  (commands sent, timer events, log lines), in order.
\<close>

datatype client_err = RespErr string | DecodeErr string | DialErr string

text \<open>Observable events of a run, in the order they happen.\<close>

datatype event = Sent cmd | TimerReset | TimerStop | Logged string

record world =
  w_db :: db
  w_up :: "string list"
  w_cluster :: bool
  w_trace :: "event list"

record pool =
  pool_network :: string
  pool_addr :: string
  pool_size :: int

record cluster =
  cluster_addrs :: "string list"

text \<open>Go's \<open>%v\<close> of an error value: its message.\<close>

fun err_text :: "client_err \<Rightarrow> string" where
  "err_text (RespErr e) = e"
| "err_text (DecodeErr e) = e"
| "err_text (DialErr e) = e"

subsection \<open>Dialling and constructors\<close>

text \<open>
  \<open>net.Dial\<close>: a \<open>tcp\<close> address must be \<open>host:port\<close> (\<open>net.SplitHostPort\<close>
  fails on a string with no colon); a \<open>unix\<close> address is a socket path; any
  other network name is rejected.  Which endpoints accept is \<open>w_up\<close>.
\<close>

definition go_dial :: "string \<Rightarrow> string \<Rightarrow> string list \<Rightarrow> client_err option" where
  "go_dial network addr up =
     (if network = ''tcp'' then
        (if CHR '':'' \<notin> set addr
         then Some (DialErr (''dial tcp: address '' @ addr @ '': missing port in address''))
         else if addr \<in> set up then None
         else Some (DialErr (''dial tcp '' @ addr @ '': connect: connection refused'')))
      else if network = ''unix'' then
        (if addr \<in> set up then None
         else Some (DialErr (''dial unix '' @ addr @ '': connect: no such file or directory'')))
      else Some (DialErr (''dial '' @ network @ '': unknown network '' @ network)))"

definition NewPool :: "string \<Rightarrow> string \<Rightarrow> int \<Rightarrow> world \<Rightarrow> client_err + pool" where
  "NewPool network addr psize w =
     (case go_dial network addr (w_up w) of
        Some e \<Rightarrow> Inl e
      | None \<Rightarrow> Inr \<lparr>pool_network = network, pool_addr = addr, pool_size = psize\<rparr>)"

definition NewCluster :: "string list \<Rightarrow> world \<Rightarrow> client_err + cluster" where
  "NewCluster addrs w =
     (if addrs = [] then Inl (DialErr ''no pools available'')
      else if list_all (\<lambda>a. go_dial ''tcp'' a (w_up w) \<noteq> None) addrs then
        (case go_dial ''tcp'' (last addrs) (w_up w) of
           Some e \<Rightarrow> Inl e
         | None \<Rightarrow> Inl (DialErr ''no pools available''))
      else if w_cluster w then Inr \<lparr>cluster_addrs = addrs\<rparr>
      else Inl (RespErr ''ERR This instance has cluster support disabled''))"

subsection \<open>Sending a command and decoding the reply\<close>

text \<open>
  \<open>strconv.ParseInt(s, 10, 64)\<close>, used to decode a bulk string into an
  \<open>int\<close> receiver: an optional sign, at least one digit, leading zeros
  allowed, the value in range.
\<close>

definition go_parse_int :: "string \<Rightarrow> i64 option" where
  "go_parse_int s =
     (let (neg, ds) = (case s of
                         [] \<Rightarrow> (False, [])
                       | c # r \<Rightarrow> if c = CHR ''-'' then (True, r)
                                  else if c = CHR ''+'' then (False, r) else (False, s))
      in if ds = [] \<or> \<not> list_all is_digit ds then None
         else (let v = digits_value 0 ds in
               if neg then (if 2 ^ 63 < v then None else Some (- word_of_nat v))
               else if 2 ^ 63 - 1 < v then None else Some (word_of_nat v)))"

definition decode_str :: "reply \<Rightarrow> client_err + string" where
  "decode_str r =
     (case r of
        Bulk s \<Rightarrow> Inr s
      | NilReply \<Rightarrow> Inr []
      | IntReply n \<Rightarrow> Inr (ll2string n)
      | ErrReply e \<Rightarrow> Inl (RespErr e))"

definition decode_int :: "reply \<Rightarrow> client_err + i64" where
  "decode_int r =
     (case r of
        Bulk s \<Rightarrow>
          (case go_parse_int s of
             None \<Rightarrow> Inl (DecodeErr (''strconv.ParseInt: parsing '' @ s @ '': invalid syntax''))
           | Some n \<Rightarrow> Inr n)
      | NilReply \<Rightarrow> Inr 0
      | IntReply n \<Rightarrow> Inr n
      | ErrReply e \<Rightarrow> Inl (RespErr e))"

text \<open>
  \<open>Pool.Do\<close>: the command reaches the server, which executes it atomically;
  the send is recorded in the trace.  Run by one goroutine at a time, the
  connection the pool lends does not matter; the concurrent case is
  modelled in ParallelRun.
\<close>

definition send_cmd :: "cmd \<Rightarrow> world \<Rightarrow> reply \<times> world" where
  "send_cmd c w =
     (let (r, db') = exec_cmd c (w_db w)
      in (r, w\<lparr>w_db := db', w_trace := w_trace w @ [Sent c]\<rparr>))"

definition do_str :: "pool \<Rightarrow> cmd \<Rightarrow> world \<Rightarrow> (client_err + string) \<times> world" where
  "do_str conn c w = (let (r, w') = send_cmd c w in (decode_str r, w'))"

definition do_int :: "pool \<Rightarrow> cmd \<Rightarrow> world \<Rightarrow> (client_err + i64) \<times> world" where
  "do_int conn c w = (let (r, w') = send_cmd c w in (decode_int r, w'))"

subsection \<open>Facts on sending\<close>

lemma send_cmd_simps [client_simps]:
  "send_cmd c w = (fst (exec_cmd c (w_db w)),
                   w\<lparr>w_db := snd (exec_cmd c (w_db w)), w_trace := w_trace w @ [Sent c]\<rparr>)"
  by (simp add: send_cmd_def split: prod.splits)

lemma do_str_simps [client_simps]:
  "do_str conn c w = (decode_str (fst (exec_cmd c (w_db w))),
                      w\<lparr>w_db := snd (exec_cmd c (w_db w)), w_trace := w_trace w @ [Sent c]\<rparr>)"
  by (simp add: do_str_def send_cmd_simps)

lemma do_int_simps [client_simps]:
  "do_int conn c w = (decode_int (fst (exec_cmd c (w_db w))),
                      w\<lparr>w_db := snd (exec_cmd c (w_db w)), w_trace := w_trace w @ [Sent c]\<rparr>)"
  by (simp add: do_int_def send_cmd_simps)

end
