(* ===== verification/Connection.thy ===== *)
theory Connection
  imports RadixClient
begin

text \<open>
  The connection provider of src/common/redisHelper.go and the entry point of
  src/main.go.  \<open>ConnectToSingleNode\<close> and \<open>ConnectToCluster\<close> call the
  library constructor and wrap its error in a message of their own; a Go
  \<open>error\<close> is its message string, on the left of the sum.  \<open>main\<close> returns
  what it prints.  The lemmas give both constructors on each branch and show
  that \<open>main\<close>, which dials the address \<open>127.0.0.1\<close> without a port, fails
  in every environment.
\<close>

definition ConnectToCluster :: "string list \<Rightarrow> world \<Rightarrow> string + cluster" where
  "ConnectToCluster clusterAddrs w =
     (case NewCluster clusterAddrs w of
        Inl err \<Rightarrow> Inl (''Unable to connect to the cluster. More info: '' @ err_text err)
      | Inr cluster \<Rightarrow> Inr cluster)"

definition ConnectToSingleNode :: "string \<Rightarrow> string \<Rightarrow> int \<Rightarrow> world \<Rightarrow> string + pool" where
  "ConnectToSingleNode transport address poolSize w =
     (case NewPool transport address poolSize w of
        Inl err \<Rightarrow> Inl (''Unable to connect to the node. More info: '' @ err_text err)
      | Inr conn \<Rightarrow> Inr conn)"

text \<open>\<open>main\<close>: what the process prints on standard output.\<close>

definition main_go :: "world \<Rightarrow> string" where
  "main_go w =
     (case ConnectToSingleNode ''tcp'' ''127.0.0.1'' 1 w of
        Inl err \<Rightarrow> ''Error: '' @ err
      | Inr _ \<Rightarrow> [])"

subsection \<open>Behaviour of the constructors\<close>

lemma ConnectToSingleNode_tcp_up [client_simps]:
  assumes "CHR '':'' \<in> set address" and "address \<in> set (w_up w)"
  shows "ConnectToSingleNode ''tcp'' address poolSize w =
           Inr \<lparr>pool_network = ''tcp'', pool_addr = address, pool_size = poolSize\<rparr>"
  using assms by (simp add: ConnectToSingleNode_def NewPool_def go_dial_def)

lemma ConnectToSingleNode_cases:
  "ConnectToSingleNode transport address poolSize w =
     (case go_dial transport address (w_up w) of
        Some e \<Rightarrow> Inl (''Unable to connect to the node. More info: '' @ err_text e)
      | None \<Rightarrow> Inr \<lparr>pool_network = transport, pool_addr = address, pool_size = poolSize\<rparr>)"
  by (simp add: ConnectToSingleNode_def NewPool_def split: option.splits)

text \<open>
  C18: the process entry point never connects: it passes \<open>127.0.0.1\<close>, an
  address with no port, so Go's dialler rejects it before any network
  access, and \<open>main\<close> prints the wrapped error whatever the environment.
\<close>

theorem main_always_fails:
  "main_go w =
     ''Error: Unable to connect to the node. More info: dial tcp: address 127.0.0.1: missing port in address''"
  by (simp add: main_go_def ConnectToSingleNode_cases go_dial_def)

text \<open>
  C19: \<open>ConnectToSingleNode\<close> over TCP, on every branch: an address with no
  port is refused before any network access, an address no server listens
  on is refused by the dial, and otherwise the pool is returned.  Each
  error is the dialler's message behind the function's own prefix.
\<close>

theorem ConnectToSingleNode_tcp:
  "ConnectToSingleNode ''tcp'' address poolSize w =
     (if CHR '':'' \<notin> set address then
        Inl (''Unable to connect to the node. More info: dial tcp: address '' @ address @ '': missing port in address'')
      else if address \<notin> set (w_up w) then
        Inl (''Unable to connect to the node. More info: dial tcp '' @ address @ '': connect: connection refused'')
      else Inr \<lparr>pool_network = ''tcp'', pool_addr = address, pool_size = poolSize\<rparr>)"
  by (simp add: ConnectToSingleNode_cases go_dial_def)

text \<open>
  C20: \<open>ConnectToCluster\<close> on every input.  With the empty address list it
  fails with radix's "no pools available".  When no seed address answers,
  it fails with the dial error of the last one.  When the node that
  answers does not run in cluster mode, it fails with the server's refusal.
  Otherwise it returns the cluster client over all the given addresses.
  Each error carries the function's prefix.
\<close>

theorem ConnectToCluster_result:
  "ConnectToCluster clusterAddrs w =
     (if clusterAddrs = [] then
        Inl ''Unable to connect to the cluster. More info: no pools available''
      else if \<forall>a \<in> set clusterAddrs. CHR '':'' \<notin> set a \<or> a \<notin> set (w_up w) then
        Inl (''Unable to connect to the cluster. More info: '' @
             (if CHR '':'' \<notin> set (last clusterAddrs)
              then ''dial tcp: address '' @ last clusterAddrs @ '': missing port in address''
              else ''dial tcp '' @ last clusterAddrs @ '': connect: connection refused''))
      else if w_cluster w then Inr \<lparr>cluster_addrs = clusterAddrs\<rparr>
      else Inl ''Unable to connect to the cluster. More info: ERR This instance has cluster support disabled'')"
proof -
  have "list_all (\<lambda>a. go_dial ''tcp'' a (w_up w) \<noteq> None) clusterAddrs \<longleftrightarrow>
        (\<forall>a \<in> set clusterAddrs. CHR '':'' \<notin> set a \<or> a \<notin> set (w_up w))"
    by (auto simp: list_all_iff go_dial_def)
  moreover have "clusterAddrs \<noteq> [] \<Longrightarrow> last clusterAddrs \<in> set clusterAddrs" by simp
  ultimately show ?thesis
    by (auto simp: ConnectToCluster_def NewCluster_def go_dial_def)
qed

theorem ConnectToCluster_result_witness:
  "ConnectToCluster [] \<lparr>w_db = Map.empty, w_up = [''127.0.0.1:7000''], w_cluster = True, w_trace = []\<rparr> =
     Inl ''Unable to connect to the cluster. More info: no pools available'' \<and>
   ConnectToCluster [''127.0.0.1:7000'', ''127.0.0.1''] \<lparr>w_db = Map.empty, w_up = [''127.0.0.1:7001''], w_cluster = True, w_trace = []\<rparr> =
     Inl ''Unable to connect to the cluster. More info: dial tcp: address 127.0.0.1: missing port in address'' \<and>
   ConnectToCluster [''127.0.0.1'', ''127.0.0.1:7000''] \<lparr>w_db = Map.empty, w_up = [''127.0.0.1:7000''], w_cluster = True, w_trace = []\<rparr> =
     Inr \<lparr>cluster_addrs = [''127.0.0.1'', ''127.0.0.1:7000'']\<rparr> \<and>
   ConnectToCluster [''127.0.0.1:7000''] \<lparr>w_db = Map.empty, w_up = [''127.0.0.1:7000''], w_cluster = False, w_trace = []\<rparr> =
     Inl ''Unable to connect to the cluster. More info: ERR This instance has cluster support disabled''"
  using ConnectToCluster_result [of "[]" "\<lparr>w_db = Map.empty, w_up = [''127.0.0.1:7000''], w_cluster = True, w_trace = []\<rparr>"]
    ConnectToCluster_result [of "[''127.0.0.1:7000'', ''127.0.0.1'']" "\<lparr>w_db = Map.empty, w_up = [''127.0.0.1:7001''], w_cluster = True, w_trace = []\<rparr>"]
    ConnectToCluster_result [of "[''127.0.0.1'', ''127.0.0.1:7000'']" "\<lparr>w_db = Map.empty, w_up = [''127.0.0.1:7000''], w_cluster = True, w_trace = []\<rparr>"]
    ConnectToCluster_result [of "[''127.0.0.1:7000'']" "\<lparr>w_db = Map.empty, w_up = [''127.0.0.1:7000''], w_cluster = False, w_trace = []\<rparr>"]
  by simp

end
