(* ===== verification/TestHelpers.thy ===== *)
theory TestHelpers
  imports RadixClient
begin

text \<open>
  The helpers of src/main_test.go that read and delete the benchmark's keys
  (\<open>GetKey\<close>, \<open>RemoveKey\<close>, \<open>GetHKey\<close>, \<open>RemoveHKey\<close>) and the name of
  the key a benchmark uses.  A Go \<open>panic\<close> and a \<open>b.Fatalf\<close> both end the
  function; they are the two values of \<open>stop\<close>, on the left of the sum, and
  the world is returned as it is when they happen.  The key name is built
  with Go's \<open>string(rand.Int31())\<close>, which converts the integer to a rune and
  encodes it in UTF-8 (\<open>go_rune_string\<close>, modelled from the Go language
  specification): every value that is not a valid code point becomes the
  replacement character U+FFFD.
\<close>

datatype stop = Panic string | Fatal string

subsection \<open>Key helpers\<close>

definition GetKey :: "pool \<Rightarrow> key \<Rightarrow> world \<Rightarrow> (stop + string) \<times> world" where
  "GetKey conn key w =
     (case do_str conn (GET key) w of
        (Inl _, w') \<Rightarrow>
          (Inl (Panic (''Could not fetch the value for key: '' @ key @ '' from redis'')), w')
      | (Inr val, w') \<Rightarrow> (Inr val, w'))"

definition RemoveKey :: "pool \<Rightarrow> key \<Rightarrow> world \<Rightarrow> (stop + string) \<times> world" where
  "RemoveKey conn key w =
     (case do_str conn (DEL key) w of
        (Inl _, w') \<Rightarrow> (Inl (Panic (''Could not delete the key: '' @ key @ '' from redis'')), w')
      | (Inr val, w') \<Rightarrow> (Inr val, w'))"

definition GetHKey :: "pool \<Rightarrow> string \<Rightarrow> string \<Rightarrow> world \<Rightarrow> (stop + string) \<times> world" where
  "GetHKey conn hashID keyInHash w =
     (case do_str conn (HGET hashID keyInHash) w of
        (Inl _, w') \<Rightarrow>
          (Inl (Panic (''Could not fetch the value for hash: '' @ hashID @ '' and key: '' @
                       keyInHash @ '' from redis'')), w')
      | (Inr val, w') \<Rightarrow> (Inr val, w'))"

definition RemoveHKey :: "pool \<Rightarrow> string \<Rightarrow> string \<Rightarrow> world \<Rightarrow> (stop + string) \<times> world" where
  "RemoveHKey conn hashID keyInHash w =
     (case do_str conn (HDEL hashID keyInHash) w of
        (Inl _, w') \<Rightarrow>
          (Inl (Panic (''Could not fetch the value for hash: '' @ hashID @ '' and key: '' @
                       keyInHash @ '' from redis'')), w')
      | (Inr val, w') \<Rightarrow> (Inr val, w'))"

subsection \<open>Benchmark key names\<close>

text \<open>UTF-8 encoding of a valid code point (Go's \<open>utf8.EncodeRune\<close>).\<close>

definition utf8_encode :: "nat \<Rightarrow> string" where
  "utf8_encode c =
     (if c < 128 then [char_of c]
      else if c < 2048 then [char_of (192 + c div 64), char_of (128 + c mod 64)]
      else if c < 65536 then
        [char_of (224 + c div 4096), char_of (128 + c div 64 mod 64), char_of (128 + c mod 64)]
      else [char_of (240 + c div 262144), char_of (128 + c div 4096 mod 64),
            char_of (128 + c div 64 mod 64), char_of (128 + c mod 64)])"

text \<open>
  \<open>string(r)\<close> for an \<open>int32\<close> value \<open>r\<close>: the UTF-8 encoding of \<open>r\<close> if it is a
  valid code point, otherwise of U+FFFD (bytes EF BF BD).
\<close>

definition go_rune_string :: "32 word \<Rightarrow> string" where
  "go_rune_string r =
     (if sint r < 0 \<or> 1114111 < sint r \<or> (55296 \<le> sint r \<and> sint r \<le> 57343)
      then [char_of (239::nat), char_of (191::nat), char_of (189::nat)]
      else utf8_encode (nat (sint r)))"

text \<open>\<open>userID := "manjinder" + string(rand.Int31()); key := userID + "_complaints"\<close>\<close>

definition bench_user_key :: "32 word \<Rightarrow> key" where
  "bench_user_key r = (''manjinder'' @ go_rune_string r) @ ''_complaints''"

subsection \<open>Decoding the key suffix\<close>

text \<open>
  Go's \<open>utf8.DecodeRuneInString\<close> on well-formed input: the lead byte gives
  the number of continuation bytes, each of which contributes six bits.
  The overlong and surrogate checks of the Go decoder are not modelled;
  they never reject an encoding of a valid code point.
\<close>

fun utf8_conts :: "nat \<Rightarrow> nat \<Rightarrow> string \<Rightarrow> (nat \<times> string) option" where
  "utf8_conts acc 0 cs = Some (acc, cs)"
| "utf8_conts acc (Suc n) [] = None"
| "utf8_conts acc (Suc n) (c # cs) =
     (let x = (of_char c :: nat) in
      if 128 \<le> x \<and> x < 192 then utf8_conts (acc * 64 + (x - 128)) n cs else None)"

fun utf8_decode :: "string \<Rightarrow> (nat \<times> string) option" where
  "utf8_decode [] = None"
| "utf8_decode (c # cs) =
     (let b = (of_char c :: nat) in
      if b < 128 then Some (b, cs)
      else if 192 \<le> b \<and> b < 224 then utf8_conts (b - 192) 1 cs
      else if 224 \<le> b \<and> b < 240 then utf8_conts (b - 224) 2 cs
      else if 240 \<le> b \<and> b < 248 then utf8_conts (b - 240) 3 cs
      else None)"

text \<open>A valid code point: what \<open>string(int32)\<close> encodes as itself.\<close>

definition valid_rune :: "32 word \<Rightarrow> bool" where
  "valid_rune r \<longleftrightarrow> \<not> (sint r < 0 \<or> 1114111 < sint r \<or> (55296 \<le> sint r \<and> sint r \<le> 57343))"

subsection \<open>Behaviour of the helpers\<close>

lemma GetKey_eq [client_simps]:
  "GetKey conn key w =
     (case w_db w key of
        Some (RHash _) \<Rightarrow> Inl (Panic (''Could not fetch the value for key: '' @ key @ '' from redis''))
      | Some (RString s) \<Rightarrow> Inr s
      | None \<Rightarrow> Inr [],
      w\<lparr>w_trace := w_trace w @ [Sent (GET key)]\<rparr>)"
  by (simp add: GetKey_def do_str_simps decode_str_def split: option.splits rvalue.splits)

lemma RemoveKey_eq [client_simps]:
  "RemoveKey conn key w =
     (Inr (if w_db w key = None then ''0'' else ''1''),
      w\<lparr>w_db := (w_db w)(key := None), w_trace := w_trace w @ [Sent (DEL key)]\<rparr>)"
  by (cases "w_db w key")
    (simp_all add: RemoveKey_def do_str_simps decode_str_def ll2string_def digit_char_simps fun_upd_idem)

text \<open>
  C21: deleting an absent key does not fail the run: \<open>RemoveKey\<close> sends DEL,
  returns \<open>"0"\<close> (the integer reply decoded into a Go string) and leaves the
  keyspace as it was.
\<close>

theorem RemoveKey_absent:
  assumes "w_db w key = None"
  shows "RemoveKey conn key w = (Inr ''0'', w\<lparr>w_trace := w_trace w @ [Sent (DEL key)]\<rparr>)"
  using assms by (simp add: RemoveKey_eq fun_upd_idem)

theorem RemoveKey_absent_witness:
  "w_db \<lparr>w_db = Map.empty, w_up = [''127.0.0.1:6379''], w_cluster = False, w_trace = []\<rparr> ''manjinder_complaints'' = None \<and>
   RemoveKey \<lparr>pool_network = ''tcp'', pool_addr = ''127.0.0.1:6379'', pool_size = 10\<rparr> ''manjinder_complaints'' \<lparr>w_db = Map.empty, w_up = [''127.0.0.1:6379''], w_cluster = False, w_trace = []\<rparr> =
     (Inr ''0'', \<lparr>w_db = Map.empty, w_up = [''127.0.0.1:6379''], w_cluster = False, w_trace = []\<rparr>\<lparr>w_trace := [Sent (DEL ''manjinder_complaints'')]\<rparr>)"
  using RemoveKey_absent [where w = "\<lparr>w_db = Map.empty, w_up = [''127.0.0.1:6379''], w_cluster = False, w_trace = []\<rparr>" and key = "''manjinder_complaints''" and conn = "\<lparr>pool_network = ''tcp'', pool_addr = ''127.0.0.1:6379'', pool_size = 10\<rparr>"]
  by simp

text \<open>
  C22: the "random" suffix of the benchmark key is no suffix at all for most
  values: every \<open>rand.Int31()\<close> result above the last code point U+10FFFF,
  that is all but about 0.05\<open>%\<close> of them, yields the same key, the one
  that ends in the UTF-8 bytes EF BF BD of U+FFFD.
\<close>

theorem bench_key_collision:
  assumes "1114111 < sint r"
  shows "bench_user_key r =
           ''manjinder'' @ [char_of (239::nat), char_of (191::nat), char_of (189::nat)] @ ''_complaints''"
  using assms by (simp add: bench_user_key_def go_rune_string_def)

theorem bench_key_collision_witness:
  "1114111 < sint (1298498081 :: 32 word) \<and> 1114111 < sint (2019727887 :: 32 word) \<and>
   bench_user_key 1298498081 = bench_user_key 2019727887"
  using bench_key_collision [of 1298498081] bench_key_collision [of 2019727887]
  by simp

text \<open>
  C25: when HDEL fails, \<open>RemoveHKey\<close> panics with the same message as
  \<open>GetHKey\<close>, "Could not fetch the value for hash", so a failed delete is
  reported as a failed read.
\<close>

theorem RemoveHKey_reports_fetch:
  assumes "w_db w hashID = Some (RString s)"
  shows "fst (RemoveHKey conn hashID keyInHash w) = fst (GetHKey conn hashID keyInHash w) \<and>
         fst (GetHKey conn hashID keyInHash w) =
           Inl (Panic (''Could not fetch the value for hash: '' @ hashID @ '' and key: '' @ keyInHash @ '' from redis''))"
  using assms by (simp add: RemoveHKey_def GetHKey_def do_str_simps decode_str_def)

theorem RemoveHKey_reports_fetch_witness:
  "w_db \<lparr>w_db = [''manjinder'' \<mapsto> RString ''7''], w_up = [''127.0.0.1:6379''], w_cluster = False, w_trace = []\<rparr> ''manjinder'' = Some (RString ''7'') \<and>
   fst (RemoveHKey \<lparr>pool_network = ''tcp'', pool_addr = ''127.0.0.1:6379'', pool_size = 10\<rparr> ''manjinder'' ''complaints''
          \<lparr>w_db = [''manjinder'' \<mapsto> RString ''7''], w_up = [''127.0.0.1:6379''], w_cluster = False, w_trace = []\<rparr>) =
     Inl (Panic ''Could not fetch the value for hash: manjinder and key: complaints from redis'')"
  using RemoveHKey_reports_fetch [where w = "\<lparr>w_db = [''manjinder'' \<mapsto> RString ''7''], w_up = [''127.0.0.1:6379''], w_cluster = False, w_trace = []\<rparr>"
      and hashID = "''manjinder''" and keyInHash = "''complaints''" and s = "''7''"
      and conn = "\<lparr>pool_network = ''tcp'', pool_addr = ''127.0.0.1:6379'', pool_size = 10\<rparr>"]
  by simp

subsection \<open>Round trip of the key suffix\<close>

lemma of_char_cont: "of_char (char_of (128 + n mod 64 :: nat)) = 128 + n mod 64"
proof -
  have "128 + n mod 64 < 256" by simp
  then show ?thesis by (simp add: of_char_of)
qed

lemma of_char_small: "(n::nat) < 256 \<Longrightarrow> of_char (char_of n :: char) = n"
  by (simp add: of_char_of)

lemma utf8_conts_cont:
  "utf8_conts acc (Suc n) (char_of (128 + x mod 64 :: nat) # cs) = utf8_conts (acc * 64 + x mod 64) n cs"
  by (simp add: of_char_cont)

lemma base64_digits_2: "(c::nat) = 4096 * (c div 4096) + 64 * (c div 64 mod 64) + c mod 64"
proof -
  have a: "c = 64 * (c div 64) + c mod 64" by simp
  have b: "c div 64 = 64 * (c div 64 div 64) + c div 64 mod 64" by simp
  have d: "c div 64 div 64 = c div 4096" by (simp add: div_mult2_eq [symmetric])
  from a b d show ?thesis by linarith
qed

lemma base64_digits_3:
  "(c::nat) = 262144 * (c div 262144) + 4096 * (c div 4096 mod 64) + 64 * (c div 64 mod 64) + c mod 64"
proof -
  have a: "c = 4096 * (c div 4096) + 64 * (c div 64 mod 64) + c mod 64" by (rule base64_digits_2)
  have b: "c div 4096 = 64 * (c div 4096 div 64) + c div 4096 mod 64" by simp
  have d: "c div 4096 div 64 = c div 262144" by (simp add: div_mult2_eq [symmetric])
  from a b d show ?thesis by linarith
qed

lemma utf8_roundtrip_1: "c < 128 \<Longrightarrow> utf8_decode (utf8_encode c @ rest) = Some (c, rest)"
  by (simp add: utf8_encode_def of_char_of)

lemma utf8_roundtrip_2: "128 \<le> c \<Longrightarrow> c < 2048 \<Longrightarrow> utf8_decode (utf8_encode c @ rest) = Some (c, rest)"
proof -
  assume a: "128 \<le> c" "c < 2048"
  then have "2 \<le> c div 64" "c div 64 < 32" by auto
  with a show ?thesis by (simp add: utf8_encode_def Let_def of_char_small of_char_cont)
qed

lemma utf8_roundtrip_3: "2048 \<le> c \<Longrightarrow> c < 65536 \<Longrightarrow> utf8_decode (utf8_encode c @ rest) = Some (c, rest)"
proof -
  assume a: "2048 \<le> c" "c < 65536"
  then have d: "c div 4096 < 16" by auto
  have "(c div 4096 * 64 + c div 64 mod 64) * 64 + c mod 64 = c"
    using base64_digits_2 [of c] by simp
  with a d show ?thesis
    by (simp add: utf8_encode_def Let_def of_char_small utf8_conts_cont numeral_2_eq_2 numeral_3_eq_3)
qed

lemma utf8_roundtrip_4: "65536 \<le> c \<Longrightarrow> c < 2097152 \<Longrightarrow> utf8_decode (utf8_encode c @ rest) = Some (c, rest)"
proof -
  assume a: "65536 \<le> c" "c < 2097152"
  then have d: "c div 262144 < 8" by auto
  have "((c div 262144 * 64 + c div 4096 mod 64) * 64 + c div 64 mod 64) * 64 + c mod 64 = c"
    using base64_digits_3 [of c] by simp
  with a d show ?thesis
    by (simp add: utf8_encode_def Let_def of_char_small utf8_conts_cont numeral_2_eq_2 numeral_3_eq_3)
qed

lemma utf8_roundtrip: "c < 2097152 \<Longrightarrow> utf8_decode (utf8_encode c @ rest) = Some (c, rest)"
  using utf8_roundtrip_1 utf8_roundtrip_2 utf8_roundtrip_3 utf8_roundtrip_4 by (meson not_le)

lemma go_rune_string_valid: "valid_rune r \<Longrightarrow> go_rune_string r = utf8_encode (nat (sint r))"
  unfolding valid_rune_def go_rune_string_def by presburger

lemma bench_user_key_suffix: "drop 9 (bench_user_key r) = go_rune_string r @ ''_complaints''"
  by (simp add: bench_user_key_def)

lemma bench_key_suffix_decode:
  assumes "valid_rune r"
  shows "utf8_decode (drop 9 (bench_user_key r)) = Some (nat (sint r), ''_complaints'')"
proof -
  have "sint r \<le> 1114111" using assms unfolding valid_rune_def by linarith
  then have "nat (sint r) < 2097152" by linarith
  then show ?thesis
    using utf8_roundtrip by (simp add: bench_user_key_suffix go_rune_string_valid [OF assms])
qed

text \<open>
  C23: the suffix \<open>string(rand.Int31())\<close> of the benchmark key is a faithful
  encoding for every value that is a valid code point: decoding the key
  after its prefix \<open>"manjinder"\<close> as UTF-8 gives back the random value and
  leaves exactly \<open>"_complaints"\<close>.
\<close>

theorem bench_key_roundtrip:
  assumes "valid_rune r"
  shows "utf8_decode (drop 9 (bench_user_key r)) = Some (nat (sint r), ''_complaints'')"
  using assms by (rule bench_key_suffix_decode)

theorem bench_key_roundtrip_witness:
  "valid_rune 233 \<and> utf8_decode (drop 9 (bench_user_key 233)) = Some (233, ''_complaints'')"
proof -
  have v: "valid_rune 233" by (simp add: valid_rune_def)
  show ?thesis using bench_key_roundtrip [OF v] v by simp
qed

text \<open>
  C24: distinct random values that are valid code points give distinct
  benchmark keys; only the invalid ones collide (C22).
\<close>

theorem bench_key_distinct:
  assumes "valid_rune r1" and "valid_rune r2" and "r1 \<noteq> r2"
  shows "bench_user_key r1 \<noteq> bench_user_key r2"
proof
  assume "bench_user_key r1 = bench_user_key r2"
  then have "utf8_decode (drop 9 (bench_user_key r1)) = utf8_decode (drop 9 (bench_user_key r2))"
    by simp
  then have "nat (sint r1) = nat (sint r2)"
    using bench_key_suffix_decode [OF assms(1)] bench_key_suffix_decode [OF assms(2)] by simp
  moreover have "0 \<le> sint r1" "0 \<le> sint r2" using assms(1,2) by (simp_all add: valid_rune_def)
  ultimately have "sint r1 = sint r2" by simp
  then have "r1 = r2" by (metis scast_id of_int_sint)
  with assms(3) show False ..
qed

theorem bench_key_distinct_witness:
  "valid_rune 65 \<and> valid_rune 66 \<and> (65::32 word) \<noteq> 66 \<and> bench_user_key 65 \<noteq> bench_user_key 66"
proof -
  have v: "valid_rune 65" "valid_rune 66" by (simp_all add: valid_rune_def)
  show ?thesis using bench_key_distinct [OF v] v by simp
qed

end
