(* ===== verification/Counter.thy ===== *)
theory Counter
  imports RadixClient
begin

text \<open>
  The interface between the benchmarks and the server model: a command the
  benchmarks send in their timed loops is a counter (\<open>counter_cmd\<close>), with
  a view of the keyspace as a 64-bit value and the update one successful
  increment makes.  The serialized loop (SerialBench) and the parallel run
  (ParallelRun) are proved once over the interface; the lemmas of this
  theory discharge it for the three commands of src/main_test.go (INCR,
  \<open>INCRBY key "1"\<close>, \<open>HINCRBY hash field "1"\<close>), and show what HDEL leaves
  of the field the hash benchmarks use.
\<close>

text \<open>
  \<open>counter_cmd c view upd\<close>: on a keyspace whose counter reads \<open>v\<close> below
  \<open>LLONG_MAX\<close>, the command replies \<open>v + 1\<close> and stores it with \<open>upd\<close>;
  \<open>view\<close> reads back what \<open>upd\<close> stores; a later store overrides an
  earlier one.
\<close>

definition counter_cmd :: "cmd \<Rightarrow> (db \<Rightarrow> i64 option) \<Rightarrow> (i64 \<Rightarrow> db \<Rightarrow> db) \<Rightarrow> bool" where
  "counter_cmd c view upd \<longleftrightarrow>
     (\<forall>db v. view db = Some v \<longrightarrow> sint v < LLONG_MAX \<longrightarrow>
        exec_cmd c db = (IntReply (v + 1), upd (v + 1) db)) \<and>
     (\<forall>db x. view (upd x db) = Some x) \<and>
     (\<forall>db x y. upd x (upd y db) = upd x db)"

definition key_view :: "key \<Rightarrow> db \<Rightarrow> i64 option" where
  "key_view k db = (case db k of Some (RHash _) \<Rightarrow> None | v \<Rightarrow> get_ll v)"

definition key_upd :: "key \<Rightarrow> i64 \<Rightarrow> db \<Rightarrow> db" where
  "key_upd k x db = db(k \<mapsto> RString (ll2string x))"

definition hash_of :: "rvalue option \<Rightarrow> (string \<times> string) list" where
  "hash_of v = (case v of Some (RHash h) \<Rightarrow> h | _ \<Rightarrow> [])"

definition field_view :: "key \<Rightarrow> string \<Rightarrow> db \<Rightarrow> i64 option" where
  "field_view k f db =
     (case db k of
        Some (RString _) \<Rightarrow> None
      | v \<Rightarrow> (case map_of (hash_of v) f of None \<Rightarrow> Some 0 | Some s \<Rightarrow> string2ll s))"

definition field_upd :: "key \<Rightarrow> string \<Rightarrow> i64 \<Rightarrow> db \<Rightarrow> db" where
  "field_upd k f x db = db(k \<mapsto> RHash (AList.update f (ll2string x) (hash_of (db k))))"

text \<open>The field is absent from a hash that is not empty, or the key is absent.\<close>

definition field_clear :: "key \<Rightarrow> string \<Rightarrow> db \<Rightarrow> bool" where
  "field_clear k f db \<longleftrightarrow>
     (case db k of None \<Rightarrow> True | Some (RString _) \<Rightarrow> False | Some (RHash h) \<Rightarrow> h \<noteq> [] \<and> map_of h f = None)"

text \<open>
  \<open>sat_counter c view upd e\<close>: a counter that saturates.  On a keyspace whose
  counter reads \<open>LLONG_MAX\<close>, the command is refused with the error \<open>e\<close> and
  the keyspace is left as it was (\<open>incrDecrCommand\<close>/\<open>hincrbyCommand\<close>).
\<close>

definition sat_counter :: "cmd \<Rightarrow> (db \<Rightarrow> i64 option) \<Rightarrow> (i64 \<Rightarrow> db \<Rightarrow> db) \<Rightarrow> string \<Rightarrow> bool" where
  "sat_counter c view upd e \<longleftrightarrow>
     counter_cmd c view upd \<and>
     (\<forall>db v. view db = Some v \<longrightarrow> sint v = LLONG_MAX \<longrightarrow> exec_cmd c db = (ErrReply e, db))"

subsection \<open>The commands of the benchmarks are counters\<close>

lemma exec_INCRBY_one [redis_simps]: "exec_cmd (INCRBY k ''1'') db = incr_decr k 1 db"
  by (simp add: string2ll_def string2ll_digits_def is_digit_def digit_val_def)

lemma exec_INCR_one: "exec_cmd (INCR k) db = incr_decr k 1 db"
  by simp

lemma counter_cmd_step:
  assumes "counter_cmd c view upd" and "view db = Some v" and "sint v < LLONG_MAX"
  shows "exec_cmd c db = (IntReply (v + 1), upd (v + 1) db)"
  using assms by (simp add: counter_cmd_def)

lemma counter_cmd_key:
  assumes "\<And>db. exec_cmd c db = incr_decr k 1 db"
  shows "counter_cmd c (key_view k) (key_upd k)"
proof -
  have "exec_cmd c db = (IntReply (v + 1), key_upd k (v + 1) db)"
    if "key_view k db = Some v" and "sint v < LLONG_MAX" for db v
  proof -
    have nh: "\<forall>h. db k \<noteq> Some (RHash h)" and g: "get_ll (db k) = Some v"
      using that(1) by (auto simp: key_view_def split: option.splits rvalue.splits)
    have "incr_decr k 1 db = (IntReply (v + 1), db(k \<mapsto> RString (ll2string (v + 1))))"
      using nh g by (rule incr_decr_ok) (use that(2) sint_i64_bounds(1) [of v] in simp_all)
    then show ?thesis by (simp add: assms key_upd_def)
  qed
  then show ?thesis
    by (simp add: counter_cmd_def key_view_def key_upd_def)
qed

lemma counter_cmd_INCR: "counter_cmd (INCR k) (key_view k) (key_upd k)"
  by (rule counter_cmd_key) simp

lemma counter_cmd_INCRBY: "counter_cmd (INCRBY k ''1'') (key_view k) (key_upd k)"
  by (rule counter_cmd_key) (rule exec_INCRBY_one)

lemma string2ll_one: "string2ll ''1'' = Some 1"
  by (simp add: string2ll_def string2ll_digits_def is_digit_def digit_val_def)

lemma counter_cmd_HINCRBY: "counter_cmd (HINCRBY k f ''1'') (field_view k f) (field_upd k f)"
proof -
  have "exec_cmd (HINCRBY k f ''1'') db = (IntReply (v + 1), field_upd k f (v + 1) db)"
    if "field_view k f db = Some v" and "sint v < LLONG_MAX" for db v
  proof -
    have ns: "\<forall>t. db k \<noteq> Some (RString t)"
      using that(1) by (auto simp: field_view_def)
    have fv: "(case map_of (hash_of (db k)) f of None \<Rightarrow> Some 0 | Some x \<Rightarrow> string2ll x) = Some v"
      using that(1) ns by (cases "db k") (auto simp: field_view_def split: rvalue.splits)
    have "hincrby k f ''1'' db =
            (IntReply (v + 1), db(k \<mapsto> RHash (AList.update f (ll2string (v + 1)) (hash_of (db k)))))"
      using string2ll_one ns _ fv
      by (rule hincrby_ok) (use that(2) sint_i64_bounds(1) [of v] in \<open>simp_all add: hash_of_def split: option.splits rvalue.splits\<close>)
    then show ?thesis by (simp add: field_upd_def)
  qed
  moreover have "field_view k f (field_upd k f x db) = Some x" for x db
    by (simp add: field_view_def field_upd_def hash_of_def update_conv' string2ll_ll2string)
  moreover have "field_upd k f x (field_upd k f y db) = field_upd k f x db" for x y db
    by (simp add: field_upd_def hash_of_def)
  ultimately show ?thesis by (simp add: counter_cmd_def)
qed

subsection \<open>HDEL clears the field\<close>

lemma hdel_field_clear:
  assumes wf: "db_wf db" and ns: "\<forall>s. db k \<noteq> Some (RString s)"
  shows "\<exists>n. fst (exec_cmd (HDEL k f) db) = IntReply n" and "field_clear k f (snd (exec_cmd (HDEL k f) db))"
proof -
  have "(\<exists>n. fst (exec_cmd (HDEL k f) db) = IntReply n) \<and> field_clear k f (snd (exec_cmd (HDEL k f) db))"
  proof (cases "db k")
    case None
    then show ?thesis by (simp add: field_clear_def)
  next
    case (Some v)
    with ns obtain h where h: "db k = Some (RHash h)" by (cases v) auto
    with wf have "h \<noteq> [] \<and> distinct (map fst h)" by (simp add: db_wf_def)
    with h show ?thesis
      by (auto simp: field_clear_def Let_def delete_conv' delete_id split: option.splits)
  qed
  then show "\<exists>n. fst (exec_cmd (HDEL k f) db) = IntReply n" and "field_clear k f (snd (exec_cmd (HDEL k f) db))"
    by blast+
qed

lemma field_clear_view: "field_clear k f db \<Longrightarrow> field_view k f db = Some 0"
  by (auto simp: field_clear_def field_view_def hash_of_def split: option.splits rvalue.splits)

lemma field_clear_absent:
  "field_clear k f db \<Longrightarrow> exec_cmd (HGET k f) db = (NilReply, db) \<and> exec_cmd (HDEL k f) db = (IntReply 0, db)"
  by (auto simp: field_clear_def split: option.splits rvalue.splits)

lemma field_clear_upd:
  assumes "field_clear k f db"
  shows "exec_cmd (HGET k f) (field_upd k f x db) = (Bulk (ll2string x), field_upd k f x db) \<and>
         exec_cmd (HDEL k f) (field_upd k f x db) = (IntReply 1, db)"
proof (cases "db k")
  case None
  with assms show ?thesis by (simp add: field_upd_def hash_of_def fun_upd_idem)
next
  case (Some v)
  with assms obtain h where h: "db k = Some (RHash h)" "h \<noteq> []" "map_of h f = None"
    by (cases v) (auto simp: field_clear_def)
  then have "AList.delete f (AList.update f (ll2string x) h) = h"
    by (simp add: delete_update_same delete_id map_of_eq_None_iff)
  with h show ?thesis by (simp add: field_upd_def hash_of_def update_conv' Let_def fun_upd_idem)
qed

subsection \<open>The counters saturate at LLONG_MAX\<close>

lemma sat_counter_max:
  "sat_counter c view upd e \<Longrightarrow> view db = Some v \<Longrightarrow> sint v = LLONG_MAX \<Longrightarrow> exec_cmd c db = (ErrReply e, db)"
  by (simp add: sat_counter_def)

lemma sat_counter_key:
  assumes "\<And>db. exec_cmd c db = incr_decr k 1 db"
  shows "sat_counter c (key_view k) (key_upd k) OVERFLOW_ERR"
proof -
  have "exec_cmd c db = (ErrReply OVERFLOW_ERR, db)"
    if "key_view k db = Some v" and "sint v = LLONG_MAX" for db v
  proof -
    have nh: "\<forall>h. db k \<noteq> Some (RHash h)" and g: "get_ll (db k) = Some v"
      using that(1) by (auto simp: key_view_def split: option.splits rvalue.splits)
    show ?thesis using incr_decr_overflow [where db = db and k = k, OF nh g that(2)] by (simp add: assms)
  qed
  with counter_cmd_key [OF assms] show ?thesis by (simp add: sat_counter_def)
qed

lemma sat_counter_INCR: "sat_counter (INCR k) (key_view k) (key_upd k) OVERFLOW_ERR"
  by (rule sat_counter_key) simp

lemma sat_counter_INCRBY: "sat_counter (INCRBY k ''1'') (key_view k) (key_upd k) OVERFLOW_ERR"
  by (rule sat_counter_key) (rule exec_INCRBY_one)

lemma sat_counter_HINCRBY: "sat_counter (HINCRBY k f ''1'') (field_view k f) (field_upd k f) OVERFLOW_ERR"
proof -
  have "exec_cmd (HINCRBY k f ''1'') db = (ErrReply OVERFLOW_ERR, db)"
    if "field_view k f db = Some v" and "sint v = LLONG_MAX" for db v
  proof -
    have ns: "\<forall>t. db k \<noteq> Some (RString t)"
      using that(1) by (auto simp: field_view_def)
    have fv: "(case map_of (hash_of (db k)) f of None \<Rightarrow> Some 0 | Some x \<Rightarrow> string2ll x) = Some v"
      using that(1) ns by (cases "db k") (auto simp: field_view_def split: rvalue.splits)
    have ov: "incr_overflows v 1" using that(2) by (simp add: incr_overflows_def)
    show ?thesis
      using ns fv ov string2ll_one
      by (cases "db k") (auto simp: hincrby_def hash_of_def split: rvalue.splits option.splits)
  qed
  with counter_cmd_HINCRBY show ?thesis by (simp add: sat_counter_def)
qed


end
