(* ===== verification/SerialBench.thy ===== *)
theory SerialBench
  imports Connection TestHelpers Counter
begin

text \<open>
  The three serialized benchmarks of src/main_test.go
  (\<open>BenchmarkINCRKeyInSerializedSystem\<close>, \<open>BenchmarkINCRBYKeyInSerializedSystem\<close>,
  \<open>BenchmarkINCRHashInSerializedSystem\<close>).  Each connects with a pool of 10,
  deletes its key, resets the timer, sends its increment \<open>b.N\<close> times in a
  loop, stops the timer, logs the value it reads back and deletes the key.
  \<open>b.N\<close> and the value \<open>rand.Int31()\<close> returns are parameters; the
  testing framework's \<open>b.ResetTimer\<close>, \<open>b.StopTimer\<close> and \<open>b.Logf\<close> are
  events of the trace (\<open>emit\<close>).  The lemmas compute a whole run: the log
  line, the final keyspace and the exact order of commands and timer events,
  for every \<open>b.N\<close> up to \<open>2^63 - 1\<close>, the range of a Go \<open>int\<close>.
\<close>

definition test_address :: "string list" where
  "test_address = [''127.0.0.1:6379'']"

definition test_transport :: string where
  "test_transport = ''tcp''"

text \<open>\<open>b.ResetTimer\<close>, \<open>b.StopTimer\<close>, \<open>b.Logf\<close>: an event of the run.\<close>

definition emit :: "event \<Rightarrow> world \<Rightarrow> world" where
  "emit e w = w\<lparr>w_trace := w_trace w @ [e]\<rparr>"

text \<open>
  The timed loop \<open>for i := 0; i < b.N; i++ { ... conn.Do(radix.Cmd(&counter, ...)) ... }\<close>,
  the same in all three serialized benchmarks but for the command; an error
  reply ends the benchmark through \<open>b.Fatalf\<close>.
\<close>

fun serial_loop :: "nat \<Rightarrow> pool \<Rightarrow> cmd \<Rightarrow> world \<Rightarrow> (stop + unit) \<times> world" where
  "serial_loop 0 conn c w = (Inr (), w)"
| "serial_loop (Suc n) conn c w =
     (case do_int conn c w of
        (Inl err, w') \<Rightarrow> (Inl (Fatal (''Failed to execute the query. more info: '' @ err_text err)), w')
      | (Inr _, w') \<Rightarrow> serial_loop n conn c w')"

text \<open>
  What follows the timed part of the four key benchmarks:
  \<open>b.StopTimer(); b.Logf("Final value of the counter: %s", GetKey(conn, key)); RemoveKey(conn, key)\<close>.
\<close>

definition key_teardown :: "pool \<Rightarrow> key \<Rightarrow> world \<Rightarrow> (stop + unit) \<times> world" where
  "key_teardown conn key w =
     (case GetKey conn key (emit TimerStop w) of
        (Inl p, w3) \<Rightarrow> (Inl p, w3)
      | (Inr v, w3) \<Rightarrow>
          (case RemoveKey conn key (emit (Logged (''Final value of the counter: '' @ v)) w3) of
             (Inl p, w4) \<Rightarrow> (Inl p, w4)
           | (Inr _, w4) \<Rightarrow> (Inr (), w4)))"

text \<open>
  What follows the timed part of the two hash benchmarks:
  \<open>b.StopTimer(); b.Logf("Final value of the counter: %s", GetHKey(conn, hashID, keyInHash)); RemoveHKey(conn, hashID, keyInHash)\<close>.
\<close>

definition hash_teardown :: "pool \<Rightarrow> string \<Rightarrow> string \<Rightarrow> world \<Rightarrow> (stop + unit) \<times> world" where
  "hash_teardown conn hashID keyInHash w =
     (case GetHKey conn hashID keyInHash (emit TimerStop w) of
        (Inl p, w3) \<Rightarrow> (Inl p, w3)
      | (Inr v, w3) \<Rightarrow>
          (case RemoveHKey conn hashID keyInHash (emit (Logged (''Final value of the counter: '' @ v)) w3) of
             (Inl p, w4) \<Rightarrow> (Inl p, w4)
           | (Inr _, w4) \<Rightarrow> (Inr (), w4)))"

text \<open>
  A serialized benchmark on a plain key, from the connection to the final
  \<open>RemoveKey\<close>; \<open>c\<close> is the command of the timed loop.
\<close>

definition serial_key_bench :: "cmd \<Rightarrow> key \<Rightarrow> nat \<Rightarrow> world \<Rightarrow> (stop + unit) \<times> world" where
  "serial_key_bench c key bN w =
     (case ConnectToSingleNode test_transport (test_address ! 0) 10 w of
        Inl err \<Rightarrow> (Inl (Fatal (''Connection error occured. More info: '' @ err)), w)
      | Inr conn \<Rightarrow>
          (case RemoveKey conn key w of
             (Inl p, w1) \<Rightarrow> (Inl p, w1)
           | (Inr _, w1) \<Rightarrow>
               (case serial_loop bN conn c (emit TimerReset w1) of
                  (Inl f, w2) \<Rightarrow> (Inl f, w2)
                | (Inr _, w2) \<Rightarrow> key_teardown conn key w2)))"

definition BenchmarkINCRKeyInSerializedSystem :: "nat \<Rightarrow> 32 word \<Rightarrow> world \<Rightarrow> (stop + unit) \<times> world" where
  "BenchmarkINCRKeyInSerializedSystem bN r w =
     (let key = bench_user_key r in serial_key_bench (INCR key) key bN w)"

definition BenchmarkINCRBYKeyInSerializedSystem :: "nat \<Rightarrow> 32 word \<Rightarrow> world \<Rightarrow> (stop + unit) \<times> world" where
  "BenchmarkINCRBYKeyInSerializedSystem bN r w =
     (let key = bench_user_key r in serial_key_bench (INCRBY key ''1'') key bN w)"

definition BenchmarkINCRHashInSerializedSystem :: "nat \<Rightarrow> world \<Rightarrow> (stop + unit) \<times> world" where
  "BenchmarkINCRHashInSerializedSystem bN w =
     (case ConnectToSingleNode test_transport (test_address ! 0) 10 w of
        Inl err \<Rightarrow> (Inl (Fatal (''Connection error occured. More info: '' @ err)), w)
      | Inr conn \<Rightarrow>
          (let hashID = ''manjinder''; keyInHash = ''complaints'' in
           case RemoveHKey conn hashID keyInHash w of
             (Inl p, w1) \<Rightarrow> (Inl p, w1)
           | (Inr _, w1) \<Rightarrow>
               (case serial_loop bN conn (HINCRBY hashID keyInHash ''1'') (emit TimerReset w1) of
                  (Inl f, w2) \<Rightarrow> (Inl f, w2)
                | (Inr _, w2) \<Rightarrow> hash_teardown conn hashID keyInHash w2)))"

subsection \<open>Runs of the serialized benchmarks\<close>

lemma emit_simps [client_simps]: "emit e w = w\<lparr>w_trace := w_trace w @ [e]\<rparr>"
  by (simp add: emit_def)

lemma serial_loop_counter:
  assumes cc: "counter_cmd c view upd"
  shows "view (w_db w) = Some v \<Longrightarrow> sint v + int n \<le> LLONG_MAX \<Longrightarrow>
    serial_loop n conn c w =
      (Inr (), w\<lparr>w_db := (if n = 0 then w_db w else upd (v + word_of_nat n) (w_db w)),
                w_trace := w_trace w @ replicate n (Sent c)\<rparr>)"
proof (induction n arbitrary: v w)
  case 0
  then show ?case by simp
next
  case (Suc n)
  have lt: "sint v < LLONG_MAX" using Suc.prems(2) by simp
  have v1: "sint (v + 1) = sint v + 1" using lt by (rule sint_plus_one_i64)
  have step: "exec_cmd c (w_db w) = (IntReply (v + 1), upd (v + 1) (w_db w))"
    using counter_cmd_step [OF cc Suc.prems(1) lt] .
  let ?w1 = "w\<lparr>w_db := upd (v + 1) (w_db w), w_trace := w_trace w @ [Sent c]\<rparr>"
  have view1: "view (w_db ?w1) = Some (v + 1)" using cc by (simp add: counter_cmd_def)
  have ih: "serial_loop n conn c ?w1 =
           (Inr (), ?w1\<lparr>w_db := (if n = 0 then w_db ?w1 else upd (v + 1 + word_of_nat n) (w_db ?w1)),
                     w_trace := w_trace ?w1 @ replicate n (Sent c)\<rparr>)"
    using view1 Suc.prems(2) v1 by (intro Suc.IH) simp_all
  have eq: "v + 1 + word_of_nat n = v + word_of_nat (Suc n)"
    by (simp add: algebra_simps)
  have over: "upd x (upd y db) = upd x db" for x y db using cc by (simp add: counter_cmd_def)
  have rest: "serial_loop n conn c ?w1 =
      (Inr (), w\<lparr>w_db := upd (v + word_of_nat (Suc n)) (w_db w),
                  w_trace := w_trace w @ replicate (Suc n) (Sent c)\<rparr>)"
    using ih by (cases "n = 0") (simp_all add: eq over replicate_append_same)
  show ?case
    using step rest by (simp add: do_int_simps decode_int_def)
qed

lemma connect_test_node:
  assumes "''127.0.0.1:6379'' \<in> set (w_up w)"
  shows "ConnectToSingleNode test_transport (test_address ! 0) n w =
           Inr \<lparr>pool_network = ''tcp'', pool_addr = ''127.0.0.1:6379'', pool_size = n\<rparr>"
  using assms by (simp add: test_transport_def test_address_def ConnectToSingleNode_tcp_up)

lemma key_teardown_eq:
  "key_teardown conn key w =
     (Inr (), w\<lparr>w_db := (w_db w)(key := None),
                w_trace := w_trace w @ [TimerStop, Sent (GET key),
                  Logged (''Final value of the counter: '' @
                          (case w_db w key of Some (RString s) \<Rightarrow> s | _ \<Rightarrow> [])),
                  Sent (DEL key)]\<rparr>)"
  if "\<forall>h. w_db w key \<noteq> Some (RHash h)"
proof (cases "w_db w key")
  case None
  then show ?thesis by (simp add: key_teardown_def GetKey_eq RemoveKey_eq emit_simps)
next
  case (Some v)
  with that show ?thesis
    by (cases v) (simp_all add: key_teardown_def GetKey_eq RemoveKey_eq emit_simps)
qed

lemma hash_teardown_clear:
  assumes "field_clear k f (w_db w)"
  shows "hash_teardown conn k f w =
           (Inr (), w\<lparr>w_trace := w_trace w @ [TimerStop, Sent (HGET k f),
                       Logged ''Final value of the counter: '', Sent (HDEL k f)]\<rparr>)"
  using field_clear_absent [OF assms]
  by (simp add: hash_teardown_def GetHKey_def RemoveHKey_def do_str_simps decode_str_def
                emit_simps ll2string_def digit_char_simps del: exec_cmd.simps)

lemma hash_teardown_upd:
  assumes "field_clear k f db" and "w_db w = field_upd k f x db"
  shows "hash_teardown conn k f w =
           (Inr (), w\<lparr>w_db := db, w_trace := w_trace w @ [TimerStop, Sent (HGET k f),
                       Logged (''Final value of the counter: '' @ ll2string x), Sent (HDEL k f)]\<rparr>)"
  using field_clear_upd [OF assms(1), of x] assms(2)
  by (simp add: hash_teardown_def GetHKey_def RemoveHKey_def do_str_simps decode_str_def emit_simps
           del: exec_cmd.simps)

lemma RemoveHKey_clear:
  assumes "db_wf (w_db w)" and "\<forall>s. w_db w k \<noteq> Some (RString s)"
  shows "\<exists>v. RemoveHKey conn k f w =
           (Inr v, w\<lparr>w_db := snd (exec_cmd (HDEL k f) (w_db w)), w_trace := w_trace w @ [Sent (HDEL k f)]\<rparr>)"
  using hdel_field_clear(1) [OF assms, of f]
  by (auto simp: RemoveHKey_def do_str_simps decode_str_def)

lemma serial_key_bench_counter:
  assumes cc: "counter_cmd c (key_view key) (key_upd key)"
    and bN: "bN \<le> 2 ^ 63 - 1" and up: "''127.0.0.1:6379'' \<in> set (w_up w)"
  shows "serial_key_bench c key bN w =
     (Inr (), w\<lparr>w_db := (w_db w)(key := None),
               w_trace := w_trace w @ [Sent (DEL key), TimerReset] @ replicate bN (Sent c) @
                 [TimerStop, Sent (GET key),
                  Logged (''Final value of the counter: '' @
                          (if bN = 0 then [] else ll2string (word_of_nat bN))),
                  Sent (DEL key)]\<rparr>)"
proof -
  let ?w1 = "w\<lparr>w_db := (w_db w)(key := None), w_trace := w_trace w @ [Sent (DEL key)]\<rparr>"
  let ?val = "if bN = 0 then [] else ll2string (word_of_nat bN)"
  let ?db2 = "if bN = 0 then (w_db w)(key := None)
              else (w_db w)(key \<mapsto> RString (ll2string (word_of_nat bN)))"
  have loop: "\<And>conn. serial_loop bN conn c (emit TimerReset ?w1) =
      (Inr (), (emit TimerReset ?w1)\<lparr>w_db := ?db2,
                 w_trace := w_trace w @ [Sent (DEL key), TimerReset] @ replicate bN (Sent c)\<rparr>)"
  proof -
    fix conn
    have "sint (0 :: i64) + int bN \<le> LLONG_MAX" using bN by simp
    then show "?thesis conn"
      using serial_loop_counter [OF cc, of "emit TimerReset ?w1" 0 bN conn]
      by (simp add: emit_simps key_view_def get_ll_def key_upd_def)
  qed
  have nh: "\<forall>h. ?db2 key \<noteq> Some (RHash h)" by simp
  show ?thesis
    using up loop key_teardown_eq [of "(emit TimerReset ?w1)\<lparr>w_db := ?db2,
             w_trace := w_trace w @ [Sent (DEL key), TimerReset] @ replicate bN (Sent c)\<rparr>"] nh
    by (simp add: serial_key_bench_def connect_test_node RemoveKey_eq emit_simps)
qed

text \<open>
  C8: the serialized INCR benchmark, whatever the keyspace held before, for
  any \<open>b.N\<close> below \<open>2^63\<close>: it succeeds, logs the counter value \<open>b.N\<close> (the
  empty string when \<open>b.N = 0\<close>, since GET of an absent key decodes to
  \<open>""\<close>), leaves the key deleted and every other key as it was, and sends
  exactly DEL, then \<open>b.N\<close> INCRs inside the timed window, then GET and DEL.
\<close>

theorem serial_incr_bench:
  assumes "bN \<le> 2 ^ 63 - 1" and "''127.0.0.1:6379'' \<in> set (w_up w)"
  shows "BenchmarkINCRKeyInSerializedSystem bN r w =
     (Inr (), w\<lparr>w_db := (w_db w)(bench_user_key r := None),
               w_trace := w_trace w @ [Sent (DEL (bench_user_key r)), TimerReset] @
                 replicate bN (Sent (INCR (bench_user_key r))) @
                 [TimerStop, Sent (GET (bench_user_key r)),
                  Logged (''Final value of the counter: '' @
                          (if bN = 0 then [] else ll2string (word_of_nat bN))),
                  Sent (DEL (bench_user_key r))]\<rparr>)"
  using serial_key_bench_counter [OF counter_cmd_INCR assms]
  by (simp add: BenchmarkINCRKeyInSerializedSystem_def Let_def)

theorem serial_incr_bench_witness:
  "(3::nat) \<le> 2 ^ 63 - 1 \<and> ''127.0.0.1:6379'' \<in> set (w_up \<lparr>w_db = Map.empty, w_up = [''127.0.0.1:6379''], w_cluster = False, w_trace = []\<rparr>) \<and>
   BenchmarkINCRKeyInSerializedSystem 3 1298498081 \<lparr>w_db = Map.empty, w_up = [''127.0.0.1:6379''], w_cluster = False, w_trace = []\<rparr> =
     (Inr (), \<lparr>w_db = Map.empty, w_up = [''127.0.0.1:6379''], w_cluster = False, w_trace = []\<rparr>\<lparr>w_trace :=
       [Sent (DEL (bench_user_key 1298498081)), TimerReset] @
       replicate 3 (Sent (INCR (bench_user_key 1298498081))) @
       [TimerStop, Sent (GET (bench_user_key 1298498081)),
        Logged ''Final value of the counter: 3'', Sent (DEL (bench_user_key 1298498081))]\<rparr>)"
  using serial_incr_bench [where bN = 3 and w = "\<lparr>w_db = Map.empty, w_up = [''127.0.0.1:6379''], w_cluster = False, w_trace = []\<rparr>" and r = 1298498081]
  by (simp add: ll2string_def digit_char_simps)

text \<open>
  C9: the serialized INCRBY benchmark behaves exactly as the INCR one: the
  increment \<open>"1"\<close> parses to 1 and INCRBY then runs INCR's code.
\<close>

theorem serial_incrby_bench:
  assumes "bN \<le> 2 ^ 63 - 1" and "''127.0.0.1:6379'' \<in> set (w_up w)"
  shows "BenchmarkINCRBYKeyInSerializedSystem bN r w =
     (Inr (), w\<lparr>w_db := (w_db w)(bench_user_key r := None),
               w_trace := w_trace w @ [Sent (DEL (bench_user_key r)), TimerReset] @
                 replicate bN (Sent (INCRBY (bench_user_key r) ''1'')) @
                 [TimerStop, Sent (GET (bench_user_key r)),
                  Logged (''Final value of the counter: '' @
                          (if bN = 0 then [] else ll2string (word_of_nat bN))),
                  Sent (DEL (bench_user_key r))]\<rparr>)"
  using serial_key_bench_counter [OF counter_cmd_INCRBY assms]
  by (simp add: BenchmarkINCRBYKeyInSerializedSystem_def Let_def)

theorem serial_incrby_bench_witness:
  "(2::nat) \<le> 2 ^ 63 - 1 \<and> ''127.0.0.1:6379'' \<in> set (w_up \<lparr>w_db = Map.empty, w_up = [''127.0.0.1:6379''], w_cluster = False, w_trace = []\<rparr>) \<and>
   BenchmarkINCRBYKeyInSerializedSystem 2 7 \<lparr>w_db = Map.empty, w_up = [''127.0.0.1:6379''], w_cluster = False, w_trace = []\<rparr> =
     (Inr (), \<lparr>w_db = Map.empty, w_up = [''127.0.0.1:6379''], w_cluster = False, w_trace = []\<rparr>\<lparr>w_trace :=
       [Sent (DEL (bench_user_key 7)), TimerReset] @
       replicate 2 (Sent (INCRBY (bench_user_key 7) ''1'')) @
       [TimerStop, Sent (GET (bench_user_key 7)),
        Logged ''Final value of the counter: 2'', Sent (DEL (bench_user_key 7))]\<rparr>)"
  using serial_incrby_bench [where bN = 2 and w = "\<lparr>w_db = Map.empty, w_up = [''127.0.0.1:6379''], w_cluster = False, w_trace = []\<rparr>" and r = 7]
  by (simp add: ll2string_def digit_char_simps)

text \<open>
  C10: the serialized HINCRBY benchmark: on a well-formed keyspace where the
  hash key does not hold a string, it logs \<open>b.N\<close>, leaves the keyspace as
  its first HDEL left it, and sends HDEL, \<open>b.N\<close> HINCRBYs, HGET and HDEL
  in that order.
\<close>

theorem serial_hash_bench:
  assumes bN: "bN \<le> 2 ^ 63 - 1" and up: "''127.0.0.1:6379'' \<in> set (w_up w)"
    and wf: "db_wf (w_db w)" and ns: "\<forall>s. w_db w ''manjinder'' \<noteq> Some (RString s)"
  shows "BenchmarkINCRHashInSerializedSystem bN w =
     (Inr (), w\<lparr>w_db := snd (exec_cmd (HDEL ''manjinder'' ''complaints'') (w_db w)),
               w_trace := w_trace w @ [Sent (HDEL ''manjinder'' ''complaints''), TimerReset] @
                 replicate bN (Sent (HINCRBY ''manjinder'' ''complaints'' ''1'')) @
                 [TimerStop, Sent (HGET ''manjinder'' ''complaints''),
                  Logged (''Final value of the counter: '' @
                          (if bN = 0 then [] else ll2string (word_of_nat bN))),
                  Sent (HDEL ''manjinder'' ''complaints'')]\<rparr>)"
proof -
  let ?c = "HINCRBY ''manjinder'' ''complaints'' ''1''"
  let ?db1 = "snd (exec_cmd (HDEL ''manjinder'' ''complaints'') (w_db w))"
  let ?w1 = "w\<lparr>w_db := ?db1, w_trace := w_trace w @ [Sent (HDEL ''manjinder'' ''complaints'')]\<rparr>"
  obtain v where rm: "\<And>conn. RemoveHKey conn ''manjinder'' ''complaints'' w = (Inr v, ?w1)"
    using RemoveHKey_clear [OF wf ns] by (simp add: RemoveHKey_def do_str_simps) blast
  have clear: "field_clear ''manjinder'' ''complaints'' ?db1"
    using hdel_field_clear(2) [OF wf ns] .
  have v0: "field_view ''manjinder'' ''complaints'' (w_db (emit TimerReset ?w1)) = Some 0"
    using field_clear_view [OF clear] by (simp add: emit_simps)
  have range: "sint (0 :: i64) + int bN \<le> LLONG_MAX" using bN by simp
  have loop: "\<And>conn. serial_loop bN conn ?c (emit TimerReset ?w1) =
      (Inr (), (emit TimerReset ?w1)\<lparr>w_db := (if bN = 0 then ?db1
                     else field_upd ''manjinder'' ''complaints'' (word_of_nat bN) ?db1),
                   w_trace := w_trace (emit TimerReset ?w1) @ replicate bN (Sent ?c)\<rparr>)"
    using serial_loop_counter [OF counter_cmd_HINCRBY v0 range] by (simp add: emit_simps)
  show ?thesis
  proof (cases "bN = 0")
    case True
    with up rm loop clear show ?thesis
      by (simp add: BenchmarkINCRHashInSerializedSystem_def connect_test_node hash_teardown_clear emit_simps Let_def
               del: exec_cmd.simps)
  next
    case False
    with up rm loop clear show ?thesis
      by (simp add: BenchmarkINCRHashInSerializedSystem_def connect_test_node hash_teardown_upd emit_simps Let_def
               del: exec_cmd.simps)
  qed
qed

theorem serial_hash_bench_witness:
  "(50::nat) \<le> 2 ^ 63 - 1 \<and> ''127.0.0.1:6379'' \<in> set (w_up \<lparr>w_db = Map.empty, w_up = [''127.0.0.1:6379''], w_cluster = False, w_trace = []\<rparr>) \<and>
   db_wf (w_db \<lparr>w_db = Map.empty, w_up = [''127.0.0.1:6379''], w_cluster = False, w_trace = []\<rparr>) \<and>
   BenchmarkINCRHashInSerializedSystem 50 \<lparr>w_db = Map.empty, w_up = [''127.0.0.1:6379''], w_cluster = False, w_trace = []\<rparr> =
     (Inr (), \<lparr>w_db = Map.empty, w_up = [''127.0.0.1:6379''], w_cluster = False, w_trace = []\<rparr>\<lparr>w_trace :=
       [Sent (HDEL ''manjinder'' ''complaints''), TimerReset] @
       replicate 50 (Sent (HINCRBY ''manjinder'' ''complaints'' ''1'')) @
       [TimerStop, Sent (HGET ''manjinder'' ''complaints''),
        Logged ''Final value of the counter: 50'', Sent (HDEL ''manjinder'' ''complaints'')]\<rparr>)"
  using serial_hash_bench [where bN = 50 and w = "\<lparr>w_db = Map.empty, w_up = [''127.0.0.1:6379''], w_cluster = False, w_trace = []\<rparr>"]
  by (simp add: db_wf_def ll2string_def nat_digits.simps digit_char_simps)

end
