(* ===== verification/ParallelRun.thy ===== *)
theory ParallelRun
  imports SerialBench
begin

text \<open>
  The parallel mode of the benchmarks: \<open>b.RunParallel(body)\<close> starts
  \<open>W\<close> worker goroutines that each run the source's closure
  \<open>for pb.Next() { conn.Do(radix.Cmd(&counter, ...)) }\<close> against one shared
  connection pool.  The model is a step relation on a state that holds the
  world (keyspace and trace), the shared iteration counter of
  \<open>testing.PB\<close> (\<open>globalN\<close>), the pool's idle connections and the connections
  its filler goroutine still has to create, and one record per worker.  A
  step is one atomic action of one worker, so every interleaving is a run:
  \<^item> \<open>pb.Next()\<close>, as the testing package implements it: a worker takes
    \<open>grain\<close> iterations at a time from \<open>globalN\<close> with an atomic add and
    counts its cached iterations down (\<open>pb_next\<close>);
  \<^item> taking a connection: an idle one, or, when the pool is empty, a fresh
    one dialled after the pool's wait (radix's default
    \<open>PoolOnEmptyCreateAfter\<close>; the wait's duration is abstracted away);
  \<^item> the command: the server executes it atomically, the connection goes back
    to the pool (closed if the pool is full), and an error reply ends the
    worker through \<open>b.Fatalf\<close>, which exits only that goroutine;
  \<^item> the pool's filler adding one of the \<open>size - 1\<close> connections that
    \<open>radix.NewPool\<close> creates in the background.
  The lemmas here show that no schedule runs forever (the measure
  \<open>par_measure\<close>).  An executable scheduler (\<open>sched_run\<close>) finishes
  within that measure, so every start state has a run in which every worker
  returns.  The invariants of a run are in ParallelInv, and its error path
  is in ParallelErr.
\<close>

datatype wphase = WNext | WWant | WHold | WDone | WFailed string

record worker =
  wk_phase :: wphase
  wk_cache :: nat

record pstate =
  ps_world :: world
  ps_n :: nat
  ps_idle :: nat
  ps_fill :: nat
  ps_workers :: "worker list"

text \<open>
  \<open>PB.Next\<close> of Go's testing package:
  \<^verbatim>\<open>if pb.cache == 0 { n := pb.globalN.Add(pb.grain)
     if n <= pb.bN { pb.cache = pb.grain } else if n < pb.bN+pb.grain { pb.cache = pb.bN + pb.grain - n }
     else { return false } }
  pb.cache--; return true\<close>
  The result is the answer, the new \<open>globalN\<close> and the worker's new cache.
\<close>

definition pb_next :: "nat \<Rightarrow> nat \<Rightarrow> nat \<Rightarrow> nat \<Rightarrow> bool \<times> nat \<times> nat" where
  "pb_next bN grain n cache =
     (if cache = 0 then
        (let n' = n + grain in
         if n' \<le> bN then (True, n', grain - 1)
         else if n' < bN + grain then (True, n', bN + grain - n' - 1)
         else (False, n', 0))
      else (True, n, cache - 1))"

fun wk_finished :: "wphase \<Rightarrow> bool" where
  "wk_finished WDone = True"
| "wk_finished (WFailed _) = True"
| "wk_finished _ = False"

text \<open>One atomic action of worker \<open>i\<close>.\<close>

inductive par_step :: "nat \<Rightarrow> nat \<Rightarrow> nat \<Rightarrow> cmd \<Rightarrow> pstate \<Rightarrow> pstate \<Rightarrow> bool"
  for bN :: nat and grain :: nat and psize :: nat and c :: cmd
where
  next_true:
    "i < length (ps_workers s) \<Longrightarrow> wk_phase (ps_workers s ! i) = WNext \<Longrightarrow>
     pb_next bN grain (ps_n s) (wk_cache (ps_workers s ! i)) = (True, n', cache') \<Longrightarrow>
     par_step bN grain psize c s
       (s\<lparr>ps_n := n', ps_workers := (ps_workers s)[i := \<lparr>wk_phase = WWant, wk_cache = cache'\<rparr>]\<rparr>)"
| next_false:
    "i < length (ps_workers s) \<Longrightarrow> wk_phase (ps_workers s ! i) = WNext \<Longrightarrow>
     pb_next bN grain (ps_n s) (wk_cache (ps_workers s ! i)) = (False, n', cache') \<Longrightarrow>
     par_step bN grain psize c s
       (s\<lparr>ps_n := n', ps_workers := (ps_workers s)[i := \<lparr>wk_phase = WDone, wk_cache = cache'\<rparr>]\<rparr>)"
| acquire:
    "i < length (ps_workers s) \<Longrightarrow> wk_phase (ps_workers s ! i) = WWant \<Longrightarrow> 0 < ps_idle s \<Longrightarrow>
     par_step bN grain psize c s
       (s\<lparr>ps_idle := ps_idle s - 1,
          ps_workers := (ps_workers s)[i := (ps_workers s ! i)\<lparr>wk_phase := WHold\<rparr>]\<rparr>)"
| acquire_new:
    "i < length (ps_workers s) \<Longrightarrow> wk_phase (ps_workers s ! i) = WWant \<Longrightarrow> ps_idle s = 0 \<Longrightarrow>
     par_step bN grain psize c s
       (s\<lparr>ps_workers := (ps_workers s)[i := (ps_workers s ! i)\<lparr>wk_phase := WHold\<rparr>]\<rparr>)"
| exec:
    "i < length (ps_workers s) \<Longrightarrow> wk_phase (ps_workers s ! i) = WHold \<Longrightarrow>
     send_cmd c (ps_world s) = (r, w') \<Longrightarrow>
     par_step bN grain psize c s
       (s\<lparr>ps_world := w',
          ps_idle := (if ps_idle s < psize then ps_idle s + 1 else ps_idle s),
          ps_workers := (ps_workers s)[i := (ps_workers s ! i)\<lparr>wk_phase :=
             (case decode_int r of
                Inl err \<Rightarrow> WFailed (''Failed to execute the query. more info: '' @ err_text err)
              | Inr _ \<Rightarrow> WNext)\<rparr>]\<rparr>)"
| fill:
    "0 < ps_fill s \<Longrightarrow>
     par_step bN grain psize c s
       (s\<lparr>ps_fill := ps_fill s - 1, ps_idle := min psize (ps_idle s + 1)\<rparr>)"

text \<open>
  The state \<open>RunParallel\<close> starts from: \<open>W\<close> workers with empty caches,
  \<open>globalN = 0\<close>, one idle connection (the one \<open>radix.NewPool\<close> dials
  synchronously) and \<open>size - 1\<close> still to come.
\<close>

definition par_init :: "nat \<Rightarrow> nat \<Rightarrow> world \<Rightarrow> pstate" where
  "par_init W psize w =
     \<lparr>ps_world = w, ps_n = 0, ps_idle = 1, ps_fill = psize - 1,
      ps_workers = replicate W \<lparr>wk_phase = WNext, wk_cache = 0\<rparr>\<rparr>"

definition par_terminal :: "pstate \<Rightarrow> bool" where
  "par_terminal s \<longleftrightarrow> list_all (\<lambda>wk. wk_finished (wk_phase wk)) (ps_workers s)"

definition par_failures :: "pstate \<Rightarrow> string list" where
  "par_failures s =
     concat (map (\<lambda>wk. case wk_phase wk of WFailed m \<Rightarrow> [m] | _ \<Rightarrow> []) (ps_workers s))"

text \<open>
  \<open>b.RunParallel\<close>: nothing when \<open>b.N = 0\<close>; otherwise the workers run to a
  state where every one has returned (the \<open>WaitGroup\<close> join), and the
  messages of the workers that called \<open>b.Fatalf\<close> are reported.
\<close>

inductive run_parallel ::
  "nat \<Rightarrow> nat \<Rightarrow> nat \<Rightarrow> nat \<Rightarrow> cmd \<Rightarrow> world \<Rightarrow> string list \<times> world \<Rightarrow> bool"
  for bN :: nat and grain :: nat and W :: nat and psize :: nat and c :: cmd
where
  zero: "bN = 0 \<Longrightarrow> run_parallel bN grain W psize c w ([], w)"
| run: "0 < bN \<Longrightarrow> (par_step bN grain psize c)\<^sup>*\<^sup>* (par_init W psize w) t \<Longrightarrow> par_terminal t \<Longrightarrow>
        run_parallel bN grain W psize c w (par_failures t, ps_world t)"

subsection \<open>The termination measure\<close>

text \<open>
  Weight of a worker: four per cached iteration, and for its phase the
  number of actions it still takes before it next consults \<open>pb.Next()\<close>.
  Every action decreases the filler's work, the iterations \<open>globalN\<close>
  has still to hand out (four each), or the workers' weights.
\<close>

fun phase_weight :: "wphase \<Rightarrow> nat" where
  "phase_weight WNext = 1"
| "phase_weight WWant = 3"
| "phase_weight WHold = 2"
| "phase_weight _ = 0"

fun wk_weight :: "worker \<Rightarrow> nat" where
  "wk_weight wk = 4 * wk_cache wk + phase_weight (wk_phase wk)"

definition par_measure :: "nat \<Rightarrow> pstate \<Rightarrow> nat" where
  "par_measure bN s = ps_fill s + 4 * (bN - min (ps_n s) bN) + sum_list (map wk_weight (ps_workers s))"

subsection \<open>A scheduler\<close>

text \<open>
  One interleaving the Go scheduler may choose, as an executable function:
  always run the first worker that has not returned (\<open>first_active\<close>),
  one action at a time (\<open>worker_step\<close>, the action \<open>par_step\<close> allows
  that worker), with \<open>fuel\<close> actions at most; the filler never runs.  It
  gives concrete runs of the benchmarks, and \<open>fuel\<close> at least the
  termination measure always suffices.
\<close>

fun first_active :: "worker list \<Rightarrow> nat option" where
  "first_active [] = None"
| "first_active (wk # wks) =
     (if wk_finished (wk_phase wk) then map_option Suc (first_active wks) else Some 0)"

definition worker_step :: "nat \<Rightarrow> nat \<Rightarrow> nat \<Rightarrow> cmd \<Rightarrow> pstate \<Rightarrow> nat \<Rightarrow> pstate" where
  "worker_step bN grain psize c s i =
     (let wk = ps_workers s ! i in
      case wk_phase wk of
        WNext \<Rightarrow>
          (case pb_next bN grain (ps_n s) (wk_cache wk) of
             (b, n', cache') \<Rightarrow>
               s\<lparr>ps_n := n', ps_workers := (ps_workers s)[i :=
                   \<lparr>wk_phase = (if b then WWant else WDone), wk_cache = cache'\<rparr>]\<rparr>)
      | WWant \<Rightarrow>
          (if 0 < ps_idle s
           then s\<lparr>ps_idle := ps_idle s - 1, ps_workers := (ps_workers s)[i := wk\<lparr>wk_phase := WHold\<rparr>]\<rparr>
           else s\<lparr>ps_workers := (ps_workers s)[i := wk\<lparr>wk_phase := WHold\<rparr>]\<rparr>)
      | WHold \<Rightarrow>
          (case send_cmd c (ps_world s) of
             (r, w') \<Rightarrow>
               s\<lparr>ps_world := w',
                  ps_idle := (if ps_idle s < psize then ps_idle s + 1 else ps_idle s),
                  ps_workers := (ps_workers s)[i := wk\<lparr>wk_phase :=
                     (case decode_int r of
                        Inl err \<Rightarrow> WFailed (''Failed to execute the query. more info: '' @ err_text err)
                      | Inr _ \<Rightarrow> WNext)\<rparr>]\<rparr>)
      | _ \<Rightarrow> s)"

fun sched_run :: "nat \<Rightarrow> nat \<Rightarrow> nat \<Rightarrow> nat \<Rightarrow> cmd \<Rightarrow> pstate \<Rightarrow> pstate option" where
  "sched_run 0 bN grain psize c s = (if par_terminal s then Some s else None)"
| "sched_run (Suc fuel) bN grain psize c s =
     (case first_active (ps_workers s) of
        None \<Rightarrow> Some s
      | Some i \<Rightarrow> sched_run fuel bN grain psize c (worker_step bN grain psize c s i))"

subsection \<open>Facts on single steps\<close>

lemma pb_next_true:
  assumes "0 < grain" and "pb_next bN grain n cache = (True, n', cache')"
  shows "min n' bN + cache = min n bN + cache' + 1 \<and> n \<le> n'"
  using assms by (auto simp: pb_next_def Let_def split: if_splits)

lemma pb_next_false:
  assumes "pb_next bN grain n cache = (False, n', cache')"
  shows "cache = 0 \<and> cache' = 0 \<and> bN \<le> n \<and> n \<le> n'"
  using assms by (auto simp: pb_next_def Let_def split: if_splits)

lemma set_update_cases:
  "wk \<in> set (xs[i := x]) \<Longrightarrow> wk = x \<or> wk \<in> set xs"
  using set_update_subset_insert by fastforce

lemma par_step_length:
  "par_step bN grain psize c s t \<Longrightarrow> length (ps_workers t) = length (ps_workers s)"
  by (induction rule: par_step.induct) simp_all

lemma par_reach_length:
  "(par_step bN grain psize c)\<^sup>*\<^sup>* s0 s \<Longrightarrow> length (ps_workers s) = length (ps_workers s0)"
  by (induction rule: rtranclp_induct) (simp_all add: par_step_length)

subsection \<open>Termination and progress\<close>

lemma par_step_measure:
  assumes "par_step bN grain psize c s t" and "0 < grain"
  shows "par_measure bN t < par_measure bN s"
  using assms
proof (induction rule: par_step.induct)
  case (next_true i s n' cache')
  have "sum_list (map wk_weight ((ps_workers s)[i := \<lparr>wk_phase = WWant, wk_cache = cache'\<rparr>])) + wk_weight (ps_workers s ! i)
        = sum_list (map wk_weight (ps_workers s)) + wk_weight \<lparr>wk_phase = WWant, wk_cache = cache'\<rparr>"
    using next_true(1) by (rule sum_list_map_update_nat)
  moreover have "min n' bN + wk_cache (ps_workers s ! i) = min (ps_n s) bN + cache' + 1"
    using pb_next_true [OF next_true(4,3)] by simp
  ultimately show ?case using next_true(2) by (simp add: par_measure_def)
next
  case (next_false i s n' cache')
  have "sum_list (map wk_weight ((ps_workers s)[i := \<lparr>wk_phase = WDone, wk_cache = cache'\<rparr>])) + wk_weight (ps_workers s ! i)
        = sum_list (map wk_weight (ps_workers s)) + wk_weight \<lparr>wk_phase = WDone, wk_cache = cache'\<rparr>"
    using next_false(1) by (rule sum_list_map_update_nat)
  moreover have "wk_cache (ps_workers s ! i) = 0 \<and> cache' = 0 \<and> bN \<le> ps_n s \<and> ps_n s \<le> n'"
    using pb_next_false [OF next_false(3)] .
  ultimately show ?case using next_false(2) by (simp add: par_measure_def)
next
  case (acquire i s)
  have "sum_list (map wk_weight ((ps_workers s)[i := (ps_workers s ! i)\<lparr>wk_phase := WHold\<rparr>])) + wk_weight (ps_workers s ! i)
        = sum_list (map wk_weight (ps_workers s)) + wk_weight ((ps_workers s ! i)\<lparr>wk_phase := WHold\<rparr>)"
    using acquire(1) by (rule sum_list_map_update_nat)
  then show ?case using acquire(2) by (simp add: par_measure_def)
next
  case (acquire_new i s)
  have "sum_list (map wk_weight ((ps_workers s)[i := (ps_workers s ! i)\<lparr>wk_phase := WHold\<rparr>])) + wk_weight (ps_workers s ! i)
        = sum_list (map wk_weight (ps_workers s)) + wk_weight ((ps_workers s ! i)\<lparr>wk_phase := WHold\<rparr>)"
    using acquire_new(1) by (rule sum_list_map_update_nat)
  then show ?case using acquire_new(2) by (simp add: par_measure_def)
next
  case (exec i s r w')
  let ?p = "case decode_int r of
                Inl err \<Rightarrow> WFailed (''Failed to execute the query. more info: '' @ err_text err)
              | Inr _ \<Rightarrow> WNext"
  have "phase_weight ?p \<le> 1" by (simp split: sum.splits)
  moreover have "sum_list (map wk_weight ((ps_workers s)[i := (ps_workers s ! i)\<lparr>wk_phase := ?p\<rparr>])) + wk_weight (ps_workers s ! i)
        = sum_list (map wk_weight (ps_workers s)) + wk_weight ((ps_workers s ! i)\<lparr>wk_phase := ?p\<rparr>)"
    using exec(1) by (rule sum_list_map_update_nat)
  ultimately show ?case using exec(2) by (simp add: par_measure_def)
next
  case (fill s)
  then show ?case by (simp add: par_measure_def)
qed

lemma par_step_wf: "0 < grain \<Longrightarrow> wf {(t, s). par_step bN grain psize c s t}"
  by (rule wf_subset [OF wf_measure [of "par_measure bN"]]) (auto dest: par_step_measure)

lemma first_active_None: "first_active wks = None \<longleftrightarrow> list_all (\<lambda>wk. wk_finished (wk_phase wk)) wks"
  by (induction wks) auto

lemma first_active_Some:
  "first_active wks = Some i \<Longrightarrow> i < length wks \<and> \<not> wk_finished (wk_phase (wks ! i))"
  by (induction wks arbitrary: i) (auto split: if_splits)

lemma worker_step_par_step:
  assumes i: "i < length (ps_workers s)" and nf: "\<not> wk_finished (wk_phase (ps_workers s ! i))"
  shows "par_step bN grain psize c s (worker_step bN grain psize c s i)"
proof (cases "wk_phase (ps_workers s ! i)")
  case WNext
  obtain b n' cache' where pb: "pb_next bN grain (ps_n s) (wk_cache (ps_workers s ! i)) = (b, n', cache')"
    using prod_cases3 by blast
  show ?thesis
  proof (cases b)
    case True
    with pb WNext show ?thesis
      unfolding worker_step_def by (simp add: par_step.next_true [OF i WNext])
  next
    case False
    with pb WNext show ?thesis
      unfolding worker_step_def by (simp add: par_step.next_false [OF i WNext])
  qed
next
  case WWant
  show ?thesis
  proof (cases "ps_idle s = 0")
    case True
    then show ?thesis using par_step.acquire_new [OF i WWant True] WWant
      by (simp add: worker_step_def Let_def)
  next
    case False
    then show ?thesis using par_step.acquire [OF i WWant] WWant
      by (simp add: worker_step_def Let_def)
  qed
next
  case WHold
  obtain r w' where sc: "send_cmd c (ps_world s) = (r, w')" using prod.exhaust by blast
  with WHold show ?thesis
    unfolding worker_step_def by (simp add: par_step.exec [OF i WHold sc])
qed (use nf in simp_all)

lemma sched_run_sound:
  "sched_run fuel bN grain psize c s = Some t \<Longrightarrow>
     (par_step bN grain psize c)\<^sup>*\<^sup>* s t \<and> par_terminal t"
proof (induction fuel arbitrary: s)
  case 0
  then show ?case by (simp split: if_splits)
next
  case (Suc fuel)
  show ?case
  proof (cases "first_active (ps_workers s)")
    case None
    with Suc.prems show ?thesis by (simp add: par_terminal_def first_active_None)
  next
    case (Some i)
    with Suc.prems have "sched_run fuel bN grain psize c (worker_step bN grain psize c s i) = Some t" by simp
    with Suc.IH have "(par_step bN grain psize c)\<^sup>*\<^sup>* (worker_step bN grain psize c s i) t \<and> par_terminal t" .
    moreover have "par_step bN grain psize c s (worker_step bN grain psize c s i)"
      using first_active_Some [OF Some] by (blast intro: worker_step_par_step)
    ultimately show ?thesis by (meson converse_rtranclp_into_rtranclp)
  qed
qed

lemma par_measure_zero: "par_measure bN s = 0 \<Longrightarrow> par_terminal s"
proof -
  assume "par_measure bN s = 0"
  then have "\<forall>wk \<in> set (ps_workers s). phase_weight (wk_phase wk) = 0"
    by (simp add: par_measure_def sum_list_eq_0_iff)
  moreover have "phase_weight p = 0 \<Longrightarrow> wk_finished p" for p by (cases p) simp_all
  ultimately show ?thesis by (simp add: par_terminal_def list_all_iff)
qed

lemma sched_run_finishes:
  assumes "0 < grain" and "par_measure bN s \<le> fuel"
  shows "\<exists>t. sched_run fuel bN grain psize c s = Some t"
  using assms(2)
proof (induction fuel arbitrary: s)
  case 0
  then show ?case by (simp add: par_measure_zero)
next
  case (Suc fuel)
  show ?case
  proof (cases "first_active (ps_workers s)")
    case (Some i)
    have "par_step bN grain psize c s (worker_step bN grain psize c s i)"
      using first_active_Some [OF Some] by (blast intro: worker_step_par_step)
    then have "par_measure bN (worker_step bN grain psize c s i) \<le> fuel"
      using par_step_measure [OF _ assms(1)] Suc.prems by fastforce
    with Suc.IH Some show ?thesis by simp
  qed simp
qed

text \<open>
  C15: the parallel run terminates under every schedule: there is no infinite
  sequence of worker actions (with \<open>grain > 0\<close>, as \<open>testing\<close> ensures).
\<close>

theorem par_no_infinite_run:
  assumes "0 < grain"
  shows "\<not> (\<exists>f. \<forall>i. par_step bN grain psize c (f i) (f (Suc i)))"
  using par_step_wf [OF assms, where bN = bN and psize = psize and c = c]
  unfolding wf_iff_no_infinite_down_chain by blast

theorem par_no_infinite_run_witness:
  "(0::nat) < 1 \<and> \<not> (\<exists>f. \<forall>i. par_step 3 1 2 (INCR ''k'') (f i) (f (Suc i)))"
  using par_no_infinite_run [of 1 3 2 "INCR ''k''"] by simp

lemma run_parallel_exists:
  assumes "0 < grain"
  shows "\<exists>r. run_parallel bN grain W psize c w r"
proof (cases "bN = 0")
  case True
  then show ?thesis by (blast intro: run_parallel.zero)
next
  case False
  obtain t where "sched_run (par_measure bN (par_init W psize w)) bN grain psize c (par_init W psize w) = Some t"
    using sched_run_finishes [OF assms order_refl] by blast
  with False show ?thesis by (blast dest: sched_run_sound intro: run_parallel.run)
qed

end
