(* ===== verification/ParallelInv.thy ===== *)
theory ParallelInv
  imports ParallelRun
begin

text \<open>
  Invariants of the parallel run of ParallelRun, proved by rule induction
  over \<open>par_step\<close> and lifted to every reachable state.
  \<^item> \<open>acct_inv\<close>, for any command, accounts for the iterations.  The trace
    is the initial one followed by the commands sent.  The commands sent
    and the iterations the workers still owe add up to what \<open>pb.Next\<close> has
    handed out, which is at most \<open>b.N\<close>.  The pool never holds more idle
    connections than its size.
  \<^item> \<open>par_inv\<close> adds, for a counter command (Counter), that the keyspace is
    the counter's value after the commands sent and that no worker has
    failed.
  From them follow:
  \<^item> the world of every finished run;
  \<^item> the equivalence of a parallel run of a counter with the serialized
    loop;
  \<^item> the refinement of an abstract counter by the run;
  \<^item> the bound on the commands sent and on the counter's 64-bit value.
\<close>

text \<open>
  What a worker still owes: its cached iterations, plus the one it has
  claimed and not yet executed.
\<close>

fun pending :: "worker \<Rightarrow> nat" where
  "pending wk = wk_cache wk + (case wk_phase wk of WWant \<Rightarrow> 1 | WHold \<Rightarrow> 1 | _ \<Rightarrow> 0)"

text \<open>The number of commands a run from \<open>w0\<close> has sent, read off the trace.\<close>

definition sent :: "world \<Rightarrow> pstate \<Rightarrow> nat" where
  "sent w0 s = length (w_trace (ps_world s)) - length (w_trace w0)"

definition acct_inv :: "nat \<Rightarrow> nat \<Rightarrow> cmd \<Rightarrow> world \<Rightarrow> pstate \<Rightarrow> bool" where
  "acct_inv bN psize c w0 s \<longleftrightarrow>
     ps_world s = w0\<lparr>w_db := w_db (ps_world s), w_trace := w_trace w0 @ replicate (sent w0 s) (Sent c)\<rparr> \<and>
     sent w0 s + sum_list (map pending (ps_workers s)) = min (ps_n s) bN \<and>
     (\<forall>wk \<in> set (ps_workers s). wk_phase wk = WDone \<longrightarrow> wk_cache wk = 0 \<and> bN \<le> ps_n s) \<and>
     ps_idle s \<le> psize"

text \<open>The keyspace after \<open>k\<close> successful increments of a counter that read \<open>v0\<close>.\<close>

definition ctr_db :: "(i64 \<Rightarrow> db \<Rightarrow> db) \<Rightarrow> db \<Rightarrow> i64 \<Rightarrow> nat \<Rightarrow> db" where
  "ctr_db upd db0 v0 k = (if k = 0 then db0 else upd (v0 + word_of_nat k) db0)"

definition par_inv ::
  "nat \<Rightarrow> nat \<Rightarrow> cmd \<Rightarrow> (i64 \<Rightarrow> db \<Rightarrow> db) \<Rightarrow> world \<Rightarrow> i64 \<Rightarrow> pstate \<Rightarrow> bool" where
  "par_inv bN psize c upd w0 v0 s \<longleftrightarrow>
     acct_inv bN psize c w0 s \<and>
     w_db (ps_world s) = ctr_db upd (w_db w0) v0 (sent w0 s) \<and>
     (\<forall>wk \<in> set (ps_workers s). \<not> (\<exists>m. wk_phase wk = WFailed m))"

text \<open>
  The abstract counter a run of \<open>b.N\<close> increments implements: a value and
  the number of increments made, each step adding one to both while fewer
  than \<open>b.N\<close> have been made.
\<close>

inductive ctr_spec :: "nat \<Rightarrow> i64 \<times> nat \<Rightarrow> i64 \<times> nat \<Rightarrow> bool" for bN :: nat where
  incr: "k < bN \<Longrightarrow> ctr_spec bN (v, k) (v + 1, Suc k)"

text \<open>
  The abstraction relation: the counter's view of the keyspace, and the
  commands sent so far.
\<close>

definition ctr_rel :: "(db \<Rightarrow> i64 option) \<Rightarrow> world \<Rightarrow> pstate \<Rightarrow> i64 \<times> nat \<Rightarrow> bool" where
  "ctr_rel view w0 s a \<longleftrightarrow> view (w_db (ps_world s)) = Some (fst a) \<and> sent w0 s = snd a"

subsection \<open>The accounting invariant\<close>

lemma sent_replicate:
  "w_trace w = w_trace w0 @ replicate k x \<Longrightarrow> length (w_trace w) - length (w_trace w0) = k"
  by simp

lemma acct_inv_init: "0 < psize \<Longrightarrow> acct_inv bN psize c w0 (par_init W psize w0)"
  by (simp add: acct_inv_def par_init_def sent_def)

lemma world_trace_extend:
  "w = w0\<lparr>w_db := d, w_trace := tr\<rparr> \<Longrightarrow>
     w\<lparr>w_db := d', w_trace := w_trace w @ xs\<rparr> = w0\<lparr>w_db := d', w_trace := tr @ xs\<rparr>"
  by simp

lemma acct_inv_exec_sent:
  assumes "acct_inv bN psize c w0 s" and "send_cmd c (ps_world s) = (r, w')"
  shows "w' = w0\<lparr>w_db := w_db w', w_trace := w_trace w0 @ replicate (Suc (sent w0 s)) (Sent c)\<rparr>"
    and "length (w_trace w') - length (w_trace w0) = Suc (sent w0 s)"
proof -
  have w: "ps_world s = w0\<lparr>w_db := w_db (ps_world s), w_trace := w_trace w0 @ replicate (sent w0 s) (Sent c)\<rparr>"
    using assms(1) by (simp add: acct_inv_def)
  have "w' = (ps_world s)\<lparr>w_db := w_db w', w_trace := w_trace (ps_world s) @ [Sent c]\<rparr>"
    using assms(2) by (auto simp: send_cmd_simps)
  also have "\<dots> = w0\<lparr>w_db := w_db w', w_trace := (w_trace w0 @ replicate (sent w0 s) (Sent c)) @ [Sent c]\<rparr>"
    by (rule world_trace_extend [OF w])
  finally show w': "w' = w0\<lparr>w_db := w_db w', w_trace := w_trace w0 @ replicate (Suc (sent w0 s)) (Sent c)\<rparr>"
    by (simp add: replicate_append_same)
  have "w_trace w' = w_trace w0 @ replicate (Suc (sent w0 s)) (Sent c)"
    by (subst w') simp
  then show "length (w_trace w') - length (w_trace w0) = Suc (sent w0 s)"
    by (rule sent_replicate)
qed

lemma acct_sent_lt:
  assumes "acct_inv bN psize c w0 s" and "i < length (ps_workers s)"
    and "wk_phase (ps_workers s ! i) = WHold"
  shows "sent w0 s < bN"
proof -
  have "pending (ps_workers s ! i) \<le> sum_list (map pending (ps_workers s))"
    using assms(2) by (rule elem_le_sum_list_nat)
  moreover have "sent w0 s + sum_list (map pending (ps_workers s)) = min (ps_n s) bN"
    using assms(1) by (simp add: acct_inv_def)
  moreover have "min (ps_n s) bN \<le> bN" by simp
  ultimately show ?thesis using assms(3) by simp
qed

lemma acct_inv_step:
  assumes step: "par_step bN grain psize c s t" and g: "0 < grain"
    and inv: "acct_inv bN psize c w0 s"
  shows "acct_inv bN psize c w0 t"
  using step inv
proof (induction rule: par_step.induct)
  case (next_true i s n' cache')
  let ?new = "\<lparr>wk_phase = WWant, wk_cache = cache'\<rparr>"
  have "sum_list (map pending ((ps_workers s)[i := ?new])) + pending (ps_workers s ! i) =
        sum_list (map pending (ps_workers s)) + pending ?new"
    using next_true.hyps(1) by (rule sum_list_map_update_nat)
  moreover have "min n' bN + wk_cache (ps_workers s ! i) = min (ps_n s) bN + cache' + 1 \<and> ps_n s \<le> n'"
    using pb_next_true [OF g next_true.hyps(3)] .
  ultimately show ?case using next_true.prems next_true.hyps(2)
    unfolding acct_inv_def sent_def by (fastforce dest: set_update_cases)
next
  case (next_false i s n' cache')
  let ?new = "\<lparr>wk_phase = WDone, wk_cache = cache'\<rparr>"
  have "sum_list (map pending ((ps_workers s)[i := ?new])) + pending (ps_workers s ! i) =
        sum_list (map pending (ps_workers s)) + pending ?new"
    using next_false.hyps(1) by (rule sum_list_map_update_nat)
  moreover have "wk_cache (ps_workers s ! i) = 0 \<and> cache' = 0 \<and> bN \<le> ps_n s \<and> ps_n s \<le> n'"
    using pb_next_false [OF next_false.hyps(3)] .
  ultimately show ?case using next_false.prems next_false.hyps(2)
    unfolding acct_inv_def sent_def by (fastforce dest: set_update_cases)
next
  case (acquire i s)
  let ?new = "(ps_workers s ! i)\<lparr>wk_phase := WHold\<rparr>"
  have "sum_list (map pending ((ps_workers s)[i := ?new])) + pending (ps_workers s ! i) =
        sum_list (map pending (ps_workers s)) + pending ?new"
    using acquire.hyps(1) by (rule sum_list_map_update_nat)
  then show ?case using acquire.prems acquire.hyps(2)
    unfolding acct_inv_def sent_def by (fastforce dest: set_update_cases)
next
  case (acquire_new i s)
  let ?new = "(ps_workers s ! i)\<lparr>wk_phase := WHold\<rparr>"
  have "sum_list (map pending ((ps_workers s)[i := ?new])) + pending (ps_workers s ! i) =
        sum_list (map pending (ps_workers s)) + pending ?new"
    using acquire_new.hyps(1) by (rule sum_list_map_update_nat)
  then show ?case using acquire_new.prems acquire_new.hyps(2)
    unfolding acct_inv_def sent_def by (fastforce dest: set_update_cases)
next
  case (exec i s r w')
  let ?p = "case decode_int r of
              Inl err \<Rightarrow> WFailed (''Failed to execute the query. more info: '' @ err_text err)
            | Inr _ \<Rightarrow> WNext"
  let ?new = "(ps_workers s ! i)\<lparr>wk_phase := ?p\<rparr>"
  have "sum_list (map pending ((ps_workers s)[i := ?new])) + pending (ps_workers s ! i) =
        sum_list (map pending (ps_workers s)) + pending ?new"
    using exec.hyps(1) by (rule sum_list_map_update_nat)
  moreover have "pending ?new = wk_cache (ps_workers s ! i)" by (simp split: sum.splits)
  moreover note acct_inv_exec_sent [OF exec.prems exec.hyps(3)]
  ultimately show ?case using exec.prems exec.hyps(2)
    unfolding acct_inv_def sent_def by (fastforce dest: set_update_cases split: sum.splits)
next
  case (fill s)
  then show ?case unfolding acct_inv_def sent_def by auto
qed

lemma acct_inv_reach:
  assumes "(par_step bN grain psize c)\<^sup>*\<^sup>* (par_init W psize w0) s" and "0 < grain" and "0 < psize"
  shows "acct_inv bN psize c w0 s"
  using assms(1)
proof (induction rule: rtranclp_induct)
  case base
  then show ?case using acct_inv_init [OF assms(3)] .
next
  case (step s t)
  then show ?case using acct_inv_step [OF _ assms(2)] by blast
qed

subsection \<open>The counter invariant\<close>

lemma ctr_db_view:
  "counter_cmd c view upd \<Longrightarrow> view db0 = Some v0 \<Longrightarrow> view (ctr_db upd db0 v0 k) = Some (v0 + word_of_nat k)"
  by (simp add: ctr_db_def counter_cmd_def)

lemma ctr_db_Suc:
  "counter_cmd c view upd \<Longrightarrow> upd (v0 + word_of_nat k + 1) (ctr_db upd db0 v0 k) = ctr_db upd db0 v0 (Suc k)"
  by (simp add: ctr_db_def counter_cmd_def ac_simps)

lemma par_inv_init: "0 < psize \<Longrightarrow> par_inv bN psize c upd w0 v0 (par_init W psize w0)"
  using acct_inv_init by (simp add: par_inv_def par_init_def sent_def ctr_db_def)

lemma par_inv_step:
  assumes step: "par_step bN grain psize c s t"
    and cc: "counter_cmd c view upd" and v0: "view (w_db w0) = Some v0"
    and range: "sint v0 + int bN \<le> LLONG_MAX" and g: "0 < grain"
    and inv: "par_inv bN psize c upd w0 v0 s"
  shows "par_inv bN psize c upd w0 v0 t"
proof -
  have acct: "acct_inv bN psize c w0 s"
    and db: "w_db (ps_world s) = ctr_db upd (w_db w0) v0 (sent w0 s)"
    and nf: "\<forall>wk \<in> set (ps_workers s). \<not> (\<exists>m. wk_phase wk = WFailed m)"
    using inv by (simp_all add: par_inv_def)
  have "w_db (ps_world t) = ctr_db upd (w_db w0) v0 (sent w0 t) \<and>
        (\<forall>wk \<in> set (ps_workers t). \<not> (\<exists>m. wk_phase wk = WFailed m))"
    using step acct db nf
  proof (induction rule: par_step.induct)
    case (exec i s r w')
    let ?k = "sent w0 s"
    have kb: "?k < bN" using acct_sent_lt [OF exec.prems(1) exec.hyps(1,2)] .
    have vk: "view (w_db (ps_world s)) = Some (v0 + word_of_nat ?k)"
      using ctr_db_view [OF cc v0] exec.prems(2) by simp
    have "sint (v0 + word_of_nat ?k) = sint v0 + int ?k"
      using range kb by (intro sint_add_nat_i64) simp
    with range kb have lt: "sint (v0 + word_of_nat ?k) < LLONG_MAX" by simp
    have "exec_cmd c (w_db (ps_world s)) =
            (IntReply (v0 + word_of_nat ?k + 1), upd (v0 + word_of_nat ?k + 1) (w_db (ps_world s)))"
      using cc vk lt by (rule counter_cmd_step)
    with exec.hyps(3) have r: "r = IntReply (v0 + word_of_nat ?k + 1)"
      and dbw: "w_db w' = upd (v0 + word_of_nat ?k + 1) (w_db (ps_world s))"
      by (auto simp: send_cmd_simps)
    have "w_db w' = ctr_db upd (w_db w0) v0 (Suc ?k)"
      using dbw exec.prems(2) ctr_db_Suc [OF cc] by simp
    moreover have "length (w_trace w') - length (w_trace w0) = Suc ?k"
      using acct_inv_exec_sent(2) [OF exec.prems(1) exec.hyps(3)] .
    ultimately show ?case using exec.prems(3) r
      by (auto simp: sent_def decode_int_def dest: set_update_cases)
  qed (fastforce simp: sent_def dest: set_update_cases)+
  with acct_inv_step [OF step g acct] show ?thesis by (simp add: par_inv_def)
qed

lemma par_inv_reach:
  assumes "(par_step bN grain psize c)\<^sup>*\<^sup>* (par_init W psize w0) s"
    and "counter_cmd c view upd" and "view (w_db w0) = Some v0"
    and "sint v0 + int bN \<le> LLONG_MAX" and "0 < grain" and "0 < psize"
  shows "par_inv bN psize c upd w0 v0 s"
  using assms(1)
proof (induction rule: rtranclp_induct)
  case base
  then show ?case using par_inv_init [OF assms(6)] .
next
  case (step s t)
  then show ?case using par_inv_step [OF _ assms(2-5)] by blast
qed

subsection \<open>Finished runs\<close>

lemma par_terminal_inv_all_done:
  assumes "par_terminal s" and "par_inv bN psize c upd w0 v0 s"
  shows "\<forall>wk \<in> set (ps_workers s). wk_phase wk = WDone \<and> wk_cache wk = 0 \<and> bN \<le> ps_n s"
proof
  fix wk assume wk: "wk \<in> set (ps_workers s)"
  with assms(1) have "wk_finished (wk_phase wk)" by (simp add: par_terminal_def list_all_iff)
  moreover from assms(2) wk have "\<not> (\<exists>m. wk_phase wk = WFailed m)" by (simp add: par_inv_def)
  ultimately have "wk_phase wk = WDone" by (cases "wk_phase wk") simp_all
  with assms(2) wk show "wk_phase wk = WDone \<and> wk_cache wk = 0 \<and> bN \<le> ps_n s"
    by (simp add: par_inv_def acct_inv_def)
qed

lemma par_reach_workers_ne:
  "(par_step bN grain psize c)\<^sup>*\<^sup>* (par_init W psize w0) t \<Longrightarrow> 0 < W \<Longrightarrow> ps_workers t \<noteq> []"
  using par_reach_length by (fastforce simp: par_init_def)

lemma parallel_counter_final:
  assumes cc: "counter_cmd c view upd" and v0: "view (w_db w0) = Some v0"
    and range: "sint v0 + int bN \<le> LLONG_MAX" and g: "0 < grain" and p: "0 < psize" and W: "0 < W"
    and run: "(par_step bN grain psize c)\<^sup>*\<^sup>* (par_init W psize w0) t" and fin: "par_terminal t"
  shows "ps_world t = w0\<lparr>w_db := (if bN = 0 then w_db w0 else upd (v0 + word_of_nat bN) (w_db w0)),
                         w_trace := w_trace w0 @ replicate bN (Sent c)\<rparr> \<and>
         par_failures t = []"
proof -
  have inv: "par_inv bN psize c upd w0 v0 t" using par_inv_reach [OF run cc v0 range g p] .
  have fins: "\<forall>wk \<in> set (ps_workers t). wk_phase wk = WDone \<and> wk_cache wk = 0 \<and> bN \<le> ps_n t"
    using fin inv by (rule par_terminal_inv_all_done)
  obtain wk where "wk \<in> set (ps_workers t)"
    using par_reach_workers_ne [OF run W] by (cases "ps_workers t") auto
  with fins have n: "bN \<le> ps_n t" by blast
  from fins have "sum_list (map pending (ps_workers t)) = 0"
    by (simp add: sum_list_eq_0_iff)
  with inv n have k: "sent w0 t = bN" by (simp add: par_inv_def acct_inv_def)
  have wt: "ps_world t = w0\<lparr>w_db := w_db (ps_world t), w_trace := w_trace w0 @ replicate (sent w0 t) (Sent c)\<rparr>"
    using inv unfolding par_inv_def acct_inv_def by blast
  have db: "w_db (ps_world t) = ctr_db upd (w_db w0) v0 (sent w0 t)"
    using inv unfolding par_inv_def by blast
  have "ps_world t = w0\<lparr>w_db := ctr_db upd (w_db w0) v0 (sent w0 t),
                         w_trace := w_trace w0 @ replicate (sent w0 t) (Sent c)\<rparr>"
    using wt by (simp only: db [symmetric])
  moreover have "par_failures t = []"
    using fins by (auto simp: par_failures_def split: wphase.splits)
  ultimately show ?thesis using k by (simp add: ctr_db_def)
qed

lemma run_parallel_counter:
  assumes run: "run_parallel bN grain W psize c w0 (msgs, w')"
    and cc: "counter_cmd c view upd" and v0: "view (w_db w0) = Some v0"
    and range: "sint v0 + int bN \<le> LLONG_MAX" and g: "0 < grain" and p: "0 < psize" and W: "0 < W"
  shows "msgs = [] \<and>
         w' = w0\<lparr>w_db := (if bN = 0 then w_db w0 else upd (v0 + word_of_nat bN) (w_db w0)),
                 w_trace := w_trace w0 @ replicate bN (Sent c)\<rparr>"
  using run
proof cases
  case zero
  then show ?thesis by simp
next
  case (run t)
  then show ?thesis using parallel_counter_final [OF cc v0 range g p W] by simp
qed

text \<open>
  C16: every state the parallel run reaches satisfies the run invariant: the
  commands executed so far are the counter's increments in order, they and
  the iterations the workers still owe add up to what \<open>pb.Next\<close> handed
  out, no worker has failed, and the pool holds at most its size in idle
  connections.
\<close>

theorem par_inv_reachable:
  assumes "counter_cmd c view upd" and "view (w_db w0) = Some v0"
    and "sint v0 + int bN \<le> LLONG_MAX" and "0 < grain" and "0 < psize"
    and "(par_step bN grain psize c)\<^sup>*\<^sup>* (par_init W psize w0) s"
  shows "par_inv bN psize c upd w0 v0 s"
  using par_inv_reach [OF assms(6,1-5)] .

theorem par_inv_reachable_witness:
  "counter_cmd (INCR ''k'') (key_view ''k'') (key_upd ''k'') \<and> key_view ''k'' (w_db \<lparr>w_db = Map.empty, w_up = [''127.0.0.1:6379''], w_cluster = False, w_trace = []\<rparr>) = Some 0 \<and>
   sint (0 :: i64) + int 3 \<le> LLONG_MAX \<and> (0::nat) < 1 \<and> (0::nat) < 1 \<and>
   (par_step 3 1 1 (INCR ''k''))\<^sup>*\<^sup>* (par_init 2 1 \<lparr>w_db = Map.empty, w_up = [''127.0.0.1:6379''], w_cluster = False, w_trace = []\<rparr>) (par_init 2 1 \<lparr>w_db = Map.empty, w_up = [''127.0.0.1:6379''], w_cluster = False, w_trace = []\<rparr>) \<and>
   par_inv 3 1 (INCR ''k'') (key_upd ''k'') \<lparr>w_db = Map.empty, w_up = [''127.0.0.1:6379''], w_cluster = False, w_trace = []\<rparr> 0 (par_init 2 1 \<lparr>w_db = Map.empty, w_up = [''127.0.0.1:6379''], w_cluster = False, w_trace = []\<rparr>)"
proof -
  have kv: "key_view ''k'' (w_db \<lparr>w_db = Map.empty, w_up = [''127.0.0.1:6379''], w_cluster = False, w_trace = []\<rparr>) = Some 0" by (simp add: key_view_def get_ll_def)
  show ?thesis
    using par_inv_reachable [OF counter_cmd_INCR kv _ _ _ rtranclp.rtrancl_refl, of 3 1 1 2] counter_cmd_INCR kv
    by simp
qed

lemma par_inv_acct: "par_inv bN psize c upd w0 v0 s \<Longrightarrow> acct_inv bN psize c w0 s"
  by (simp add: par_inv_def)

lemma acct_sent_le: "acct_inv bN psize c w0 s \<Longrightarrow> sent w0 s \<le> bN"
  unfolding acct_inv_def by linarith

lemma acct_trace:
  "acct_inv bN psize c w0 s \<Longrightarrow> w_trace (ps_world s) = w_trace w0 @ replicate (sent w0 s) (Sent c)"
proof -
  assume "acct_inv bN psize c w0 s"
  then have "ps_world s = w0\<lparr>w_db := w_db (ps_world s), w_trace := w_trace w0 @ replicate (sent w0 s) (Sent c)\<rparr>"
    unfolding acct_inv_def by blast
  then have "w_trace (ps_world s) =
      w_trace (w0\<lparr>w_db := w_db (ps_world s), w_trace := w_trace w0 @ replicate (sent w0 s) (Sent c)\<rparr>)"
    by (rule arg_cong)
  then show ?thesis by simp
qed

lemma par_step_sent:
  assumes "par_step bN grain psize c s t" and "acct_inv bN psize c w0 s"
  shows "sent w0 t = sent w0 s \<or> sent w0 t = Suc (sent w0 s)"
  using assms
proof (induction rule: par_step.induct)
  case (exec i s r w')
  then show ?case using acct_inv_exec_sent(2) [OF exec.prems exec.hyps(3)] by (simp add: sent_def)
qed (simp_all add: sent_def)

subsection \<open>Safety, bounds, equivalence and refinement\<close>

text \<open>
  C17: whatever the command, a parallel run never sends more than \<open>b.N\<close>
  commands: at every reachable state the trace is the initial one followed
  by at most \<open>b.N\<close> copies of the command, and the pool holds at most its
  size in idle connections.
\<close>

theorem par_sent_bound:
  assumes "(par_step bN grain psize c)\<^sup>*\<^sup>* (par_init W psize w0) s" and "0 < grain" and "0 < psize"
  shows "w_trace (ps_world s) = w_trace w0 @ replicate (sent w0 s) (Sent c) \<and> sent w0 s \<le> bN \<and>
         ps_idle s \<le> psize"
proof -
  have acct: "acct_inv bN psize c w0 s" using acct_inv_reach [OF assms] .
  then have "ps_idle s \<le> psize" by (simp add: acct_inv_def)
  with acct_trace [OF acct] acct_sent_le [OF acct] show ?thesis by blast
qed

text \<open>
  C6: running a counter in parallel is equivalent to running it in the
  serialized loop: every outcome of \<open>b.RunParallel\<close>, whatever the
  interleaving, the number of workers and the pool size, is the world the
  serialized \<open>for i < b.N\<close> loop produces from the same world, and no
  worker fails.
\<close>

theorem run_parallel_equiv_serial:
  assumes run: "run_parallel bN grain W psize c w (msgs, w')"
    and cc: "counter_cmd c view upd" and v0: "view (w_db w) = Some v0"
    and range: "sint v0 + int bN \<le> LLONG_MAX" and g: "0 < grain" and p: "0 < psize" and W: "0 < W"
  shows "serial_loop bN conn c w = (Inr (), w') \<and> msgs = []"
  using run_parallel_counter [OF run cc v0 range g p W] serial_loop_counter [OF cc v0 range, of conn]
  by simp

text \<open>
  C7: the parallel run refines the abstract counter \<open>ctr_spec\<close>.  The
  initial state is related to the counter's start value with no increment
  made, and every step of a reachable state either leaves the abstract
  state as it is or makes one abstract increment.
\<close>

theorem par_refines_counter:
  assumes reach: "(par_step bN grain psize c)\<^sup>*\<^sup>* (par_init W psize w0) s"
    and cc: "counter_cmd c view upd" and v0: "view (w_db w0) = Some v0"
    and range: "sint v0 + int bN \<le> LLONG_MAX" and g: "0 < grain" and p: "0 < psize"
    and step: "par_step bN grain psize c s t" and rel: "ctr_rel view w0 s a"
  shows "ctr_rel view w0 (par_init W psize w0) (v0, 0) \<and>
         (\<exists>a'. ctr_rel view w0 t a' \<and> (a' = a \<or> ctr_spec bN a a'))"
proof -
  have init: "ctr_rel view w0 (par_init W psize w0) (v0, 0)"
    using v0 by (simp add: ctr_rel_def par_init_def sent_def)
  have invs: "par_inv bN psize c upd w0 v0 s" using par_inv_reach [OF reach cc v0 range g p] .
  have invt: "par_inv bN psize c upd w0 v0 t" using par_inv_step [OF step cc v0 range g invs] .
  have viewof: "view (w_db (ps_world u)) = Some (v0 + word_of_nat (sent w0 u))"
    if "par_inv bN psize c upd w0 v0 u" for u
    using that ctr_db_view [OF cc v0] by (simp add: par_inv_def)
  have a: "a = (v0 + word_of_nat (sent w0 s), sent w0 s)"
    using rel viewof [OF invs] by (cases a) (simp add: ctr_rel_def)
  have relt: "ctr_rel view w0 t (v0 + word_of_nat (sent w0 t), sent w0 t)"
    using viewof [OF invt] by (simp add: ctr_rel_def)
  have le: "sent w0 t \<le> bN" using invt by (rule acct_sent_le [OF par_inv_acct])
  have "sent w0 t = sent w0 s \<or> sent w0 t = Suc (sent w0 s)"
    using par_step_sent [OF step par_inv_acct [OF invs]] .
  then have "(v0 + word_of_nat (sent w0 t), sent w0 t) = a \<or>
             ctr_spec bN a (v0 + word_of_nat (sent w0 t), sent w0 t)"
  proof
    assume "sent w0 t = sent w0 s"
    with a show ?thesis by simp
  next
    assume st: "sent w0 t = Suc (sent w0 s)"
    with le have "sent w0 s < bN" by simp
    then have "ctr_spec bN a (v0 + word_of_nat (sent w0 s) + 1, Suc (sent w0 s))"
      unfolding a by (rule ctr_spec.incr)
    with st show ?thesis by (simp add: ac_simps)
  qed
  with init relt show ?thesis by blast
qed

lemma worker_step_reach:
  "i < length (ps_workers s) \<Longrightarrow> \<not> wk_finished (wk_phase (ps_workers s ! i)) \<Longrightarrow>
   (par_step bN grain psize c)\<^sup>*\<^sup>* s0 s \<Longrightarrow> (par_step bN grain psize c)\<^sup>*\<^sup>* s0 (worker_step bN grain psize c s i)"
  by (rule rtranclp.rtrancl_into_rtrancl) (auto intro: worker_step_par_step)

lemma three_steps_reach:
  "(par_step 3 1 1 (INCR ''k''))\<^sup>*\<^sup>* (par_init 2 1 \<lparr>w_db = Map.empty, w_up = [''127.0.0.1:6379''], w_cluster = False, w_trace = []\<rparr>) (worker_step 3 1 1 (INCR ''k'') (worker_step 3 1 1 (INCR ''k'') (worker_step 3 1 1 (INCR ''k'') (par_init 2 1 \<lparr>w_db = Map.empty, w_up = [''127.0.0.1:6379''], w_cluster = False, w_trace = []\<rparr>) 0) 0) 0)"
  by (intro worker_step_reach) (simp_all add: worker_step_def pb_next_def par_init_def numeral_2_eq_2)

theorem par_sent_bound_witness:
  "(0::nat) < 1 \<and> (par_step 3 1 1 (INCR ''k''))\<^sup>*\<^sup>* (par_init 2 1 \<lparr>w_db = Map.empty, w_up = [''127.0.0.1:6379''], w_cluster = False, w_trace = []\<rparr>) (worker_step 3 1 1 (INCR ''k'') (worker_step 3 1 1 (INCR ''k'') (worker_step 3 1 1 (INCR ''k'') (par_init 2 1 \<lparr>w_db = Map.empty, w_up = [''127.0.0.1:6379''], w_cluster = False, w_trace = []\<rparr>) 0) 0) 0) \<and>
   w_trace (ps_world (worker_step 3 1 1 (INCR ''k'') (worker_step 3 1 1 (INCR ''k'') (worker_step 3 1 1 (INCR ''k'') (par_init 2 1 \<lparr>w_db = Map.empty, w_up = [''127.0.0.1:6379''], w_cluster = False, w_trace = []\<rparr>) 0) 0) 0)) = [Sent (INCR ''k'')] \<and> sent \<lparr>w_db = Map.empty, w_up = [''127.0.0.1:6379''], w_cluster = False, w_trace = []\<rparr> (worker_step 3 1 1 (INCR ''k'') (worker_step 3 1 1 (INCR ''k'') (worker_step 3 1 1 (INCR ''k'') (par_init 2 1 \<lparr>w_db = Map.empty, w_up = [''127.0.0.1:6379''], w_cluster = False, w_trace = []\<rparr>) 0) 0) 0) = 1"
  using par_sent_bound [OF three_steps_reach] three_steps_reach
  by (simp add: worker_step_def pb_next_def par_init_def numeral_2_eq_2 send_cmd_simps sent_def)

lemma empty_key_view: "key_view ''k'' (w_db \<lparr>w_db = Map.empty, w_up = [''127.0.0.1:6379''], w_cluster = False, w_trace = []\<rparr>) = Some 0"
  by (simp add: key_view_def get_ll_def)

lemma two_steps_reach:
  "(par_step 3 1 1 (INCR ''k''))\<^sup>*\<^sup>* (par_init 2 1 \<lparr>w_db = Map.empty, w_up = [''127.0.0.1:6379''], w_cluster = False, w_trace = []\<rparr>) (worker_step 3 1 1 (INCR ''k'') (worker_step 3 1 1 (INCR ''k'') (par_init 2 1 \<lparr>w_db = Map.empty, w_up = [''127.0.0.1:6379''], w_cluster = False, w_trace = []\<rparr>) 0) 0)"
  by (intro worker_step_reach) (simp_all add: worker_step_def pb_next_def par_init_def numeral_2_eq_2)

lemma exec_step:
  "par_step 3 1 1 (INCR ''k'') (worker_step 3 1 1 (INCR ''k'') (worker_step 3 1 1 (INCR ''k'') (par_init 2 1 \<lparr>w_db = Map.empty, w_up = [''127.0.0.1:6379''], w_cluster = False, w_trace = []\<rparr>) 0) 0) (worker_step 3 1 1 (INCR ''k'') (worker_step 3 1 1 (INCR ''k'') (worker_step 3 1 1 (INCR ''k'') (par_init 2 1 \<lparr>w_db = Map.empty, w_up = [''127.0.0.1:6379''], w_cluster = False, w_trace = []\<rparr>) 0) 0) 0)"
  by (rule worker_step_par_step) (simp_all add: worker_step_def pb_next_def par_init_def numeral_2_eq_2)

theorem par_refines_counter_witness:
  "(par_step 3 1 1 (INCR ''k''))\<^sup>*\<^sup>* (par_init 2 1 \<lparr>w_db = Map.empty, w_up = [''127.0.0.1:6379''], w_cluster = False, w_trace = []\<rparr>) (worker_step 3 1 1 (INCR ''k'') (worker_step 3 1 1 (INCR ''k'') (par_init 2 1 \<lparr>w_db = Map.empty, w_up = [''127.0.0.1:6379''], w_cluster = False, w_trace = []\<rparr>) 0) 0) \<and>
   par_step 3 1 1 (INCR ''k'') (worker_step 3 1 1 (INCR ''k'') (worker_step 3 1 1 (INCR ''k'') (par_init 2 1 \<lparr>w_db = Map.empty, w_up = [''127.0.0.1:6379''], w_cluster = False, w_trace = []\<rparr>) 0) 0) (worker_step 3 1 1 (INCR ''k'') (worker_step 3 1 1 (INCR ''k'') (worker_step 3 1 1 (INCR ''k'') (par_init 2 1 \<lparr>w_db = Map.empty, w_up = [''127.0.0.1:6379''], w_cluster = False, w_trace = []\<rparr>) 0) 0) 0) \<and>
   ctr_rel (key_view ''k'') \<lparr>w_db = Map.empty, w_up = [''127.0.0.1:6379''], w_cluster = False, w_trace = []\<rparr> (worker_step 3 1 1 (INCR ''k'') (worker_step 3 1 1 (INCR ''k'') (par_init 2 1 \<lparr>w_db = Map.empty, w_up = [''127.0.0.1:6379''], w_cluster = False, w_trace = []\<rparr>) 0) 0) (0, 0) \<and>
   (\<exists>a'. ctr_rel (key_view ''k'') \<lparr>w_db = Map.empty, w_up = [''127.0.0.1:6379''], w_cluster = False, w_trace = []\<rparr> (worker_step 3 1 1 (INCR ''k'') (worker_step 3 1 1 (INCR ''k'') (worker_step 3 1 1 (INCR ''k'') (par_init 2 1 \<lparr>w_db = Map.empty, w_up = [''127.0.0.1:6379''], w_cluster = False, w_trace = []\<rparr>) 0) 0) 0) a' \<and> (a' = (0, 0) \<or> ctr_spec 3 (0, 0) a'))"
proof -
  have rel: "ctr_rel (key_view ''k'') \<lparr>w_db = Map.empty, w_up = [''127.0.0.1:6379''], w_cluster = False, w_trace = []\<rparr> (worker_step 3 1 1 (INCR ''k'') (worker_step 3 1 1 (INCR ''k'') (par_init 2 1 \<lparr>w_db = Map.empty, w_up = [''127.0.0.1:6379''], w_cluster = False, w_trace = []\<rparr>) 0) 0) (0, 0)"
    by (simp add: ctr_rel_def key_view_def get_ll_def worker_step_def pb_next_def par_init_def
                  numeral_2_eq_2 sent_def)
  show ?thesis
    using par_refines_counter [OF two_steps_reach counter_cmd_INCR empty_key_view _ _ _ exec_step rel]
      two_steps_reach exec_step rel
    by simp
qed

theorem run_parallel_equiv_serial_witness:
  "\<exists>msgs w'. run_parallel 2 1 2 1 (INCR ''k'') \<lparr>w_db = Map.empty, w_up = [''127.0.0.1:6379''], w_cluster = False, w_trace = []\<rparr> (msgs, w') \<and>
     serial_loop 2 \<lparr>pool_network = ''tcp'', pool_addr = ''127.0.0.1:6379'', pool_size = 1\<rparr> (INCR ''k'') \<lparr>w_db = Map.empty, w_up = [''127.0.0.1:6379''], w_cluster = False, w_trace = []\<rparr> =
       (Inr (), w') \<and> msgs = []"
proof -
  obtain msgs w' where run: "run_parallel 2 1 2 1 (INCR ''k'') \<lparr>w_db = Map.empty, w_up = [''127.0.0.1:6379''], w_cluster = False, w_trace = []\<rparr> (msgs, w')"
    using run_parallel_exists [of 1 2 2 1 "INCR ''k''" "\<lparr>w_db = Map.empty, w_up = [''127.0.0.1:6379''], w_cluster = False, w_trace = []\<rparr>"] by fastforce
  show ?thesis
    using run_parallel_equiv_serial [OF run counter_cmd_INCR empty_key_view, of
        "\<lparr>pool_network = ''tcp'', pool_addr = ''127.0.0.1:6379'', pool_size = 1\<rparr>"] run
    by auto
qed

end
