(* ===== verification/ParallelErr.thy ===== *)
theory ParallelErr
  imports ParallelInv
begin

text \<open>
  The error path of \<open>b.RunParallel\<close> (main_test.go): a worker whose
  \<open>INCR\<close>/\<open>INCRBY\<close>/\<open>HINCRBY\<close> gets an error reply calls \<open>b.Fatalf\<close> and
  returns, while the other workers keep drawing iterations.  The error
  invariant \<open>err_inv\<close> holds on every reachable state of a run whose command
  the server always refuses: the keyspace is unchanged, each command sent
  has produced exactly one failure message, and while iterations are owed
  some worker is still active or has failed.  From it, the outcome of such
  a run (\<open>run_parallel_error\<close>).
\<close>

definition wk_fails :: "worker \<Rightarrow> string list" where
  "wk_fails wk = (case wk_phase wk of WFailed m \<Rightarrow> [m] | _ \<Rightarrow> [])"

definition err_inv :: "nat \<Rightarrow> world \<Rightarrow> string \<Rightarrow> pstate \<Rightarrow> bool" where
  "err_inv bN w0 e s \<longleftrightarrow>
     w_db (ps_world s) = w_db w0 \<and>
     length (par_failures s) = sent w0 s \<and>
     set (par_failures s) \<subseteq> {''Failed to execute the query. more info: '' @ e} \<and>
     (0 < min (ps_n s) bN \<longrightarrow>
        (\<exists>wk \<in> set (ps_workers s). wk_phase wk = WWant \<or> wk_phase wk = WHold \<or> (\<exists>m. wk_phase wk = WFailed m)))"

subsection \<open>Preservation of the error invariant\<close>

lemma par_failures_concat: "par_failures s = concat (map wk_fails (ps_workers s))"
  unfolding par_failures_def wk_fails_def ..

lemma err_inv_init: "err_inv bN w0 e (par_init W psize w0)"
  by (simp add: err_inv_def par_init_def sent_def par_failures_def)

lemma failures_update:
  assumes "i < length (ps_workers s)" and "wk_fails (ps_workers s ! i) = []"
  shows "length (concat (map wk_fails ((ps_workers s)[i := x]))) = length (par_failures s) + length (wk_fails x) \<and>
         set (concat (map wk_fails ((ps_workers s)[i := x]))) = set (par_failures s) \<union> set (wk_fails x)"
  using concat_map_update [OF assms(1), of wk_fails x] assms(2) by (auto simp: par_failures_concat)

lemma err_inv_workers:
  assumes inv: "err_inv bN w0 e s" and w: "ps_world t = ps_world s"
    and i: "i < length (ps_workers s)" and ws: "ps_workers t = (ps_workers s)[i := x]"
    and old: "wk_fails (ps_workers s ! i) = []" and new: "wk_fails x = []"
    and keep: "0 < min (ps_n t) bN \<Longrightarrow>
      (\<exists>wk \<in> set (ps_workers t). wk_phase wk = WWant \<or> wk_phase wk = WHold \<or> (\<exists>m. wk_phase wk = WFailed m))"
  shows "err_inv bN w0 e t"
proof -
  have "length (par_failures t) = length (par_failures s) \<and> set (par_failures t) = set (par_failures s)"
    using failures_update [OF i old, of x] ws new by (simp add: par_failures_concat)
  moreover have "sent w0 t = sent w0 s" using w by (simp add: sent_def)
  ultimately show ?thesis using inv w keep unfolding err_inv_def by simp
qed

lemma err_inv_step:
  assumes step: "par_step bN grain psize c s t"
    and ex: "exec_cmd c (w_db w0) = (ErrReply e, w_db w0)"
    and acct: "acct_inv bN psize c w0 s" and inv: "err_inv bN w0 e s"
  shows "err_inv bN w0 e t"
  using step acct inv
proof (induction rule: par_step.induct)
  case (next_true i s n' cache')
  show ?case
    by (rule err_inv_workers [OF next_true.prems(2) _ next_true.hyps(1), where x = "\<lparr>wk_phase = WWant, wk_cache = cache'\<rparr>"])
       (use next_true.hyps(1,2) in \<open>simp_all add: wk_fails_def witness_update\<close>)
next
  case (next_false i s n' cache')
  have n: "bN \<le> ps_n s" using pb_next_false [OF next_false.hyps(3)] by simp
  show ?case
  proof (rule err_inv_workers [OF next_false.prems(2) _ next_false.hyps(1),
                                where x = "\<lparr>wk_phase = WDone, wk_cache = cache'\<rparr>"])
    assume "0 < min (ps_n (s\<lparr>ps_n := n', ps_workers := (ps_workers s)[i := \<lparr>wk_phase = WDone, wk_cache = cache'\<rparr>]\<rparr>)) bN"
    with n have "0 < min (ps_n s) bN" by simp
    with next_false.prems(2) obtain wk where wk: "wk \<in> set (ps_workers s)"
      and ph: "wk_phase wk = WWant \<or> wk_phase wk = WHold \<or> (\<exists>m. wk_phase wk = WFailed m)"
      unfolding err_inv_def by blast
    with next_false.hyps(2) have "wk \<noteq> ps_workers s ! i" by auto
    with wk ph show "\<exists>wk \<in> set (ps_workers (s\<lparr>ps_n := n', ps_workers := (ps_workers s)[i := \<lparr>wk_phase = WDone, wk_cache = cache'\<rparr>]\<rparr>)).
          wk_phase wk = WWant \<or> wk_phase wk = WHold \<or> (\<exists>m. wk_phase wk = WFailed m)"
      by (auto intro: set_update_keep)
  qed (use next_false.hyps(2) in \<open>simp_all add: wk_fails_def\<close>)
next
  case (acquire i s)
  show ?case
    by (rule err_inv_workers [OF acquire.prems(2) _ acquire.hyps(1), where x = "(ps_workers s ! i)\<lparr>wk_phase := WHold\<rparr>"])
       (use acquire.hyps(1,2) in \<open>simp_all add: wk_fails_def witness_update\<close>)
next
  case (acquire_new i s)
  show ?case
    by (rule err_inv_workers [OF acquire_new.prems(2) _ acquire_new.hyps(1), where x = "(ps_workers s ! i)\<lparr>wk_phase := WHold\<rparr>"])
       (use acquire_new.hyps(1,2) in \<open>simp_all add: wk_fails_def witness_update\<close>)
next
  case (exec i s r w')
  let ?m = "''Failed to execute the query. more info: '' @ e"
  let ?new = "(ps_workers s ! i)\<lparr>wk_phase := WFailed ?m\<rparr>"
  have db: "w_db (ps_world s) = w_db w0" using exec.prems(2) by (simp add: err_inv_def)
  with ex exec.hyps(3) have r: "r = ErrReply e" and dbw: "w_db w' = w_db w0"
    by (auto simp: send_cmd_simps)
  have phase: "(case decode_int r of Inl err \<Rightarrow> WFailed (''Failed to execute the query. more info: '' @ err_text err)
                 | Inr _ \<Rightarrow> WNext) = WFailed ?m"
    using r by (simp add: decode_int_def)
  have len: "length (w_trace w') - length (w_trace w0) = Suc (sent w0 s)"
    using acct_inv_exec_sent(2) [OF exec.prems(1) exec.hyps(3)] .
  have old: "wk_fails (ps_workers s ! i) = []" using exec.hyps(2) by (simp add: wk_fails_def)
  have fl: "length (concat (map wk_fails ((ps_workers s)[i := ?new]))) = Suc (length (par_failures s)) \<and>
            set (concat (map wk_fails ((ps_workers s)[i := ?new]))) = insert ?m (set (par_failures s))"
    using failures_update [OF exec.hyps(1) old, of ?new] by (simp add: wk_fails_def)
  have mem: "?new \<in> set ((ps_workers s)[i := ?new])" using exec.hyps(1) by (simp add: set_update_memI)
  have ls: "length (par_failures s) = sent w0 s" and ss: "set (par_failures s) \<subseteq> {?m}"
    using exec.prems(2) by (simp_all add: err_inv_def)
  show ?case
    unfolding phase err_inv_def par_failures_concat [of "s\<lparr>ps_world := w', ps_idle := x, ps_workers := y\<rparr>" for x y]
  proof (intro conjI impI)
    show "length (concat (map wk_fails (ps_workers (s\<lparr>ps_world := w', ps_idle := if ps_idle s < psize then ps_idle s + 1 else ps_idle s,
            ps_workers := (ps_workers s)[i := ?new]\<rparr>)))) = sent w0 (s\<lparr>ps_world := w', ps_idle := if ps_idle s < psize then ps_idle s + 1 else ps_idle s,
            ps_workers := (ps_workers s)[i := ?new]\<rparr>)"
      using fl len ls by (simp add: sent_def)
    show "set (concat (map wk_fails (ps_workers (s\<lparr>ps_world := w', ps_idle := if ps_idle s < psize then ps_idle s + 1 else ps_idle s,
            ps_workers := (ps_workers s)[i := ?new]\<rparr>)))) \<subseteq> {?m}"
      using fl ss by simp
    show "\<exists>wk \<in> set (ps_workers (s\<lparr>ps_world := w', ps_idle := if ps_idle s < psize then ps_idle s + 1 else ps_idle s,
            ps_workers := (ps_workers s)[i := ?new]\<rparr>)). wk_phase wk = WWant \<or> wk_phase wk = WHold \<or> (\<exists>m. wk_phase wk = WFailed m)"
      using mem by force
  qed (use dbw in simp)
next
  case (fill s)
  then show ?case unfolding err_inv_def sent_def par_failures_def by simp
qed

lemma err_inv_reach:
  assumes run: "(par_step bN grain psize c)\<^sup>*\<^sup>* (par_init W psize w0) s"
    and ex: "exec_cmd c (w_db w0) = (ErrReply e, w_db w0)" and g: "0 < grain" and p: "0 < psize"
  shows "err_inv bN w0 e s"
  using run
proof (induction rule: rtranclp_induct)
  case base
  then show ?case by (rule err_inv_init)
next
  case (step s t)
  show ?case using err_inv_step [OF step.hyps(2) ex acct_inv_reach [OF step.hyps(1) g p] step.IH] .
qed

lemma wk_fails_le: "length (wk_fails wk) \<le> 1"
  by (simp add: wk_fails_def split: wphase.split)

lemma terminal_no_fail_done:
  assumes "par_terminal t" and "par_failures t = []" and "wk \<in> set (ps_workers t)"
  shows "wk_phase wk = WDone"
  using assms by (cases "wk_phase wk") (auto simp: par_terminal_def list_all_iff par_failures_def)

lemma par_error_final:
  assumes run: "(par_step bN grain psize c)\<^sup>*\<^sup>* (par_init W psize w0) t" and fin: "par_terminal t"
    and ex: "exec_cmd c (w_db w0) = (ErrReply e, w_db w0)" and g: "0 < grain" and p: "0 < psize" and W: "0 < W" and bN: "0 < bN"
  shows "ps_world t = w0\<lparr>w_trace := w_trace w0 @ replicate (length (par_failures t)) (Sent c)\<rparr> \<and>
         set (par_failures t) \<subseteq> {''Failed to execute the query. more info: '' @ e} \<and>
         length (par_failures t) \<le> W \<and> par_failures t \<noteq> []"
proof (intro conjI)
  have inv: "err_inv bN w0 e t" using err_inv_reach [OF run ex g p] .
  have acct: "acct_inv bN psize c w0 t" using acct_inv_reach [OF run g p] .
  have wt: "ps_world t = w0\<lparr>w_db := w_db (ps_world t), w_trace := w_trace w0 @ replicate (sent w0 t) (Sent c)\<rparr>"
    using acct unfolding acct_inv_def by blast
  have db: "w_db (ps_world t) = w_db w0" and len: "length (par_failures t) = sent w0 t"
    and keep: "0 < min (ps_n t) bN \<Longrightarrow>
      \<exists>wk \<in> set (ps_workers t). wk_phase wk = WWant \<or> wk_phase wk = WHold \<or> (\<exists>m. wk_phase wk = WFailed m)"
    using inv unfolding err_inv_def by blast+
  have "ps_world t = w0\<lparr>w_db := w_db w0, w_trace := w_trace w0 @ replicate (length (par_failures t)) (Sent c)\<rparr>"
    using wt by (simp only: db len)
  then show "ps_world t = w0\<lparr>w_trace := w_trace w0 @ replicate (length (par_failures t)) (Sent c)\<rparr>"
    by simp
  show "set (par_failures t) \<subseteq> {''Failed to execute the query. more info: '' @ e}"
    using inv unfolding err_inv_def by blast
  show "length (par_failures t) \<le> W"
    using length_concat_le [of wk_fails "ps_workers t", OF wk_fails_le] par_reach_length [OF run]
    by (simp add: par_failures_concat par_init_def)
  show "par_failures t \<noteq> []"
  proof
    assume nf: "par_failures t = []"
    obtain wk where wk: "wk \<in> set (ps_workers t)"
      using par_reach_workers_ne [OF run W] by (cases "ps_workers t") auto
    have "wk_phase wk = WDone" using terminal_no_fail_done [OF fin nf wk] .
    with acct wk have "bN \<le> ps_n t" by (simp add: acct_inv_def)
    with bN obtain wk' where wk': "wk' \<in> set (ps_workers t)"
      and ph: "wk_phase wk' = WWant \<or> wk_phase wk' = WHold \<or> (\<exists>m. wk_phase wk' = WFailed m)"
      using keep by auto
    from ph show False using terminal_no_fail_done [OF fin nf wk'] by auto
  qed
qed

text \<open>
  C12: a parallel run whose command the server refuses without changing
  the keyspace (\<open>exec_cmd c db = (ErrReply e, db)\<close>) leaves the keyspace as
  it was; every message it reports is the closure's \<open>b.Fatalf\<close> text for
  that reply, every worker reports at most one, each report stands for
  exactly one command sent, and it reports at least one exactly when
  \<open>b.N > 0\<close>.
\<close>

theorem run_parallel_error:
  assumes run: "run_parallel bN grain W psize c w0 (msgs, w')"
    and ex: "exec_cmd c (w_db w0) = (ErrReply e, w_db w0)"
    and g: "0 < grain" and p: "0 < psize" and W: "0 < W"
  shows "w' = w0\<lparr>w_trace := w_trace w0 @ replicate (length msgs) (Sent c)\<rparr> \<and>
         set msgs \<subseteq> {''Failed to execute the query. more info: '' @ e} \<and>
         length msgs \<le> W \<and> (msgs = [] \<longleftrightarrow> bN = 0)"
  using run
proof cases
  case zero
  then show ?thesis by simp
next
  case (run t)
  then show ?thesis using par_error_final [OF run(4) run(5) ex g p W run(3)] by simp
qed

theorem run_parallel_error_witness:
  "\<exists>msgs w'. run_parallel 1 1 1 1 (INCR ''k'') \<lparr>w_db = [''k'' \<mapsto> RHash []], w_up = [''127.0.0.1:6379''], w_cluster = False, w_trace = []\<rparr> (msgs, w') \<and>
     msgs = [''Failed to execute the query. more info: '' @ WRONGTYPE_ERR] \<and>
     w' = \<lparr>w_db = [''k'' \<mapsto> RHash []], w_up = [''127.0.0.1:6379''], w_cluster = False, w_trace = [Sent (INCR ''k'')]\<rparr>"
proof -
  obtain msgs w' where run: "run_parallel 1 1 1 1 (INCR ''k'') \<lparr>w_db = [''k'' \<mapsto> RHash []], w_up = [''127.0.0.1:6379''], w_cluster = False, w_trace = []\<rparr> (msgs, w')"
    using run_parallel_exists [of 1 1 1 1 "INCR ''k''" "\<lparr>w_db = [''k'' \<mapsto> RHash []], w_up = [''127.0.0.1:6379''], w_cluster = False, w_trace = []\<rparr>"] by fastforce
  have res: "w' = \<lparr>w_db = [''k'' \<mapsto> RHash []], w_up = [''127.0.0.1:6379''], w_cluster = False, w_trace = replicate (length msgs) (Sent (INCR ''k''))\<rparr> \<and>
      set msgs \<subseteq> {''Failed to execute the query. more info: '' @ WRONGTYPE_ERR} \<and> length msgs \<le> 1 \<and> msgs \<noteq> []"
    using run_parallel_error [where e = WRONGTYPE_ERR, OF run] by (simp add: incr_decr_def)
  then have "msgs = [''Failed to execute the query. more info: '' @ WRONGTYPE_ERR]"
    by (cases msgs) auto
  with run res show ?thesis by auto
qed

end
