(* ===== verification/ParallelOverflow.thy ===== *)
theory ParallelOverflow
  imports ParallelErr
begin

text \<open>
  A parallel run of a counter that overflows: the benchmarks'
  \<open>INCR\<close>/\<open>INCRBY\<close>/\<open>HINCRBY\<close> with increment 1 saturate at \<open>LLONG_MAX\<close>
  (\<open>sat_counter\<close>, Counter), after which the server refuses every further
  command with the overflow error and the worker that sent it ends in
  \<open>b.Fatalf\<close>.  The invariant \<open>sat_inv\<close> holds on every reachable state: of
  the commands sent so far, the first \<open>headroom v0\<close> (the distance from the
  counter's start value to \<open>LLONG_MAX\<close>) have each incremented it, and every
  later one has ended its worker with the overflow message.  It covers
  both the counter invariant of ParallelInv (no overflow, when the headroom
  is at least \<open>b.N\<close>) and the overflowing run.
\<close>

definition headroom :: "i64 \<Rightarrow> nat" where
  "headroom v0 = nat (LLONG_MAX - sint v0)"

definition sat_inv ::
  "nat \<Rightarrow> nat \<Rightarrow> cmd \<Rightarrow> (i64 \<Rightarrow> db \<Rightarrow> db) \<Rightarrow> world \<Rightarrow> i64 \<Rightarrow> string \<Rightarrow> pstate \<Rightarrow> bool" where
  "sat_inv bN psize c upd w0 v0 e s \<longleftrightarrow>
     acct_inv bN psize c w0 s \<and>
     w_db (ps_world s) = ctr_db upd (w_db w0) v0 (min (sent w0 s) (headroom v0)) \<and>
     length (par_failures s) = sent w0 s - headroom v0 \<and>
     set (par_failures s) \<subseteq> {''Failed to execute the query. more info: '' @ e}"

subsection \<open>The headroom of a 64-bit counter\<close>

lemma headroom_sint: "sint v0 + int (headroom v0) = LLONG_MAX"
  using sint_i64_bounds(2) [of v0] by (simp add: headroom_def)

lemma sint_below_headroom: "k \<le> headroom v0 \<Longrightarrow> sint (v0 + word_of_nat k) = sint v0 + int k"
  using headroom_sint [of v0] by (intro sint_add_nat_i64) linarith

lemma headroom_max: "sint (v0 + word_of_nat (headroom v0)) = LLONG_MAX"
  using sint_below_headroom [of "headroom v0" v0] headroom_sint [of v0] by simp

lemma headroom_less_iff: "headroom v0 < bN \<longleftrightarrow> LLONG_MAX < sint v0 + int bN"
proof -
  have "headroom v0 < bN \<longleftrightarrow> int (headroom v0) < int bN" by simp
  then show ?thesis using headroom_sint [of v0] by linarith
qed

subsection \<open>Preservation of the saturation invariant\<close>

lemma sat_inv_init: "0 < psize \<Longrightarrow> sat_inv bN psize c upd w0 v0 e (par_init W psize w0)"
  using acct_inv_init [of psize bN c w0 W]
  by (simp add: sat_inv_def par_init_def sent_def ctr_db_def par_failures_def)

lemma sat_inv_workers:
  assumes inv: "sat_inv bN psize c upd w0 v0 e s" and acct: "acct_inv bN psize c w0 t"
    and w: "ps_world t = ps_world s"
    and i: "i < length (ps_workers s)" and ws: "ps_workers t = (ps_workers s)[i := x]"
    and old: "wk_fails (ps_workers s ! i) = []" and new: "wk_fails x = []"
  shows "sat_inv bN psize c upd w0 v0 e t"
proof -
  have "length (par_failures t) = length (par_failures s) \<and> set (par_failures t) = set (par_failures s)"
    using failures_update [OF i old, of x] ws new by (simp add: par_failures_concat)
  moreover have "sent w0 t = sent w0 s" using w by (simp add: sent_def)
  ultimately show ?thesis using inv acct w unfolding sat_inv_def by simp
qed

lemma sat_inv_exec_result:
  assumes sc: "sat_counter c view upd e" and v0: "view (w_db w0) = Some v0"
    and db: "w_db (ps_world s) = ctr_db upd (w_db w0) v0 (min k (headroom v0))"
    and send: "send_cmd c (ps_world s) = (r, w')"
  shows "w_db w' = ctr_db upd (w_db w0) v0 (min (Suc k) (headroom v0)) \<and>
         (case decode_int r of
            Inl err \<Rightarrow> WFailed (''Failed to execute the query. more info: '' @ err_text err)
          | Inr _ \<Rightarrow> WNext) =
         (if k < headroom v0 then WNext else WFailed (''Failed to execute the query. more info: '' @ e))"
proof -
  let ?j = "min k (headroom v0)"
  have cc: "counter_cmd c view upd" using sc by (simp add: sat_counter_def)
  have vk: "view (w_db (ps_world s)) = Some (v0 + word_of_nat ?j)"
    using ctr_db_view [OF cc v0] db by simp
  have sk: "sint (v0 + word_of_nat ?j) = sint v0 + int ?j"
    by (rule sint_below_headroom) simp
  show ?thesis
  proof (cases "k < headroom v0")
    case True
    then have "sint (v0 + word_of_nat ?j) < LLONG_MAX" using sk headroom_sint [of v0] by simp
    then have "exec_cmd c (w_db (ps_world s)) =
                 (IntReply (v0 + word_of_nat ?j + 1), upd (v0 + word_of_nat ?j + 1) (w_db (ps_world s)))"
      using cc vk by (intro counter_cmd_step)
    with send have r: "r = IntReply (v0 + word_of_nat ?j + 1)"
      and dbw: "w_db w' = upd (v0 + word_of_nat ?j + 1) (w_db (ps_world s))"
      by (auto simp: send_cmd_simps)
    have "w_db w' = ctr_db upd (w_db w0) v0 (Suc k)"
      using dbw db ctr_db_Suc [OF cc] True by simp
    with True r show ?thesis by (simp add: decode_int_def)
  next
    case False
    then have "sint (v0 + word_of_nat ?j) = LLONG_MAX" using sk headroom_sint [of v0] by simp
    then have "exec_cmd c (w_db (ps_world s)) = (ErrReply e, w_db (ps_world s))"
      using sc vk by (intro sat_counter_max)
    with send have "r = ErrReply e" and "w_db w' = w_db (ps_world s)"
      by (auto simp: send_cmd_simps)
    with False db show ?thesis by (simp add: decode_int_def)
  qed
qed

lemma sat_inv_step:
  assumes step: "par_step bN grain psize c s t" and sc: "sat_counter c view upd e"
    and v0: "view (w_db w0) = Some v0" and g: "0 < grain"
    and inv: "sat_inv bN psize c upd w0 v0 e s"
  shows "sat_inv bN psize c upd w0 v0 e t"
proof -
  have acct': "acct_inv bN psize c w0 t"
    using inv by (intro acct_inv_step [OF step g]) (simp add: sat_inv_def)
  show ?thesis using step inv acct'
  proof (induction rule: par_step.induct)
    case (next_true i s n' cache')
    show ?case
      by (rule sat_inv_workers [OF next_true.prems _ next_true.hyps(1), where x = "\<lparr>wk_phase = WWant, wk_cache = cache'\<rparr>"])
         (use next_true.hyps(2) in \<open>simp_all add: wk_fails_def\<close>)
  next
    case (next_false i s n' cache')
    show ?case
      by (rule sat_inv_workers [OF next_false.prems _ next_false.hyps(1), where x = "\<lparr>wk_phase = WDone, wk_cache = cache'\<rparr>"])
         (use next_false.hyps(2) in \<open>simp_all add: wk_fails_def\<close>)
  next
    case (acquire i s)
    show ?case
      by (rule sat_inv_workers [OF acquire.prems _ acquire.hyps(1), where x = "(ps_workers s ! i)\<lparr>wk_phase := WHold\<rparr>"])
         (use acquire.hyps(2) in \<open>simp_all add: wk_fails_def\<close>)
  next
    case (acquire_new i s)
    show ?case
      by (rule sat_inv_workers [OF acquire_new.prems _ acquire_new.hyps(1), where x = "(ps_workers s ! i)\<lparr>wk_phase := WHold\<rparr>"])
         (use acquire_new.hyps(2) in \<open>simp_all add: wk_fails_def\<close>)
  next
    case (exec i s r w')
    let ?k = "sent w0 s" and ?m = "''Failed to execute the query. more info: '' @ e"
    let ?P = "if ?k < headroom v0 then WNext else WFailed ?m"
    let ?new = "(ps_workers s ! i)\<lparr>wk_phase := ?P\<rparr>"
    have db: "w_db (ps_world s) = ctr_db upd (w_db w0) v0 (min ?k (headroom v0))"
      and fl: "length (par_failures s) = ?k - headroom v0" and fs: "set (par_failures s) \<subseteq> {?m}"
      and acct: "acct_inv bN psize c w0 s"
      using exec.prems(1) by (simp_all add: sat_inv_def)
    have res: "w_db w' = ctr_db upd (w_db w0) v0 (min (Suc ?k) (headroom v0)) \<and>
        (case decode_int r of
           Inl err \<Rightarrow> WFailed (''Failed to execute the query. more info: '' @ err_text err)
         | Inr _ \<Rightarrow> WNext) = ?P"
      using sat_inv_exec_result [OF sc v0 db exec.hyps(3)] .
    have len: "length (w_trace w') - length (w_trace w0) = Suc ?k"
      using acct_inv_exec_sent(2) [OF acct exec.hyps(3)] .
    have old: "wk_fails (ps_workers s ! i) = []" using exec.hyps(2) by (simp add: wk_fails_def)
    have F: "length (concat (map wk_fails ((ps_workers s)[i := ?new]))) = Suc ?k - headroom v0 \<and>
          set (concat (map wk_fails ((ps_workers s)[i := ?new]))) \<subseteq> {?m}"
      using failures_update [OF exec.hyps(1) old, of ?new] fl fs by (auto simp: wk_fails_def)
    have ph: "(case decode_int r of
           Inl err \<Rightarrow> WFailed (''Failed to execute the query. more info: '' @ err_text err)
         | Inr _ \<Rightarrow> WNext) = ?P"
      using res by blast
    show ?case
      unfolding ph sat_inv_def
    proof (intro conjI)
      show "acct_inv bN psize c w0 (s\<lparr>ps_world := w', ps_idle := if ps_idle s < psize then ps_idle s + 1 else ps_idle s,
              ps_workers := (ps_workers s)[i := ?new]\<rparr>)"
        using exec.prems(2) unfolding ph .
    qed (use res len F in \<open>simp_all add: sent_def par_failures_concat split del: if_split\<close>)
  next
    case (fill s)
    then show ?case unfolding sat_inv_def sent_def par_failures_def by simp
  qed
qed

lemma sat_inv_reach:
  assumes run: "(par_step bN grain psize c)\<^sup>*\<^sup>* (par_init W psize w0) s"
    and sc: "sat_counter c view upd e" and v0: "view (w_db w0) = Some v0"
    and g: "0 < grain" and p: "0 < psize"
  shows "sat_inv bN psize c upd w0 v0 e s"
  using run
proof (induction rule: rtranclp_induct)
  case base
  then show ?case using sat_inv_init [OF p] .
next
  case (step s t)
  then show ?case using sat_inv_step [OF _ sc v0 g] by blast
qed

lemma par_overflow_final:
  assumes run: "(par_step bN grain psize c)\<^sup>*\<^sup>* (par_init W psize w0) t" and fin: "par_terminal t"
    and sc: "sat_counter c view upd e" and v0: "view (w_db w0) = Some v0"
    and over: "headroom v0 < bN" and g: "0 < grain" and p: "0 < psize" and W: "0 < W"
  shows "ps_world t = w0\<lparr>w_db := ctr_db upd (w_db w0) v0 (headroom v0),
                         w_trace := w_trace w0 @ replicate (headroom v0 + length (par_failures t)) (Sent c)\<rparr> \<and>
         set (par_failures t) \<subseteq> {''Failed to execute the query. more info: '' @ e} \<and>
         0 < length (par_failures t) \<and> length (par_failures t) \<le> W"
proof -
  have inv: "sat_inv bN psize c upd w0 v0 e t" using sat_inv_reach [OF run sc v0 g p] .
  then have acct: "acct_inv bN psize c w0 t"
    and db: "w_db (ps_world t) = ctr_db upd (w_db w0) v0 (min (sent w0 t) (headroom v0))"
    and len: "length (par_failures t) = sent w0 t - headroom v0"
    and fs: "set (par_failures t) \<subseteq> {''Failed to execute the query. more info: '' @ e}"
    unfolding sat_inv_def by blast+
  have ne: "par_failures t \<noteq> []"
  proof
    assume nf: "par_failures t = []"
    then have fins: "\<forall>wk \<in> set (ps_workers t). wk_phase wk = WDone \<and> wk_cache wk = 0 \<and> bN \<le> ps_n t"
      using terminal_no_fail_done [OF fin nf] acct by (simp add: acct_inv_def)
    obtain wk where "wk \<in> set (ps_workers t)"
      using par_reach_workers_ne [OF run W] by (cases "ps_workers t") auto
    with fins have n: "bN \<le> ps_n t" by blast
    from fins have "sum_list (map pending (ps_workers t)) = 0"
      by (simp add: sum_list_eq_0_iff)
    with acct n have "sent w0 t = bN" by (simp add: acct_inv_def)
    with len over nf show False by simp
  qed
  then have "0 < length (par_failures t)" by simp
  with len have sent: "sent w0 t = headroom v0 + length (par_failures t)" by arith
  have wt: "ps_world t = w0\<lparr>w_db := w_db (ps_world t), w_trace := w_trace w0 @ replicate (sent w0 t) (Sent c)\<rparr>"
    using acct unfolding acct_inv_def by blast
  have "ps_world t = w0\<lparr>w_db := ctr_db upd (w_db w0) v0 (min (sent w0 t) (headroom v0)),
                         w_trace := w_trace w0 @ replicate (sent w0 t) (Sent c)\<rparr>"
    using wt by (simp only: db [symmetric])
  then have "ps_world t = w0\<lparr>w_db := ctr_db upd (w_db w0) v0 (headroom v0),
                         w_trace := w_trace w0 @ replicate (headroom v0 + length (par_failures t)) (Sent c)\<rparr>"
    by (simp only: sent) simp
  moreover have "length (par_failures t) \<le> W"
    using length_concat_le [of wk_fails "ps_workers t", OF wk_fails_le] par_reach_length [OF run]
    by (simp add: par_failures_concat par_init_def)
  ultimately show ?thesis using fs ne by simp
qed

text \<open>
  C13: a parallel run of a saturating counter whose start value plus \<open>b.N\<close>
  exceeds \<open>LLONG_MAX\<close> under every interleaving: the counter ends at
  \<open>LLONG_MAX\<close> after exactly \<open>headroom v0\<close> successful increments, and some
  \<open>k\<close> workers, at least one and at most one per worker, end in \<open>b.Fatalf\<close>
  with the overflow message, each after one refused command.
\<close>

theorem run_parallel_overflow:
  assumes run: "run_parallel bN grain W psize c w0 (msgs, w')"
    and sc: "sat_counter c view upd e" and v0: "view (w_db w0) = Some v0"
    and over: "LLONG_MAX < sint v0 + int bN" and g: "0 < grain" and p: "0 < psize" and W: "0 < W"
  shows "\<exists>k. 0 < k \<and> k \<le> W \<and>
           msgs = replicate k (''Failed to execute the query. more info: '' @ e) \<and>
           w' = w0\<lparr>w_db := ctr_db upd (w_db w0) v0 (headroom v0),
                   w_trace := w_trace w0 @ replicate (headroom v0 + k) (Sent c)\<rparr> \<and>
           (\<exists>v. view (w_db w') = Some v \<and> sint v = LLONG_MAX)"
proof -
  have hb: "headroom v0 < bN" using over by (simp add: headroom_less_iff)
  have cc: "counter_cmd c view upd" using sc by (simp add: sat_counter_def)
  have view: "view (ctr_db upd (w_db w0) v0 (headroom v0)) = Some (v0 + word_of_nat (headroom v0))"
    using ctr_db_view [OF cc v0] .
  from run show ?thesis
  proof cases
    case zero
    with hb show ?thesis by simp
  next
    case (run t)
    then have fin: "ps_world t = w0\<lparr>w_db := ctr_db upd (w_db w0) v0 (headroom v0),
                         w_trace := w_trace w0 @ replicate (headroom v0 + length msgs) (Sent c)\<rparr> \<and>
         set msgs \<subseteq> {''Failed to execute the query. more info: '' @ e} \<and> 0 < length msgs \<and> length msgs \<le> W"
      using par_overflow_final [OF run(4) run(5) sc v0 hb g p W] by simp
    then have "msgs = replicate (length msgs) (''Failed to execute the query. more info: '' @ e)"
      by (blast intro: replicate_set_single)
    with fin run(2) view headroom_max [of v0] show ?thesis
      by (intro exI [of _ "length msgs"]) auto
  qed
qed

theorem run_parallel_overflow_witness:
  "\<exists>msgs w'. run_parallel 2 1 1 1 (INCR ''k'')
       \<lparr>w_db = [''k'' \<mapsto> RString (ll2string 9223372036854775806)], w_up = [''127.0.0.1:6379''], w_cluster = False, w_trace = []\<rparr> (msgs, w') \<and>
     msgs = [''Failed to execute the query. more info: '' @ OVERFLOW_ERR] \<and>
     w_trace w' = [Sent (INCR ''k''), Sent (INCR ''k'')]"
proof -
  let ?w = "\<lparr>w_db = [''k'' \<mapsto> RString (ll2string 9223372036854775806)], w_up = [''127.0.0.1:6379''], w_cluster = False, w_trace = []\<rparr>"
  have v0: "key_view ''k'' (w_db ?w) = Some 9223372036854775806"
    by (simp add: key_view_def get_ll_def string2ll_ll2string)
  have over: "LLONG_MAX < sint (9223372036854775806 :: i64) + int 2" by simp
  have hd: "headroom 9223372036854775806 = 1" by (simp add: headroom_def)
  obtain msgs w' where run: "run_parallel 2 1 1 1 (INCR ''k'') ?w (msgs, w')"
    using run_parallel_exists [of 1 2 1 1 "INCR ''k''" ?w] by (metis surj_pair zero_less_one)
  from run_parallel_overflow [OF run sat_counter_INCR v0 over zero_less_one zero_less_one zero_less_one]
  obtain k where K: "0 < k \<and> k \<le> 1 \<and>
           msgs = replicate k (''Failed to execute the query. more info: '' @ OVERFLOW_ERR) \<and>
           w' = ?w\<lparr>w_db := ctr_db (key_upd ''k'') (w_db ?w) 9223372036854775806 (headroom 9223372036854775806),
                   w_trace := w_trace ?w @ replicate (headroom 9223372036854775806 + k) (Sent (INCR ''k''))\<rparr> \<and>
           (\<exists>v. key_view ''k'' (w_db w') = Some v \<and> sint v = LLONG_MAX)" ..
  then have k1: "k = 1" by linarith
  have m: "msgs = [''Failed to execute the query. more info: '' @ OVERFLOW_ERR]"
    and tr: "w_trace w' = [Sent (INCR ''k''), Sent (INCR ''k'')]"
    using K hd k1 by (simp_all add: numeral_2_eq_2)
  from run m tr show ?thesis by blast
qed


end
