(* ===== verification/ParallelBench.thy ===== *)
theory ParallelBench
  imports ParallelOverflow
begin

text \<open>
  The three parallel benchmarks of src/main_test.go
  (\<open>BenchmarkINCRKeyInParallelSystem\<close>, \<open>BenchmarkINCRBYKeyInParallelSystem\<close>,
  \<open>BenchmarkINCRHashInParallelSystem\<close>).  Each connects, resets the timer,
  runs its closure through \<open>b.RunParallel\<close> (the step relation of
  ParallelRun), stops the timer, logs the value it reads back and deletes
  the key.  The two key benchmarks use a pool of 1 and do not delete the key
  before the timed run; the hash benchmark uses a pool of 10 and deletes the
  field first.  Since the interleaving of the workers is the scheduler's
  choice, a benchmark is a relation between its inputs and its outcomes:
  the result of the function (a \<open>panic\<close> or \<open>b.Fatalf\<close> of the benchmark
  goroutine, or normal return), the \<open>b.Fatalf\<close> messages of the workers
  (a worker's \<open>b.Fatalf\<close> ends only that worker), and the final world.
\<close>

text \<open>
  A parallel benchmark on a plain key: \<open>ConnectToSingleNode(transport, address[0], 1)\<close>,
  \<open>b.ResetTimer()\<close>, \<open>b.RunParallel\<close> with the closure sending \<open>c\<close>, then
  the teardown.  There is no \<open>RemoveKey\<close> before the run.
\<close>

inductive par_key_bench ::
  "cmd \<Rightarrow> key \<Rightarrow> nat \<Rightarrow> nat \<Rightarrow> nat \<Rightarrow> world \<Rightarrow> (stop + unit) \<times> string list \<times> world \<Rightarrow> bool"
  for c :: cmd and key :: key and bN :: nat and grain :: nat and W :: nat
where
  conn_err:
    "ConnectToSingleNode test_transport (test_address ! 0) 1 w = Inl err \<Longrightarrow>
     par_key_bench c key bN grain W w (Inl (Fatal (''Connection error occured. More info: '' @ err)), [], w)"
| ran:
    "ConnectToSingleNode test_transport (test_address ! 0) 1 w = Inr conn \<Longrightarrow>
     run_parallel bN grain W 1 c (emit TimerReset w) (msgs, w2) \<Longrightarrow>
     key_teardown conn key w2 = (res, w4) \<Longrightarrow>
     par_key_bench c key bN grain W w (res, msgs, w4)"

definition BenchmarkINCRKeyInParallelSystem ::
  "nat \<Rightarrow> nat \<Rightarrow> nat \<Rightarrow> 32 word \<Rightarrow> world \<Rightarrow> (stop + unit) \<times> string list \<times> world \<Rightarrow> bool" where
  "BenchmarkINCRKeyInParallelSystem bN grain W r w res \<longleftrightarrow>
     (let key = bench_user_key r in par_key_bench (INCR key) key bN grain W w res)"

definition BenchmarkINCRBYKeyInParallelSystem ::
  "nat \<Rightarrow> nat \<Rightarrow> nat \<Rightarrow> 32 word \<Rightarrow> world \<Rightarrow> (stop + unit) \<times> string list \<times> world \<Rightarrow> bool" where
  "BenchmarkINCRBYKeyInParallelSystem bN grain W r w res \<longleftrightarrow>
     (let key = bench_user_key r in par_key_bench (INCRBY key ''1'') key bN grain W w res)"

text \<open>
  \<open>BenchmarkINCRHashInParallelSystem\<close>: \<open>ConnectToSingleNode(transport, address[0], 10)\<close>,
  \<open>RemoveHKey(conn, "manjinder", "complaints")\<close>, \<open>b.ResetTimer()\<close>,
  \<open>b.RunParallel\<close> with the closure sending HINCRBY, then the teardown.
\<close>

inductive BenchmarkINCRHashInParallelSystem ::
  "nat \<Rightarrow> nat \<Rightarrow> nat \<Rightarrow> world \<Rightarrow> (stop + unit) \<times> string list \<times> world \<Rightarrow> bool"
  for bN :: nat and grain :: nat and W :: nat
where
  conn_err:
    "ConnectToSingleNode test_transport (test_address ! 0) 10 w = Inl err \<Longrightarrow>
     BenchmarkINCRHashInParallelSystem bN grain W w
       (Inl (Fatal (''Connection error occured. More info: '' @ err)), [], w)"
| reset_panic:
    "ConnectToSingleNode test_transport (test_address ! 0) 10 w = Inr conn \<Longrightarrow>
     RemoveHKey conn ''manjinder'' ''complaints'' w = (Inl p, w1) \<Longrightarrow>
     BenchmarkINCRHashInParallelSystem bN grain W w (Inl p, [], w1)"
| ran:
    "ConnectToSingleNode test_transport (test_address ! 0) 10 w = Inr conn \<Longrightarrow>
     RemoveHKey conn ''manjinder'' ''complaints'' w = (Inr x, w1) \<Longrightarrow>
     run_parallel bN grain W 10 (HINCRBY ''manjinder'' ''complaints'' ''1'') (emit TimerReset w1) (msgs, w2) \<Longrightarrow>
     hash_teardown conn ''manjinder'' ''complaints'' w2 = (res, w4) \<Longrightarrow>
     BenchmarkINCRHashInParallelSystem bN grain W w (res, msgs, w4)"

subsection \<open>Runs of the key benchmarks\<close>

lemma par_key_bench_counter:
  assumes cc: "counter_cmd c (key_view key) (key_upd key)"
    and up: "''127.0.0.1:6379'' \<in> set (w_up w)" and v0: "key_view key (w_db w) = Some v0"
    and range: "sint v0 + int bN \<le> LLONG_MAX" and g: "0 < grain" and W: "0 < W"
    and bench: "par_key_bench c key bN grain W w res"
  shows "res = (Inr (), [], w\<lparr>w_db := (w_db w)(key := None),
                 w_trace := w_trace w @ TimerReset # replicate bN (Sent c) @
                   [TimerStop, Sent (GET key),
                    Logged (''Final value of the counter: '' @
                            (if bN = 0 then (case w_db w key of Some (RString s) \<Rightarrow> s | _ \<Rightarrow> [])
                             else ll2string (v0 + word_of_nat bN))),
                    Sent (DEL key)]\<rparr>)"
  using bench
proof cases
  case (conn_err err)
  with up show ?thesis by (simp add: connect_test_node)
next
  case (ran conn msgs w2 res' w4)
  have v0': "key_view key (w_db (emit TimerReset w)) = Some v0" using v0 by (simp add: emit_simps)
  have run: "msgs = [] \<and>
      w2 = (emit TimerReset w)\<lparr>w_db := (if bN = 0 then w_db (emit TimerReset w)
                                          else key_upd key (v0 + word_of_nat bN) (w_db (emit TimerReset w))),
                               w_trace := w_trace (emit TimerReset w) @ replicate bN (Sent c)\<rparr>"
    using run_parallel_counter [OF ran(3) cc v0' range g _ W] by simp
  have nohash: "\<forall>h. w_db w key \<noteq> Some (RHash h)"
    using v0 by (auto simp: key_view_def)
  show ?thesis
  proof (cases "bN = 0")
    case True
    with run ran(1,4) nohash show ?thesis by (simp add: key_teardown_eq emit_simps)
  next
    case False
    with run ran(1,4) show ?thesis by (simp add: key_teardown_eq emit_simps key_upd_def)
  qed
qed

lemma ctr_db_key_lookup:
  assumes "db key = Some (RString s0)" and "string2ll s0 = Some v0"
  shows "ctr_db (key_upd key) db v0 n key = Some (RString (ll2string (v0 + word_of_nat n)))"
  using assms ll2string_string2ll [OF assms(2)] by (simp add: ctr_db_def key_upd_def)

lemma ctr_db_key_del: "(ctr_db (key_upd key) db v0 n)(key := None) = db(key := None)"
  by (simp add: ctr_db_def key_upd_def)

subsection \<open>Runs of the hash benchmark\<close>

subsection \<open>Every run of a benchmark has an outcome\<close>

lemma par_key_bench_exists:
  assumes "0 < grain"
  shows "\<exists>res. par_key_bench c key bN grain W w res"
proof (cases "ConnectToSingleNode test_transport (test_address ! 0) 1 w")
  case (Inl err)
  then show ?thesis by (blast intro: par_key_bench.conn_err)
next
  case (Inr conn)
  obtain msgs w2 where "run_parallel bN grain W 1 c (emit TimerReset w) (msgs, w2)"
    using run_parallel_exists [OF assms] by fastforce
  with Inr show ?thesis
    by (meson par_key_bench.ran surj_pair)
qed

lemma hash_bench_exists:
  assumes "0 < grain"
  shows "\<exists>res. BenchmarkINCRHashInParallelSystem bN grain W w res"
proof (cases "ConnectToSingleNode test_transport (test_address ! 0) 10 w")
  case (Inl err)
  then show ?thesis by (blast intro: BenchmarkINCRHashInParallelSystem.conn_err)
next
  case (Inr conn)
  obtain rm w1 where rm: "RemoveHKey conn ''manjinder'' ''complaints'' w = (rm, w1)" by fastforce
  show ?thesis
  proof (cases rm)
    case (Inl p)
    with Inr rm show ?thesis by (blast intro: BenchmarkINCRHashInParallelSystem.reset_panic)
  next
    case (Inr x)
    have "\<exists>msgs w2. run_parallel bN grain W 10 c (emit TimerReset w1) (msgs, w2)" for c
      using run_parallel_exists [OF assms] by fastforce
    with \<open>ConnectToSingleNode test_transport (test_address ! 0) 10 w = Inr conn\<close> rm Inr show ?thesis
      by (meson BenchmarkINCRHashInParallelSystem.ran surj_pair)
  qed
qed

subsection \<open>The parallel benchmarks\<close>

text \<open>
  C14: each of the three parallel benchmarks has an outcome for every
  \<open>b.N\<close>, worker count and world: some interleaving of the workers
  reaches the state where all have returned, and the teardown runs.
\<close>

theorem parallel_benchmarks_finish:
  assumes "0 < grain"
  shows "(\<exists>res. BenchmarkINCRKeyInParallelSystem bN grain W r w res) \<and>
         (\<exists>res. BenchmarkINCRBYKeyInParallelSystem bN grain W r w res) \<and>
         (\<exists>res. BenchmarkINCRHashInParallelSystem bN grain W w res)"
  using par_key_bench_exists [OF assms] hash_bench_exists [OF assms]
  by (simp add: BenchmarkINCRKeyInParallelSystem_def BenchmarkINCRBYKeyInParallelSystem_def Let_def)

theorem parallel_benchmarks_finish_witness:
  "(0::nat) < 1 \<and>
   (\<exists>res. BenchmarkINCRKeyInParallelSystem 5 1 4 7 \<lparr>w_db = Map.empty, w_up = [''127.0.0.1:6379''], w_cluster = False, w_trace = []\<rparr> res) \<and>
   (\<exists>res. BenchmarkINCRBYKeyInParallelSystem 5 1 4 7 \<lparr>w_db = Map.empty, w_up = [''127.0.0.1:6379''], w_cluster = False, w_trace = []\<rparr> res) \<and>
   (\<exists>res. BenchmarkINCRHashInParallelSystem 5 1 4 \<lparr>w_db = Map.empty, w_up = [''127.0.0.1:6379''], w_cluster = False, w_trace = []\<rparr> res)"
  using parallel_benchmarks_finish [of 1 5 4 7 "\<lparr>w_db = Map.empty, w_up = [''127.0.0.1:6379''], w_cluster = False, w_trace = []\<rparr>"] by simp

text \<open>
  C1: the parallel INCR benchmark does not reset its key before the timed run:
  whatever integer the key already holds, every interleaving of the workers
  ends with the log line reporting that value plus \<open>b.N\<close>, no worker
  failing, the key deleted, and exactly \<open>b.N\<close> INCRs inside the timed
  window.
\<close>

theorem parallel_incr_bench_stale:
  assumes up: "''127.0.0.1:6379'' \<in> set (w_up w)"
    and old: "w_db w (bench_user_key r) = Some (RString s0)" and v0: "string2ll s0 = Some v0"
    and range: "sint v0 + int bN \<le> LLONG_MAX" and g: "0 < grain" and W: "0 < W"
    and bench: "BenchmarkINCRKeyInParallelSystem bN grain W r w res"
  shows "res = (Inr (), [], w\<lparr>w_db := (w_db w)(bench_user_key r := None),
                 w_trace := w_trace w @ TimerReset # replicate bN (Sent (INCR (bench_user_key r))) @
                   [TimerStop, Sent (GET (bench_user_key r)),
                    Logged (''Final value of the counter: '' @ ll2string (v0 + word_of_nat bN)),
                    Sent (DEL (bench_user_key r))]\<rparr>)"
proof -
  have kv: "key_view (bench_user_key r) (w_db w) = Some v0"
    using old v0 by (simp add: key_view_def get_ll_def)
  have s0: "s0 = ll2string v0" using ll2string_string2ll [OF v0] by simp
  have "par_key_bench (INCR (bench_user_key r)) (bench_user_key r) bN grain W w res"
    using bench by (simp add: BenchmarkINCRKeyInParallelSystem_def Let_def)
  from par_key_bench_counter [OF counter_cmd_INCR up kv range g W this]
  show ?thesis using old s0 by simp
qed

theorem parallel_incr_bench_stale_witness:
  "''127.0.0.1:6379'' \<in> set (w_up \<lparr>w_db = [bench_user_key 7 \<mapsto> RString ''5''], w_up = [''127.0.0.1:6379''], w_cluster = False, w_trace = []\<rparr>) \<and>
   string2ll ''5'' = Some 5 \<and> sint (5 :: i64) + int 2 \<le> LLONG_MAX \<and>
   BenchmarkINCRKeyInParallelSystem 2 1 2 7 \<lparr>w_db = [bench_user_key 7 \<mapsto> RString ''5''], w_up = [''127.0.0.1:6379''], w_cluster = False, w_trace = []\<rparr>
     (Inr (), [], \<lparr>w_db = Map.empty, w_up = [''127.0.0.1:6379''], w_cluster = False,
        w_trace = [TimerReset, Sent (INCR (bench_user_key 7)), Sent (INCR (bench_user_key 7)),
                   TimerStop, Sent (GET (bench_user_key 7)),
                   Logged ''Final value of the counter: 7'', Sent (DEL (bench_user_key 7))]\<rparr>)"
proof -
  let ?w = "\<lparr>w_db = [bench_user_key 7 \<mapsto> RString ''5''], w_up = [''127.0.0.1:6379''], w_cluster = False, w_trace = []\<rparr>"
  have s5: "string2ll ''5'' = Some 5"
    by (simp add: string2ll_def string2ll_digits_def is_digit_def digit_val_def)
  obtain res where b: "BenchmarkINCRKeyInParallelSystem 2 1 2 7 ?w res"
    using par_key_bench_exists [of 1 "INCR (bench_user_key 7)" "bench_user_key 7" 2 2 ?w]
    by (auto simp: BenchmarkINCRKeyInParallelSystem_def Let_def)
  have "res = (Inr (), [], ?w\<lparr>w_db := (w_db ?w)(bench_user_key 7 := None),
                 w_trace := w_trace ?w @ TimerReset # replicate 2 (Sent (INCR (bench_user_key 7))) @
                   [TimerStop, Sent (GET (bench_user_key 7)),
                    Logged (''Final value of the counter: '' @ ll2string (5 + word_of_nat 2)),
                    Sent (DEL (bench_user_key 7))]\<rparr>)"
    by (rule parallel_incr_bench_stale [OF _ _ s5 _ _ _ b]) simp_all
  with b s5 show ?thesis by (simp add: ll2string_def digit_char_simps numeral_2_eq_2)
qed

text \<open>
  C4: the parallel INCR benchmark on a key that holds a string that is not
  an integer: every worker's INCR is refused, and a worker's \<open>b.Fatalf\<close>
  ends only that worker, so the benchmark function itself returns normally.
  It reports one failure message for each worker that sent a command, at
  most one per worker and at least one when \<open>b.N > 0\<close>, logs the old string
  and deletes the key.
\<close>

theorem parallel_incr_bench_bad_value:
  assumes up: "''127.0.0.1:6379'' \<in> set (w_up w)"
    and old: "w_db w (bench_user_key r) = Some (RString s0)" and bad: "string2ll s0 = None"
    and g: "0 < grain" and W: "0 < W"
    and bench: "BenchmarkINCRKeyInParallelSystem bN grain W r w res"
  shows "\<exists>k. res = (Inr (), replicate k (''Failed to execute the query. more info: '' @ NOT_INTEGER_ERR),
                 w\<lparr>w_db := (w_db w)(bench_user_key r := None),
                   w_trace := w_trace w @ TimerReset # replicate k (Sent (INCR (bench_user_key r))) @
                     [TimerStop, Sent (GET (bench_user_key r)),
                      Logged (''Final value of the counter: '' @ s0), Sent (DEL (bench_user_key r))]\<rparr>) \<and>
             k \<le> W \<and> (k = 0 \<longleftrightarrow> bN = 0)"
proof -
  have "par_key_bench (INCR (bench_user_key r)) (bench_user_key r) bN grain W w res"
    using bench by (simp add: BenchmarkINCRKeyInParallelSystem_def Let_def)
  then show ?thesis
  proof cases
    case (conn_err err)
    with up show ?thesis by (simp add: connect_test_node)
  next
    case (ran conn msgs w2 res' w4)
    have ex: "exec_cmd (INCR (bench_user_key r)) (w_db (emit TimerReset w)) =
              (ErrReply NOT_INTEGER_ERR, w_db (emit TimerReset w))"
      using old bad by (simp add: emit_simps incr_decr_def get_ll_def)
    have run: "w2 = (emit TimerReset w)\<lparr>w_trace := w_trace (emit TimerReset w) @
                        replicate (length msgs) (Sent (INCR (bench_user_key r)))\<rparr> \<and>
               set msgs \<subseteq> {''Failed to execute the query. more info: '' @ NOT_INTEGER_ERR} \<and>
               length msgs \<le> W \<and> (msgs = [] \<longleftrightarrow> bN = 0)"
      using run_parallel_error [OF ran(3) ex g _ W] by simp
    then have msgs: "msgs = replicate (length msgs) (''Failed to execute the query. more info: '' @ NOT_INTEGER_ERR)"
      by (blast intro: replicate_set_single)
    have "\<forall>h. w_db w2 (bench_user_key r) \<noteq> Some (RHash h)" using run old by (simp add: emit_simps)
    with run ran(1,4) old have "res = (Inr (), msgs,
                 w\<lparr>w_db := (w_db w)(bench_user_key r := None),
                   w_trace := w_trace w @ TimerReset # replicate (length msgs) (Sent (INCR (bench_user_key r))) @
                     [TimerStop, Sent (GET (bench_user_key r)),
                      Logged (''Final value of the counter: '' @ s0), Sent (DEL (bench_user_key r))]\<rparr>)"
      by (simp add: key_teardown_eq emit_simps)
    with run msgs show ?thesis by (intro exI [of _ "length msgs"]) auto
  qed
qed

theorem parallel_incr_bench_bad_value_witness:
  "''127.0.0.1:6379'' \<in> set (w_up \<lparr>w_db = [bench_user_key 7 \<mapsto> RString ''x''], w_up = [''127.0.0.1:6379''], w_cluster = False, w_trace = []\<rparr>) \<and>
   string2ll ''x'' = None \<and>
   BenchmarkINCRKeyInParallelSystem 1 1 1 7 \<lparr>w_db = [bench_user_key 7 \<mapsto> RString ''x''], w_up = [''127.0.0.1:6379''], w_cluster = False, w_trace = []\<rparr>
     (Inr (), [''Failed to execute the query. more info: '' @ NOT_INTEGER_ERR],
      \<lparr>w_db = Map.empty, w_up = [''127.0.0.1:6379''], w_cluster = False,
        w_trace = [TimerReset, Sent (INCR (bench_user_key 7)), TimerStop, Sent (GET (bench_user_key 7)),
                   Logged ''Final value of the counter: x'', Sent (DEL (bench_user_key 7))]\<rparr>)"
proof -
  let ?w = "\<lparr>w_db = [bench_user_key 7 \<mapsto> RString ''x''], w_up = [''127.0.0.1:6379''], w_cluster = False, w_trace = []\<rparr>"
  have sx: "string2ll ''x'' = None"
    by (simp add: string2ll_def string2ll_digits_def is_digit_def digit_val_def)
  obtain res where b: "BenchmarkINCRKeyInParallelSystem 1 1 1 7 ?w res"
    using par_key_bench_exists [of 1 "INCR (bench_user_key 7)" "bench_user_key 7" 1 1 ?w]
    by (auto simp: BenchmarkINCRKeyInParallelSystem_def Let_def)
  obtain k where k: "res = (Inr (), replicate k (''Failed to execute the query. more info: '' @ NOT_INTEGER_ERR),
                 ?w\<lparr>w_db := (w_db ?w)(bench_user_key 7 := None),
                   w_trace := w_trace ?w @ TimerReset # replicate k (Sent (INCR (bench_user_key 7))) @
                     [TimerStop, Sent (GET (bench_user_key 7)),
                      Logged (''Final value of the counter: '' @ ''x''), Sent (DEL (bench_user_key 7))]\<rparr>)"
      and k1: "k \<le> 1" and k0: "k \<noteq> 0"
    using parallel_incr_bench_bad_value [OF _ _ sx _ _ b] by auto
  from k1 k0 have "k = 1" by simp
  with b k sx show ?thesis by simp
qed

text \<open>
  C5: the parallel INCR benchmark on a key whose integer value plus
  \<open>b.N\<close> exceeds \<open>LLONG_MAX\<close>, under every interleaving: the counter
  saturates at \<open>LLONG_MAX\<close> after exactly \<open>headroom v0\<close> increments, and
  between 1 and \<open>W\<close> workers end in \<open>b.Fatalf\<close> with the overflow error, each
  after one refused INCR.  The benchmark function itself returns
  normally, logs \<open>9223372036854775807\<close> and deletes the key.  The
  serialized benchmark deletes its key before timing, so it cannot overflow
  for any \<open>b.N\<close> a Go \<open>int\<close> holds (C8).
\<close>

theorem parallel_incr_bench_overflow:
  assumes up: "''127.0.0.1:6379'' \<in> set (w_up w)"
    and old: "w_db w (bench_user_key r) = Some (RString s0)" and v0: "string2ll s0 = Some v0"
    and over: "LLONG_MAX < sint v0 + int bN" and g: "0 < grain" and W: "0 < W"
    and bench: "BenchmarkINCRKeyInParallelSystem bN grain W r w res"
  shows "\<exists>k. 0 < k \<and> k \<le> W \<and>
           res = (Inr (), replicate k (''Failed to execute the query. more info: '' @ OVERFLOW_ERR),
                  w\<lparr>w_db := (w_db w)(bench_user_key r := None),
                    w_trace := w_trace w @ TimerReset #
                      replicate (headroom v0 + k) (Sent (INCR (bench_user_key r))) @
                      [TimerStop, Sent (GET (bench_user_key r)),
                       Logged ''Final value of the counter: 9223372036854775807'',
                       Sent (DEL (bench_user_key r))]\<rparr>)"
proof -
  let ?key = "bench_user_key r"
  have kv: "key_view ?key (w_db (emit TimerReset w)) = Some v0"
    using old v0 by (simp add: key_view_def get_ll_def emit_simps)
  have hw: "v0 + word_of_nat (headroom v0) = word_of_int LLONG_MAX"
    using headroom_max [of v0] by (rule max_i64_eq)
  have "par_key_bench (INCR ?key) ?key bN grain W w res"
    using bench by (simp add: BenchmarkINCRKeyInParallelSystem_def Let_def)
  then show ?thesis
  proof cases
    case (conn_err err)
    with up show ?thesis by (simp add: connect_test_node)
  next
    case (ran conn msgs w2 res' w4)
    from run_parallel_overflow [OF ran(3) sat_counter_INCR kv over g zero_less_one W]
    obtain k where k: "0 < k" "k \<le> W"
      and m: "msgs = replicate k (''Failed to execute the query. more info: '' @ OVERFLOW_ERR)"
      and w2: "w2 = (emit TimerReset w)\<lparr>w_db := ctr_db (key_upd ?key) (w_db (emit TimerReset w)) v0 (headroom v0),
                   w_trace := w_trace (emit TimerReset w) @ replicate (headroom v0 + k) (Sent (INCR ?key))\<rparr>"
      by blast
    have at: "w_db w2 ?key = Some (RString ''9223372036854775807'')"
      using ctr_db_key_lookup [of "w_db w" ?key s0 v0 "headroom v0", OF old v0] w2 hw
      by (simp add: emit_simps ll2string_max)
    then have "\<forall>h. w_db w2 ?key \<noteq> Some (RHash h)" by simp
    then have "key_teardown conn ?key w2 =
       (Inr (), w2\<lparr>w_db := (w_db w2)(?key := None),
                  w_trace := w_trace w2 @ [TimerStop, Sent (GET ?key),
                    Logged (''Final value of the counter: '' @ ''9223372036854775807''), Sent (DEL ?key)]\<rparr>)"
      using at by (simp add: key_teardown_eq)
    with ran(1,4) w2 m k show ?thesis
      by (intro exI [of _ k]) (simp add: emit_simps ctr_db_key_del)
  qed
qed

theorem parallel_incr_bench_overflow_witness:
  "\<exists>res. ''127.0.0.1:6379'' \<in> set (w_up \<lparr>w_db = [bench_user_key 7 \<mapsto> RString (ll2string 9223372036854775806)], w_up = [''127.0.0.1:6379''], w_cluster = False, w_trace = []\<rparr>) \<and>
     string2ll (ll2string 9223372036854775806) = Some 9223372036854775806 \<and>
     LLONG_MAX < sint (9223372036854775806 :: i64) + int 2 \<and>
     BenchmarkINCRKeyInParallelSystem 2 1 1 7 \<lparr>w_db = [bench_user_key 7 \<mapsto> RString (ll2string 9223372036854775806)], w_up = [''127.0.0.1:6379''], w_cluster = False, w_trace = []\<rparr> res \<and>
     res = (Inr (), [''Failed to execute the query. more info: '' @ OVERFLOW_ERR],
            \<lparr>w_db = Map.empty, w_up = [''127.0.0.1:6379''], w_cluster = False,
             w_trace = [TimerReset, Sent (INCR (bench_user_key 7)), Sent (INCR (bench_user_key 7)),
                        TimerStop, Sent (GET (bench_user_key 7)),
                        Logged ''Final value of the counter: 9223372036854775807'', Sent (DEL (bench_user_key 7))]\<rparr>)"
proof -
  let ?w = "\<lparr>w_db = [bench_user_key 7 \<mapsto> RString (ll2string 9223372036854775806)], w_up = [''127.0.0.1:6379''], w_cluster = False, w_trace = []\<rparr>"
  have up: "''127.0.0.1:6379'' \<in> set (w_up ?w)" by simp
  have old: "w_db ?w (bench_user_key 7) = Some (RString (ll2string 9223372036854775806))" by simp
  have v0: "string2ll (ll2string 9223372036854775806) = Some (9223372036854775806 :: i64)"
    by (rule string2ll_ll2string)
  have over: "LLONG_MAX < sint (9223372036854775806 :: i64) + int 2" by simp
  have hd: "headroom 9223372036854775806 = 1" by (simp add: headroom_def)
  obtain res where p: "par_key_bench (INCR (bench_user_key 7)) (bench_user_key 7) 2 1 1 ?w res"
    using par_key_bench_exists [of 1 "INCR (bench_user_key 7)" "bench_user_key 7" 2 1 ?w, OF zero_less_one] by blast
  then have b: "BenchmarkINCRKeyInParallelSystem 2 1 1 7 ?w res"
    by (simp only: BenchmarkINCRKeyInParallelSystem_def Let_def)
  from parallel_incr_bench_overflow [OF up old v0 over zero_less_one zero_less_one b]
  obtain k where K: "0 < k \<and> k \<le> 1 \<and>
           res = (Inr (), replicate k (''Failed to execute the query. more info: '' @ OVERFLOW_ERR),
                  ?w\<lparr>w_db := (w_db ?w)(bench_user_key 7 := None),
                    w_trace := w_trace ?w @ TimerReset #
                      replicate (headroom 9223372036854775806 + k) (Sent (INCR (bench_user_key 7))) @
                      [TimerStop, Sent (GET (bench_user_key 7)),
                       Logged ''Final value of the counter: 9223372036854775807'',
                       Sent (DEL (bench_user_key 7))]\<rparr>)" ..
  then have k1: "k = 1" by linarith
  have "res = (Inr (), [''Failed to execute the query. more info: '' @ OVERFLOW_ERR],
            \<lparr>w_db = Map.empty, w_up = [''127.0.0.1:6379''], w_cluster = False,
             w_trace = [TimerReset, Sent (INCR (bench_user_key 7)), Sent (INCR (bench_user_key 7)),
                        TimerStop, Sent (GET (bench_user_key 7)),
                        Logged ''Final value of the counter: 9223372036854775807'', Sent (DEL (bench_user_key 7))]\<rparr>)"
    using K k1 hd by simp
  with up v0 over b show ?thesis by blast
qed


text \<open>
  C3: the parallel INCRBY benchmark on a key that does not exist yet, under
  every interleaving: it logs \<open>b.N\<close> (the empty string for \<open>b.N = 0\<close>), no
  worker fails, and exactly \<open>b.N\<close> INCRBYs are sent.
\<close>

theorem parallel_incrby_bench:
  assumes up: "''127.0.0.1:6379'' \<in> set (w_up w)" and fresh: "w_db w (bench_user_key r) = None"
    and bN: "bN \<le> 2 ^ 63 - 1" and g: "0 < grain" and W: "0 < W"
    and bench: "BenchmarkINCRBYKeyInParallelSystem bN grain W r w res"
  shows "res = (Inr (), [], w\<lparr>w_trace := w_trace w @ TimerReset #
                   replicate bN (Sent (INCRBY (bench_user_key r) ''1'')) @
                   [TimerStop, Sent (GET (bench_user_key r)),
                    Logged (''Final value of the counter: '' @
                            (if bN = 0 then [] else ll2string (word_of_nat bN))),
                    Sent (DEL (bench_user_key r))]\<rparr>)"
proof -
  have kv: "key_view (bench_user_key r) (w_db w) = Some 0"
    using fresh by (simp add: key_view_def get_ll_def)
  have range: "sint (0 :: i64) + int bN \<le> LLONG_MAX" using bN by simp
  have "par_key_bench (INCRBY (bench_user_key r) ''1'') (bench_user_key r) bN grain W w res"
    using bench by (simp add: BenchmarkINCRBYKeyInParallelSystem_def Let_def)
  from par_key_bench_counter [OF counter_cmd_INCRBY up kv range g W this]
  show ?thesis using fresh by (simp add: fun_upd_idem)
qed

theorem parallel_incrby_bench_witness:
  "''127.0.0.1:6379'' \<in> set (w_up \<lparr>w_db = Map.empty, w_up = [''127.0.0.1:6379''], w_cluster = False, w_trace = []\<rparr>) \<and> w_db \<lparr>w_db = Map.empty, w_up = [''127.0.0.1:6379''], w_cluster = False, w_trace = []\<rparr> (bench_user_key 9) = None \<and>
   BenchmarkINCRBYKeyInParallelSystem 3 2 2 9 \<lparr>w_db = Map.empty, w_up = [''127.0.0.1:6379''], w_cluster = False, w_trace = []\<rparr>
     (Inr (), [], \<lparr>w_db = Map.empty, w_up = [''127.0.0.1:6379''], w_cluster = False,
        w_trace = TimerReset # replicate 3 (Sent (INCRBY (bench_user_key 9) ''1'')) @
                   [TimerStop, Sent (GET (bench_user_key 9)),
                    Logged ''Final value of the counter: 3'', Sent (DEL (bench_user_key 9))]\<rparr>)"
proof -
  let ?w = "\<lparr>w_db = Map.empty, w_up = [''127.0.0.1:6379''], w_cluster = False, w_trace = []\<rparr>"
  obtain res where b: "BenchmarkINCRBYKeyInParallelSystem 3 2 2 9 ?w res"
    using par_key_bench_exists [of 2 "INCRBY (bench_user_key 9) ''1''" "bench_user_key 9" 3 2 ?w]
    by (auto simp: BenchmarkINCRBYKeyInParallelSystem_def Let_def)
  have "res = (Inr (), [], ?w\<lparr>w_trace := w_trace ?w @ TimerReset #
                   replicate 3 (Sent (INCRBY (bench_user_key 9) ''1'')) @
                   [TimerStop, Sent (GET (bench_user_key 9)),
                    Logged (''Final value of the counter: '' @
                            (if (3::nat) = 0 then [] else ll2string (word_of_nat 3))),
                    Sent (DEL (bench_user_key 9))]\<rparr>)"
    by (rule parallel_incrby_bench [OF _ _ _ _ _ b]) simp_all
  with b show ?thesis by (simp add: ll2string_def digit_char_simps)
qed

text \<open>
  C2: the parallel HINCRBY benchmark, under every interleaving of its workers
  on the pool of 10: no worker fails, the log line reports \<open>b.N\<close>, the
  keyspace ends as its first HDEL left it, and the trace is HDEL, then
  \<open>b.N\<close> HINCRBYs inside the timed window, then HGET and HDEL.
\<close>

theorem parallel_hash_bench:
  assumes up: "''127.0.0.1:6379'' \<in> set (w_up w)" and wf: "db_wf (w_db w)"
    and ns: "\<forall>s. w_db w ''manjinder'' \<noteq> Some (RString s)"
    and bN: "bN \<le> 2 ^ 63 - 1" and g: "0 < grain" and W: "0 < W"
    and bench: "BenchmarkINCRHashInParallelSystem bN grain W w res"
  shows "res = (Inr (), [], w\<lparr>w_db := snd (exec_cmd (HDEL ''manjinder'' ''complaints'') (w_db w)),
                 w_trace := w_trace w @ [Sent (HDEL ''manjinder'' ''complaints''), TimerReset] @
                   replicate bN (Sent (HINCRBY ''manjinder'' ''complaints'' ''1'')) @
                   [TimerStop, Sent (HGET ''manjinder'' ''complaints''),
                    Logged (''Final value of the counter: '' @
                            (if bN = 0 then [] else ll2string (word_of_nat bN))),
                    Sent (HDEL ''manjinder'' ''complaints'')]\<rparr>)"
proof -
  let ?db1 = "snd (exec_cmd (HDEL ''manjinder'' ''complaints'') (w_db w))"
  let ?w1 = "w\<lparr>w_db := ?db1, w_trace := w_trace w @ [Sent (HDEL ''manjinder'' ''complaints'')]\<rparr>"
  obtain v where rm: "\<And>conn. RemoveHKey conn ''manjinder'' ''complaints'' w = (Inr v, ?w1)"
    using RemoveHKey_clear [OF wf ns] by (simp add: RemoveHKey_def do_str_simps) blast
  have clear: "field_clear ''manjinder'' ''complaints'' ?db1"
    using hdel_field_clear(2) [OF wf ns] .
  have v0: "field_view ''manjinder'' ''complaints'' (w_db (emit TimerReset ?w1)) = Some 0"
    using field_clear_view [OF clear] by (simp add: emit_simps)
  have range: "sint (0 :: i64) + int bN \<le> LLONG_MAX" using bN by simp
  show ?thesis
    using bench
  proof cases
    case (conn_err err)
    with up show ?thesis by (simp add: connect_test_node)
  next
    case (reset_panic conn p w1)
    with rm show ?thesis by simp
  next
    case (ran conn x w1 msgs w2 res' w4)
    have w1: "w1 = ?w1" using ran(3) rm by simp
    have run: "msgs = [] \<and>
        w2 = (emit TimerReset ?w1)\<lparr>w_db := (if bN = 0 then ?db1
                     else field_upd ''manjinder'' ''complaints'' (word_of_nat bN) ?db1),
                   w_trace := w_trace (emit TimerReset ?w1) @
                     replicate bN (Sent (HINCRBY ''manjinder'' ''complaints'' ''1''))\<rparr>"
      using run_parallel_counter [OF ran(4) [unfolded w1] counter_cmd_HINCRBY v0 range g _ W]
      by (simp add: emit_simps)
    show ?thesis
    proof (cases "bN = 0")
      case True
      with run ran(1,5) clear show ?thesis by (simp add: hash_teardown_clear emit_simps)
    next
      case False
      with run ran(1,5) clear show ?thesis by (simp add: hash_teardown_upd emit_simps)
    qed
  qed
qed

theorem parallel_hash_bench_witness:
  "''127.0.0.1:6379'' \<in> set (w_up \<lparr>w_db = [''manjinder'' \<mapsto> RHash [(''complaints'', ''41''), (''other'', ''1'')]], w_up = [''127.0.0.1:6379''], w_cluster = False, w_trace = []\<rparr>) \<and> db_wf (w_db \<lparr>w_db = [''manjinder'' \<mapsto> RHash [(''complaints'', ''41''), (''other'', ''1'')]], w_up = [''127.0.0.1:6379''], w_cluster = False, w_trace = []\<rparr>) \<and>
   BenchmarkINCRHashInParallelSystem 2 1 3 \<lparr>w_db = [''manjinder'' \<mapsto> RHash [(''complaints'', ''41''), (''other'', ''1'')]], w_up = [''127.0.0.1:6379''], w_cluster = False, w_trace = []\<rparr>
     (Inr (), [], \<lparr>w_db = [''manjinder'' \<mapsto> RHash [(''other'', ''1'')]], w_up = [''127.0.0.1:6379''], w_cluster = False,
        w_trace = [Sent (HDEL ''manjinder'' ''complaints''), TimerReset] @
                   replicate 2 (Sent (HINCRBY ''manjinder'' ''complaints'' ''1'')) @
                   [TimerStop, Sent (HGET ''manjinder'' ''complaints''),
                   Logged ''Final value of the counter: 2'', Sent (HDEL ''manjinder'' ''complaints'')]\<rparr>)"
proof -
  let ?w = "\<lparr>w_db = [''manjinder'' \<mapsto> RHash [(''complaints'', ''41''), (''other'', ''1'')]], w_up = [''127.0.0.1:6379''], w_cluster = False, w_trace = []\<rparr>"
  have wf: "db_wf (w_db ?w)" by (simp add: db_wf_def)
  obtain res where b: "BenchmarkINCRHashInParallelSystem 2 1 3 ?w res"
    using hash_bench_exists [of 1 2 3 ?w] by auto
  have "res = (Inr (), [], ?w\<lparr>w_db := snd (exec_cmd (HDEL ''manjinder'' ''complaints'') (w_db ?w)),
                 w_trace := w_trace ?w @ [Sent (HDEL ''manjinder'' ''complaints''), TimerReset] @
                   replicate 2 (Sent (HINCRBY ''manjinder'' ''complaints'' ''1'')) @
                   [TimerStop, Sent (HGET ''manjinder'' ''complaints''),
                    Logged (''Final value of the counter: '' @
                            (if (2::nat) = 0 then [] else ll2string (word_of_nat 2))),
                    Sent (HDEL ''manjinder'' ''complaints'')]\<rparr>)"
    by (rule parallel_hash_bench [OF _ wf _ _ _ _ b]) simp_all
  with b wf show ?thesis by (simp add: ll2string_def digit_char_simps)
qed

end
