(* ===== verification/Spec2Isabelle.thy ===== *)
theory Spec2Isabelle
  imports ParallelBench
begin

text \<open>
  \<^bold>\<open>A verification library for BenchmarkRedisWithGo.\<close>

  \<^medskip>\<^noindent>\<^emph>\<open>The program.\<close>  The repository is a Go benchmarking harness for
  Redis counters.  src/common/redisHelper.go opens a connection pool to one
  node (\<open>ConnectToSingleNode\<close>) or a cluster client (\<open>ConnectToCluster\<close>),
  wrapping the client library's error.  src/main.go connects once and
  prints the error.  src/main_test.go has four key helpers (\<open>GetKey\<close>,
  \<open>RemoveKey\<close>, \<open>GetHKey\<close>, \<open>RemoveHKey\<close>, which panic on an error) and six
  benchmarks: INCR, \<open>INCRBY key "1"\<close> and \<open>HINCRBY manjinder complaints "1"\<close>,
  each once in a serialized \<open>for i < b.N\<close> loop and once through
  \<open>b.RunParallel\<close>, where worker goroutines share one pool and draw
  iterations from \<open>testing.PB\<close>.  A benchmark connects, may delete its key,
  resets the timer, runs its increments, stops the timer, logs the value it
  reads back and deletes the key.

  \<^medskip>\<^noindent>\<^emph>\<open>The environment.\<close>  The program's behaviour depends on
  the Redis server, the radix (v3) client and Go's runtime and testing
  package.  None of it is repository code; it is modelled from its
  documented behaviour or its source, and no definition of it is claimed as
  a translation of the repository:
  \<^item> Int64Text: Redis's \<open>string2ll\<close>/\<open>ll2string\<close> (util.c) on 64-bit words, and
    their round trips \<open>string2ll_ll2string\<close> and \<open>ll2string_string2ll\<close>;
  \<^item> RedisServer: the keyspace (\<open>db\<close>, a map from keys to strings or
    association-list hashes), the commands and replies, \<open>exec_cmd\<close> with
    the 64-bit overflow check of \<open>incrDecrCommand\<close>/\<open>hincrbyCommand\<close>
    (\<open>incr_overflows\<close>), and keyspace well-formedness \<open>db_wf\<close>, which every
    command keeps;
  \<^item> RadixClient: the \<open>world\<close> record (keyspace \<open>w_db\<close>, endpoints that accept
    connections \<open>w_up\<close>, cluster mode \<open>w_cluster\<close>, and the trace \<open>w_trace\<close> of
    commands sent, timer events and log lines), Go's \<open>net.Dial\<close> address
    rules (\<open>go_dial\<close>), \<open>NewPool\<close>, \<open>NewCluster\<close>, and \<open>Pool.Do\<close> with reply
    decoding into a Go \<open>string\<close> or \<open>int\<close> (\<open>do_str\<close>, \<open>do_int\<close>);
  \<^item> TestHelpers: Go's \<open>string(int32)\<close> rune conversion (\<open>go_rune_string\<close>);
  \<^item> SerialBench and ParallelRun: \<open>b.ResetTimer\<close>, \<open>b.StopTimer\<close>, \<open>b.Logf\<close> as trace
    events (\<open>emit\<close>), and \<open>PB.Next\<close>'s batched iteration counter (\<open>pb_next\<close>).

  \<^medskip>\<^noindent>\<^emph>\<open>The model of the repository.\<close>  Go errors are values on the left of
  a sum; a \<open>panic\<close> or \<open>b.Fatalf\<close> is a value of \<open>stop\<close> and ends the function,
  returning the world as it is then.  Each operation takes the world and
  returns it updated.
  \<^item> Connection: \<open>ConnectToCluster\<close>, \<open>ConnectToSingleNode\<close> and \<open>main_go\<close>
    (redisHelper.go, main.go).
  \<^item> TestHelpers: \<open>GetKey\<close>, \<open>RemoveKey\<close>, \<open>GetHKey\<close>, \<open>RemoveHKey\<close> and the
    benchmark key \<open>bench_user_key\<close> (main_test.go 17-60).  It also holds a model of
    Go's UTF-8 decoder (\<open>utf8_decode\<close>), used to read the key's suffix back.
  \<^item> Counter: the interface between the benchmarks and the server.  A command
    is a counter (\<open>counter_cmd c view upd\<close>) if, on a keyspace whose view is
    \<open>v\<close>, it replies \<open>v + 1\<close> and stores that value with \<open>upd\<close>.  It
    saturates (\<open>sat_counter\<close>) if, on a view of \<open>LLONG_MAX\<close>, it is refused
    with a fixed error and leaves the keyspace as it was.  Both are
    discharged for the three commands the benchmarks send, and both
    benchmark drivers are proved once over the interface.
  \<^item> SerialBench: the timed loop \<open>serial_loop\<close>, the teardowns \<open>key_teardown\<close> and
    \<open>hash_teardown\<close> (\<open>b.StopTimer\<close>, the log line and the delete), and the three serialized benchmarks
    as functions of \<open>b.N\<close>, the \<open>rand.Int31()\<close> value and the world.
  \<^item> ParallelRun: \<open>b.RunParallel\<close> with the source's closure.  The state
    \<open>pstate\<close> holds:
    \<^item> the world;
    \<^item> \<open>PB\<close>'s shared counter \<open>globalN\<close> (\<open>ps_n\<close>);
    \<^item> the pool's idle connections, and those its filler goroutine still
      has to dial;
    \<^item> one record per worker: its phase and its cached iterations.
    \<open>par_step\<close> is one atomic action of one worker, so every interleaving
    is a sequence of steps.  The actions are:
    \<^item> \<open>pb.Next()\<close>;
    \<^item> taking an idle connection, or dialling one when the pool is empty;
    \<^item> executing the command and returning the connection, which is
      closed if the pool is full;
    \<^item> an error reply, which ends that worker in \<open>b.Fatalf\<close>;
    \<^item> the filler adding a connection.
    \<open>run_parallel\<close> relates a world to the outcome of a run: the workers'
    failure messages and the world once all have returned.  The measure
    \<open>par_measure\<close> and the executable scheduler \<open>sched_run\<close> are here too.
  \<^item> ParallelInv: the invariants of a run.  \<open>acct_inv\<close> holds for any
    command and accounts for the iterations, the trace and the pool.
    \<open>par_inv\<close> adds the counter's value for a counter command.  The theory
    also holds the abstract counter \<open>ctr_spec\<close> and its relation
    \<open>ctr_rel\<close> to the run.
  \<^item> ParallelErr: the error path.  \<open>err_inv\<close> is the invariant of a run
    whose command the server always refuses.
  \<^item> ParallelOverflow: a run of a saturating counter.  \<open>sat_inv\<close> says
    the first \<open>headroom v0\<close> commands sent have incremented the counter, and
    each later one has ended its worker with the overflow error.
  \<^item> ParallelBench: the three parallel benchmarks as relations from their
    inputs to their outcomes, since the interleaving is the Go scheduler's
    choice.
  This root theory holds the properties that span components (C11).

  \<^medskip>\<^noindent>\<^emph>\<open>What is proved.\<close>
  \<^item> C1-C3: every outcome of each parallel benchmark, under any interleaving.
    Exactly \<open>b.N\<close> increments are executed and no worker fails.  The logged
    value, the final keyspace and the trace are as computed.  The parallel
    INCR benchmark does not delete its key first, so it logs the key's old
    value plus \<open>b.N\<close> (C1).
  \<^item> C4-C5: the parallel INCR benchmark on a key that makes its commands
    fail.  Each worker's \<open>b.Fatalf\<close> ends only that worker, so the
    benchmark returns normally, reports between 1 and \<open>W\<close> failures, logs
    and deletes the key.
    \<^item> C4: the key holds a non-integer, so every INCR is refused.
    \<^item> C5: the key's value plus \<open>b.N\<close> exceeds \<open>LLONG_MAX\<close>.  The counter
      saturates at \<open>LLONG_MAX\<close>, and every INCR after that is refused.
  \<^item> C6-C7: for a counter command, a parallel run is equivalent to the
    serialized loop (C6).  Every step of the run is a stutter or one step of
    the abstract counter \<open>ctr_spec\<close> (C7, a refinement by simulation).
  \<^item> C8-C10: each serialized benchmark is computed in full, for every
    \<open>b.N\<close> a Go \<open>int\<close> holds.
  \<^item> C11: both hash benchmarks on a keyspace where the hash key holds a
    string.  They panic in \<open>RemoveHKey\<close> before the timer starts.
  \<^item> C12-C13: the outcome of a parallel run whose command is always
    refused (C12), and of one whose saturating counter overflows (C13).
  \<^item> C14-C17: the parallel run itself.
    \<^item> Every benchmark has an outcome (C14).
    \<^item> No schedule runs forever (C15).
    \<^item> Every reachable state satisfies \<open>par_inv\<close> (C16).
    \<^item> At most \<open>b.N\<close> commands are sent, and at most the pool's size in
      connections are idle (C17).
  \<^item> C18-C20: the connection provider and \<open>main\<close>.
    \<^item> \<open>main\<close> never connects, because its address has no port (C18).
    \<^item> \<open>ConnectToSingleNode\<close> over TCP is characterised on every branch
      (C19).
    \<^item> \<open>ConnectToCluster\<close> is characterised on every input, the empty
      address list and unreachable seeds included (C20).
  \<^item> C21-C25: the test helpers and the benchmark key.
    \<^item> Cleanup of an absent key is idempotent (C21).
    \<^item> Almost every random suffix yields the same key (C22).
    \<^item> The suffix of a valid rune decodes back to it (C23), so valid
      runes give distinct keys (C24).
    \<^item> \<open>RemoveHKey\<close> reports a failed delete as a failed read (C25).
  The library lemmas behind them are:
  \<^item> the preservation lemmas \<open>acct_inv_step\<close>, \<open>par_inv_step\<close>,
    \<open>err_inv_step\<close> and \<open>sat_inv_step\<close>, each proved by rule induction over
    \<open>par_step\<close>;
  \<^item> \<open>parallel_counter_final\<close>, \<open>par_error_final\<close> and \<open>par_overflow_final\<close>,
    which compute the world of a finished run;
  \<^item> the measure lemma \<open>par_step_measure\<close>;
  \<^item> the counter loop \<open>serial_loop_counter\<close>;
  \<^item> the round trips of Int64Text and \<open>utf8_roundtrip\<close>.

  \<^medskip>\<^noindent>\<^emph>\<open>Bounds and fuel.\<close>  Redis counters are \<open>64 word\<close> values read with
  \<open>sint\<close>.  The functional theorems assume the counter's start value plus
  \<open>b.N\<close> is at most \<open>2^63 - 1\<close>, which is exactly the range in which no
  increment overflows.  C5 and C13 cover the cases beyond it.  \<open>b.N\<close> is a
  \<open>nat\<close> here, where Go's is an \<open>int\<close>.  The serialized theorems assume
  \<open>b.N \<le> 2^63 - 1\<close>, the range of a Go \<open>int\<close>.  \<open>testing\<close> always
  uses a grain of at least 1, and the termination theorems assume it.  The
  executable scheduler \<open>sched_run\<close> takes fuel, and fuel equal to the
  measure \<open>par_measure\<close> of the start state always suffices
  (\<open>sched_run_finishes\<close>).  So the existence of outcomes is proved without
  an arbitrary bound.

  \<^medskip>\<^noindent>\<^emph>\<open>Not modelled.\<close>
  \<^item> Timing and the measurements themselves, and the testing framework's
    choice of \<open>b.N\<close> and of the grain (both are parameters).
  \<^item> The number of workers (\<open>GOMAXPROCS\<close> times the parallelism) is a
    parameter.
  \<^item> radix's implicit pipelining and its buffering of connections returned
    to a full pool: a returned connection is closed.
  \<^item> The wait before a connection is created for an empty pool.  A worker
    that finds the pool empty dials at once, so how many connections are in
    flight is left to the interleaving.
  \<^item> \<open>RunParallel\<close>'s check after \<open>wg.Wait()\<close> that every body ran
    \<open>pb.Next()\<close> to false.  A body ends only by \<open>pb.Next()\<close> returning
    false or by \<open>b.Fatalf\<close>, so with at least one worker the check never
    fires.
  \<^item> Network failures after the pool is created: the dial of a new
    connection is taken to succeed.
  \<^item> The cluster client beyond its construction, which no benchmark uses.
  \<^item> The overlong and surrogate checks of Go's UTF-8 decoder.  They never
    reject the encoding of a valid code point.
  Every line of src/main.go and src/common/redisHelper.go other than
  package clauses, imports and comments is modelled.  So the map can grow
  only with the test file src/main_test.go, which is modelled in full.
\<close>

subsection \<open>Properties across components\<close>

lemma RemoveHKey_on_string:
  assumes "w_db w hashID = Some (RString s)"
  shows "RemoveHKey conn hashID keyInHash w =
           (Inl (Panic (''Could not fetch the value for hash: '' @ hashID @ '' and key: '' @ keyInHash @ '' from redis'')),
            w\<lparr>w_trace := w_trace w @ [Sent (HDEL hashID keyInHash)]\<rparr>)"
  using assms by (simp add: RemoveHKey_def do_str_simps decode_str_def)

text \<open>
  C11: both hash benchmarks on a keyspace where the hash key \<open>manjinder\<close>
  holds a string: \<open>RemoveHKey\<close> gets the WRONGTYPE error before the timer
  starts, and the benchmark panics with the message of a failed read
  (C25).  The serialized benchmark computes this outcome.  The parallel
  benchmark has it as its only outcome, with no worker started.
\<close>

theorem hash_benchmarks_wrong_type:
  assumes up: "''127.0.0.1:6379'' \<in> set (w_up w)" and str: "w_db w ''manjinder'' = Some (RString s)"
  shows "BenchmarkINCRHashInSerializedSystem bN w =
           (Inl (Panic ''Could not fetch the value for hash: manjinder and key: complaints from redis''),
            w\<lparr>w_trace := w_trace w @ [Sent (HDEL ''manjinder'' ''complaints'')]\<rparr>) \<and>
         (BenchmarkINCRHashInParallelSystem bN grain W w res \<longleftrightarrow>
          res = (Inl (Panic ''Could not fetch the value for hash: manjinder and key: complaints from redis''), [],
                 w\<lparr>w_trace := w_trace w @ [Sent (HDEL ''manjinder'' ''complaints'')]\<rparr>))"
proof -
  let ?p = "Panic ''Could not fetch the value for hash: manjinder and key: complaints from redis''"
  let ?w1 = "w\<lparr>w_trace := w_trace w @ [Sent (HDEL ''manjinder'' ''complaints'')]\<rparr>"
  have rm: "RemoveHKey conn ''manjinder'' ''complaints'' w = (Inl ?p, ?w1)" for conn
    using RemoveHKey_on_string [OF str] by simp
  have conn: "ConnectToSingleNode test_transport (test_address ! 0) 10 w =
                Inr \<lparr>pool_network = ''tcp'', pool_addr = ''127.0.0.1:6379'', pool_size = 10\<rparr>"
    using connect_test_node [OF up] .
  have serial: "BenchmarkINCRHashInSerializedSystem bN w = (Inl ?p, ?w1)"
    using conn rm by (simp add: BenchmarkINCRHashInSerializedSystem_def)
  have "BenchmarkINCRHashInParallelSystem bN grain W w res \<longleftrightarrow> res = (Inl ?p, [], ?w1)"
  proof
    assume "BenchmarkINCRHashInParallelSystem bN grain W w res"
    then show "res = (Inl ?p, [], ?w1)"
      by cases (use conn rm in simp_all)
  next
    assume "res = (Inl ?p, [], ?w1)"
    then show "BenchmarkINCRHashInParallelSystem bN grain W w res"
      using conn rm by (blast intro: BenchmarkINCRHashInParallelSystem.reset_panic)
  qed
  with serial show ?thesis by simp
qed

theorem hash_benchmarks_wrong_type_witness:
  "''127.0.0.1:6379'' \<in> set (w_up \<lparr>w_db = [''manjinder'' \<mapsto> RString ''7''], w_up = [''127.0.0.1:6379''], w_cluster = False, w_trace = []\<rparr>) \<and>
   w_db \<lparr>w_db = [''manjinder'' \<mapsto> RString ''7''], w_up = [''127.0.0.1:6379''], w_cluster = False, w_trace = []\<rparr> ''manjinder'' = Some (RString ''7'') \<and>
   BenchmarkINCRHashInSerializedSystem 5 \<lparr>w_db = [''manjinder'' \<mapsto> RString ''7''], w_up = [''127.0.0.1:6379''], w_cluster = False, w_trace = []\<rparr> =
     (Inl (Panic ''Could not fetch the value for hash: manjinder and key: complaints from redis''),
      \<lparr>w_db = [''manjinder'' \<mapsto> RString ''7''], w_up = [''127.0.0.1:6379''], w_cluster = False,
       w_trace = [Sent (HDEL ''manjinder'' ''complaints'')]\<rparr>) \<and>
   BenchmarkINCRHashInParallelSystem 5 1 4 \<lparr>w_db = [''manjinder'' \<mapsto> RString ''7''], w_up = [''127.0.0.1:6379''], w_cluster = False, w_trace = []\<rparr>
     (Inl (Panic ''Could not fetch the value for hash: manjinder and key: complaints from redis''), [],
      \<lparr>w_db = [''manjinder'' \<mapsto> RString ''7''], w_up = [''127.0.0.1:6379''], w_cluster = False,
       w_trace = [Sent (HDEL ''manjinder'' ''complaints'')]\<rparr>)"
  using hash_benchmarks_wrong_type [of "\<lparr>w_db = [''manjinder'' \<mapsto> RString ''7''], w_up = [''127.0.0.1:6379''], w_cluster = False, w_trace = []\<rparr>" "''7''" 5 1 4
      "(Inl (Panic ''Could not fetch the value for hash: manjinder and key: complaints from redis''), [],
        \<lparr>w_db = [''manjinder'' \<mapsto> RString ''7''], w_up = [''127.0.0.1:6379''], w_cluster = False,
         w_trace = [Sent (HDEL ''manjinder'' ''complaints'')]\<rparr>)"]
  by simp


end
